(* ===== verification/Scrape_Base.thy ===== *)
theory Scrape_Base
  imports Main "HOL-Library.AList_Mapping"
begin

text \<open>
  Shared vocabulary of the development: the Python exceptions that the scraper
  (\<open>src/scrape.py\<close>) can raise or catch, a bind on the result type \<open>exn + 'a\<close>,
  the named collections of rewrite rules used by the component theories, and
  generic lemmas on lists and sums that several components share.
\<close>

named_theorems py_simps "evaluation rules of the Python builtins of the model"
named_theorems run_simps "unfolding rules of the effectful operations"
named_theorems step_dests "what one statement did, read off its outcome"

text \<open>
  The exceptions of the program.  \<open>JSONDecodeError\<close> is raised by \<open>json.loads\<close>
  and by \<open>Response.json\<close>, \<open>HTTPError\<close> by \<open>raise_for_status\<close> with the status
  code, \<open>ConnectionError\<close> by the transport, \<open>DateParseError\<close> by
  \<open>dateutil.parser.parse\<close>, \<open>FileNotFoundError\<close> by \<open>open\<close> on a missing
  file, \<open>SystemExit\<close> by \<open>argparse\<close> with its exit status.  In Python \<open>JSONDecodeError\<close> and the date
  parser's error are subclasses of \<open>ValueError\<close>; \<open>py_is_ValueError\<close> below
  records that hierarchy for the \<open>except\<close> clauses.
\<close>

datatype exn =
    KeyError
  | TypeError
  | ValueError
  | AttributeError
  | JSONDecodeError
  | HTTPError nat
  | ConnectionError
  | DateParseError
  | FileNotFoundError
  | SystemExit nat

definition py_is_ValueError :: "exn \<Rightarrow> bool" where
  "py_is_ValueError e \<longleftrightarrow> e = ValueError \<or> e = JSONDecodeError \<or> e = DateParseError"

text \<open>Sequencing of computations that may raise.\<close>

definition sbind :: "exn + 'a \<Rightarrow> ('a \<Rightarrow> exn + 'b) \<Rightarrow> exn + 'b" where
  "sbind r f = (case r of Inl e \<Rightarrow> Inl e | Inr x \<Rightarrow> f x)"

lemma sbind_Inl [simp]: "sbind (Inl e) f = Inl e"
  and sbind_Inr [simp]: "sbind (Inr x) f = f x"
  by (simp_all add: sbind_def)

lemma sbind_eq_Inr [simp]:
  "sbind r f = Inr y \<longleftrightarrow> (\<exists>x. r = Inr x \<and> f x = Inr y)"
  by (cases r) (simp_all add: sbind_def)

subsection \<open>Generic list lemmas\<close>

lemma distinct_append_single [simp]:
  "distinct (xs @ [x]) \<longleftrightarrow> distinct xs \<and> x \<notin> set xs"
  by auto

lemma dropWhile_append_all:
  "\<forall>x\<in>set xs. P x \<Longrightarrow> dropWhile P (xs @ ys) = dropWhile P ys"
  by (induction xs) auto

lemma dropWhile_eq_self:
  "xs = [] \<or> \<not> P (hd xs) \<Longrightarrow> dropWhile P xs = xs"
  by (cases xs) auto

lemma sum_list_map_Suc:
  "sum_list (map (\<lambda>x. Suc (f x)) xs) = sum_list (map f xs) + length xs"
  by (induction xs) auto

lemma last_append_nonempty:
  "ys \<noteq> [] \<Longrightarrow> last (xs @ ys) = last ys"
  by simp

end
