(* ===== verification/Py_Str.thy ===== *)
theory Py_Str
  imports Scrape_Base
begin

text \<open>
  The Python string builtins the scraper relies on: \<open>str.strip\<close> (used on every
  ledger line), iteration over the lines of a text file opened for reading
  (universal newlines, each line keeping its terminator), \<open>str(n)\<close> of an integer
  and \<open>int(s)\<close> of a string.  A HOL \<open>char\<close> stands for a Unicode code point below
  256 (Latin-1); the whitespace set is the one of \<open>str.isspace\<close> on that range.
\<close>

abbreviation LF :: char where "LF \<equiv> CHR 0x0A"
abbreviation CR :: char where "CR \<equiv> CHR 0x0D"
abbreviation SQ :: char where "SQ \<equiv> CHR 0x27"

definition py_isspace :: "char \<Rightarrow> bool" where
  "py_isspace c \<longleftrightarrow> c \<in> set [CHR 0x09, CHR 0x0A, CHR 0x0B, CHR 0x0C, CHR 0x0D,
     CHR 0x1C, CHR 0x1D, CHR 0x1E, CHR 0x1F, CHR 0x20, CHR 0x85, CHR 0xA0]"

definition py_strip :: "string \<Rightarrow> string" where
  "py_strip s = rev (dropWhile py_isspace (rev (dropWhile py_isspace s)))"

subsection \<open>Reading a text file line by line\<close>

text \<open>
  \<open>open(path, "r")\<close> uses universal newlines: \<open>\r\n\<close> and a lone \<open>\r\<close> are read
  as \<open>\n\<close>.  \<open>for line in f\<close> then yields the pieces up to and including each
  \<open>\n\<close>, and a last piece without terminator if the text does not end with one.
\<close>

fun py_univ_nl :: "string \<Rightarrow> string" where
  "py_univ_nl [] = []"
| "py_univ_nl [c] = [if c = CR then LF else c]"
| "py_univ_nl (c # d # s) =
     (if c = CR \<and> d = LF then LF # py_univ_nl s
      else (if c = CR then LF else c) # py_univ_nl (d # s))"

fun lines_acc :: "string \<Rightarrow> string \<Rightarrow> string list" where
  "lines_acc cur [] = (if cur = [] then [] else [cur])"
| "lines_acc cur (c # s) =
     (if c = LF then (cur @ [LF]) # lines_acc [] s else lines_acc (cur @ [c]) s)"

definition py_file_lines :: "string \<Rightarrow> string list" where
  "py_file_lines s = lines_acc [] (py_univ_nl s)"

text \<open>\<open>sep.join(xs)\<close>.\<close>

fun py_join :: "string \<Rightarrow> string list \<Rightarrow> string" where
  "py_join sep [] = []"
| "py_join sep [x] = x"
| "py_join sep (x # y # zs) = x @ sep @ py_join sep (y # zs)"

subsection \<open>Decimal integers: \<open>str(n)\<close> and \<open>int(s)\<close>\<close>

definition is_digit :: "char \<Rightarrow> bool" where
  "is_digit c \<longleftrightarrow> (48::nat) \<le> of_char c \<and> of_char c \<le> (57::nat)"

definition digit_char :: "nat \<Rightarrow> char" where
  "digit_char d = char_of (48 + d)"

fun nat_digits :: "nat \<Rightarrow> string" where
  "nat_digits n = (if n < 10 then [digit_char n] else nat_digits (n div 10) @ [digit_char (n mod 10)])"

declare nat_digits.simps [simp del]

definition py_str_int :: "int \<Rightarrow> string" where
  "py_str_int i = (if i < 0 then CHR ''-'' # nat_digits (nat (- i)) else nat_digits (nat i))"

text \<open>
  \<open>int(s)\<close> for base 10 (PEP 515): surrounding whitespace is stripped, an optional
  sign follows, then ASCII digits, where single underscores may separate digits.
  \<open>None\<close> is the \<open>ValueError\<close> Python raises.
\<close>

fun no_double_us :: "string \<Rightarrow> bool" where
  "no_double_us (a # b # s) = (\<not> (a = CHR ''_'' \<and> b = CHR ''_'') \<and> no_double_us (b # s))"
| "no_double_us _ = True"

definition digits_ok :: "string \<Rightarrow> bool" where
  "digits_ok ds \<longleftrightarrow> ds \<noteq> [] \<and> is_digit (hd ds) \<and> is_digit (last ds)
     \<and> list_all (\<lambda>c. is_digit c \<or> c = CHR ''_'') ds \<and> no_double_us ds"

definition digits_val :: "string \<Rightarrow> nat" where
  "digits_val ds = foldl (\<lambda>acc c. 10 * acc + (of_char c - (48::nat))) 0 (filter is_digit ds)"

definition py_int_of_string :: "string \<Rightarrow> int option" where
  "py_int_of_string s =
     (let t = py_strip s in
      if t \<noteq> [] \<and> (hd t = CHR ''-'' \<or> hd t = CHR ''+'') then
        (if digits_ok (tl t) then
           Some (if hd t = CHR ''-'' then - int (digits_val (tl t)) else int (digits_val (tl t)))
         else None)
      else if digits_ok t then Some (int (digits_val t)) else None)"

subsection \<open>Line iteration after appending a record\<close>

lemma py_univ_nl_no_CR [py_simps]: "CR \<notin> set s \<Longrightarrow> py_univ_nl s = s"
  by (induction s rule: py_univ_nl.induct) auto

lemma py_univ_nl_append:
  "a = [] \<or> last a \<noteq> CR \<Longrightarrow> py_univ_nl (a @ b) = py_univ_nl a @ py_univ_nl b"
proof (induction a rule: py_univ_nl.induct)
  case (2 c)
  then show ?case by (cases b) auto
qed (auto split: if_splits)

lemma py_univ_nl_last_LF:
  "s \<noteq> [] \<Longrightarrow> last s = LF \<Longrightarrow> py_univ_nl s \<noteq> [] \<and> last (py_univ_nl s) = LF"
  by (induction s rule: py_univ_nl.induct) (auto split: if_splits)

lemma lines_acc_line:
  "LF \<notin> set l \<Longrightarrow> lines_acc cur (l @ LF # s) = (cur @ l @ [LF]) # lines_acc [] s"
  by (induction l arbitrary: cur) auto

lemma lines_acc_append:
  "a \<noteq> [] \<Longrightarrow> last a = LF \<Longrightarrow> lines_acc cur (a @ b) = lines_acc cur a @ lines_acc [] b"
proof (induction a arbitrary: cur)
  case (Cons c a)
  then show ?case by (cases "a = []") auto
qed simp

text \<open>
  The file-level fact behind the ledger: appending a line \<open>l\<close> and its newline to a
  text that is empty or ends with a newline adds exactly one line to what
  \<open>for line in f\<close> yields.
\<close>

lemma py_file_lines_append_line:
  assumes s: "s = [] \<or> last s = LF" and l: "LF \<notin> set l" "CR \<notin> set l"
  shows "py_file_lines (s @ l @ [LF]) = py_file_lines s @ [l @ [LF]]"
proof -
  have u: "py_univ_nl (s @ l @ [LF]) = py_univ_nl s @ l @ [LF]"
    using s l by (auto simp: py_univ_nl_append py_univ_nl_no_CR)
  have "lines_acc [] (l @ [LF]) = [l @ [LF]]"
    using lines_acc_line [OF l(1), of "[]" "[]"] by simp
  moreover have "lines_acc [] (py_univ_nl s @ l @ [LF]) =
      lines_acc [] (py_univ_nl s) @ lines_acc [] (l @ [LF])"
  proof (cases "s = []")
    case False
    with s py_univ_nl_last_LF [of s] show ?thesis by (simp add: lines_acc_append)
  qed simp
  ultimately show ?thesis using u by (simp add: py_file_lines_def)
qed

lemma py_file_lines_Nil [simp]: "py_file_lines [] = []"
  by (simp add: py_file_lines_def)

lemma py_strip_line:
  assumes "l = [] \<or> \<not> py_isspace (hd l) \<and> \<not> py_isspace (last l)"
  shows "py_strip (l @ [LF]) = l"
proof (cases "l = []")
  case True
  then show ?thesis by (simp add: py_strip_def py_isspace_def)
next
  case False
  with assms have "dropWhile py_isspace (l @ [LF]) = l @ [LF]"
    by (cases l) auto
  moreover have "dropWhile py_isspace (rev l) = rev l"
    using False assms by (cases "rev l") (auto simp: hd_rev)
  ultimately show ?thesis by (simp add: py_strip_def py_isspace_def)
qed

subsection \<open>\<open>int(str(n)) = n\<close>\<close>

lemma is_digit_digit_char: "d < 10 \<Longrightarrow> is_digit (digit_char d)"
  by (simp add: is_digit_def digit_char_def)

lemma of_char_digit_char: "d < 10 \<Longrightarrow> of_char (digit_char d) - (48::nat) = d"
  by (simp add: digit_char_def)

lemma nat_digits_nonempty [simp]: "nat_digits n \<noteq> []"
  by (subst nat_digits.simps) simp

lemma nat_digits_digits: "list_all is_digit (nat_digits n)"
proof (induction n rule: nat_digits.induct)
  case (1 n)
  then show ?case by (subst nat_digits.simps) (simp add: is_digit_digit_char)
qed

lemma foldl_nat_digits:
  "foldl (\<lambda>acc c. 10 * acc + (of_char c - (48::nat))) 0 (nat_digits n) = n"
proof (induction n rule: nat_digits.induct)
  case (1 n)
  then show ?case by (subst nat_digits.simps) (simp add: of_char_digit_char)
qed

lemma digit_not_space: "is_digit c \<Longrightarrow> \<not> py_isspace c"
  by (auto simp: is_digit_def py_isspace_def)

lemma digit_not_sign:
  "is_digit c \<Longrightarrow> c \<noteq> CHR ''-'' \<and> c \<noteq> CHR ''+'' \<and> c \<noteq> CHR ''_''"
  by (auto simp: is_digit_def)

lemma no_double_us_no_us: "CHR ''_'' \<notin> set s \<Longrightarrow> no_double_us s"
  by (induction s rule: no_double_us.induct) auto

lemma digits_ok_nat_digits: "digits_ok (nat_digits n)"
proof -
  have d: "list_all is_digit (nat_digits n)" by (rule nat_digits_digits)
  then have "CHR ''_'' \<notin> set (nat_digits n)"
    by (auto simp: list_all_iff dest: digit_not_sign)
  with d show ?thesis
    by (auto simp: digits_ok_def list_all_iff no_double_us_no_us)
qed

lemma digits_val_nat_digits: "digits_val (nat_digits n) = n"
proof -
  have "filter is_digit (nat_digits n) = nat_digits n"
    using nat_digits_digits by (simp add: list_all_iff)
  then show ?thesis by (simp add: digits_val_def foldl_nat_digits)
qed

lemma py_strip_digits:
  assumes "list_all is_digit ds" "ds \<noteq> []"
  shows "py_strip ds = ds" "py_strip (CHR ''-'' # ds) = CHR ''-'' # ds"
proof -
  have h: "\<not> py_isspace (hd ds)" "\<not> py_isspace (last ds)"
    using assms by (auto simp: list_all_iff digit_not_space)
  have r: "dropWhile py_isspace (rev ds) = rev ds"
    using h assms by (cases "rev ds") (auto simp: hd_rev)
  have "dropWhile py_isspace ds = ds"
    using h assms by (cases ds) auto
  with r show "py_strip ds = ds" by (simp add: py_strip_def)
  obtain c r where cr: "rev ds = c # r"
    using assms(2) by (cases "rev ds") auto
  with h(2) have "\<not> py_isspace c"
    by (metis hd_rev list.sel(1))
  then have "dropWhile py_isspace (rev ds @ [CHR ''-'']) = rev ds @ [CHR ''-'']"
    by (simp add: cr)
  moreover have "\<not> py_isspace (CHR ''-'')" by (simp add: py_isspace_def)
  ultimately show "py_strip (CHR ''-'' # ds) = CHR ''-'' # ds"
    by (simp add: py_strip_def)
qed

lemma py_int_of_string_py_str_int [py_simps]: "py_int_of_string (py_str_int i) = Some i"
proof -
  let ?ds = "nat_digits (nat \<bar>i\<bar>)"
  have ds: "list_all is_digit ?ds" "?ds \<noteq> []" by (simp_all add: nat_digits_digits)
  have hd: "hd ?ds \<noteq> CHR ''-'' \<and> hd ?ds \<noteq> CHR ''+''"
    using ds by (cases ?ds) (auto dest: digit_not_sign)
  show ?thesis
  proof (cases "i < 0")
    case True
    then show ?thesis
      using py_strip_digits [OF ds] digits_ok_nat_digits digits_val_nat_digits [of "nat \<bar>i\<bar>"]
      by (simp add: py_str_int_def py_int_of_string_def)
  next
    case False
    then show ?thesis
      using py_strip_digits [OF ds] hd digits_ok_nat_digits digits_val_nat_digits [of "nat \<bar>i\<bar>"]
      by (simp add: py_str_int_def py_int_of_string_def)
  qed
qed

lemma py_str_int_inj: "py_str_int i = py_str_int j \<longleftrightarrow> i = j"
  by (metis option.inject py_int_of_string_py_str_int)

subsection \<open>Shape of \<open>str(n)\<close>\<close>

lemma of_char_digit_char_eq: "d < 10 \<Longrightarrow> of_char (digit_char d) = (48 + d :: nat)"
  by (simp add: digit_char_def)

lemma digit_char_zero: "d < 10 \<Longrightarrow> digit_char d = CHR ''0'' \<Longrightarrow> d = 0"
proof -
  assume d: "d < 10" "digit_char d = CHR ''0''"
  then have "of_char (digit_char d) = (48::nat)" by simp
  with d(1) show "d = 0" by (simp add: of_char_digit_char_eq)
qed

lemma py_str_int_abs:
  "py_str_int n = (if n < 0 then CHR ''-'' # nat_digits (nat \<bar>n\<bar>) else nat_digits (nat \<bar>n\<bar>))"
  by (simp add: py_str_int_def)

lemma nat_digits_shape:
  "\<exists>d ds. nat_digits m = d # ds \<and> is_digit d \<and> list_all is_digit ds \<and> (d = CHR ''0'' \<longrightarrow> m = 0 \<and> ds = [])"
proof (induction m rule: nat_digits.induct)
  case (1 m)
  show ?case
  proof (cases "m < 10")
    case True
    then show ?thesis
      by (subst nat_digits.simps) (auto simp: is_digit_digit_char digit_char_zero)
  next
    case False
    with "1.IH" obtain d ds where "nat_digits (m div 10) = d # ds" "is_digit d"
      "list_all is_digit ds" "d = CHR ''0'' \<longrightarrow> m div 10 = 0 \<and> ds = []" by blast
    with False show ?thesis
      by (subst nat_digits.simps) (auto simp: is_digit_digit_char)
  qed
qed

lemma py_str_int_first: "\<exists>c t. py_str_int i = c # t \<and> (is_digit c \<or> c = CHR ''-'')"
proof -
  obtain d ds where "nat_digits (nat \<bar>i\<bar>) = d # ds" "is_digit d"
    using nat_digits_shape by blast
  then show ?thesis by (auto simp: py_str_int_abs)
qed

lemma digit_not_nl: "is_digit c \<Longrightarrow> c \<noteq> LF \<and> c \<noteq> CR"
  by (auto simp: is_digit_def)

lemma py_str_int_no_nl: "LF \<notin> set (py_str_int i) \<and> CR \<notin> set (py_str_int i)"
proof -
  have "\<forall>c\<in>set (nat_digits m). c \<noteq> LF \<and> c \<noteq> CR" for m
    using nat_digits_digits [of m] by (auto simp: list_all_iff dest: digit_not_nl)
  then show ?thesis by (auto simp: py_str_int_def)
qed

lemma py_str_int_last: "is_digit (last (py_str_int i))"
proof -
  have "is_digit (last (nat_digits m))" for m
    using nat_digits_digits [of m] nat_digits_nonempty [of m] by (simp add: list_all_iff)
  then show ?thesis by (simp add: py_str_int_def)
qed

end
