(* ===== verification/Json.thy ===== *)
theory Json
  imports Py_Str
begin

text \<open>
  The Python objects that \<open>json.loads\<close> produces and the scraper inspects
  (\<open>src/scrape.py\<close>: article stubs, page envelopes, article contents), and the
  Python operations applied to them: subscription \<open>obj[key]\<close>, \<open>dict.get\<close>,
  \<open>int(x)\<close>, \<open>str(x)\<close>, truth value and iteration.  A \<open>JObj\<close> is a Python
  dict as the association list of its items in insertion order; \<open>json_wf\<close> says
  that its keys are distinct, as they are in every dict.  JSON numbers with a
  fraction or exponent (Python floats) are outside the model.
\<close>

datatype json =
    JNull
  | JBool bool
  | JInt int
  | JStr string
  | JArr "json list"
  | JObj "(string \<times> json) list"

fun json_wf :: "json \<Rightarrow> bool" where
  "json_wf (JArr xs) = list_all json_wf xs"
| "json_wf (JObj kvs) = (distinct (map fst kvs) \<and> list_all (\<lambda>kv. json_wf (snd kv)) kvs)"
| "json_wf _ = True"

subsection \<open>Subscription, \<open>dict.get\<close>, iteration, truth value\<close>

text \<open>\<open>obj[key]\<close> with a string key: a dict raises \<open>KeyError\<close> for a missing key;
  lists, strings, numbers, booleans and \<open>None\<close> raise \<open>TypeError\<close>.\<close>

fun py_getitem :: "json \<Rightarrow> string \<Rightarrow> exn + json" where
  "py_getitem (JObj kvs) k = (case map_of kvs k of Some v \<Rightarrow> Inr v | None \<Rightarrow> Inl KeyError)"
| "py_getitem _ k = Inl TypeError"

text \<open>\<open>obj.get(key, default)\<close>: only dicts have the method.\<close>

fun py_dict_get :: "json \<Rightarrow> string \<Rightarrow> json \<Rightarrow> exn + json" where
  "py_dict_get (JObj kvs) k d = Inr (case map_of kvs k of Some v \<Rightarrow> v | None \<Rightarrow> d)"
| "py_dict_get _ k d = Inl AttributeError"

text \<open>\<open>for x in obj\<close>: a list yields its elements, a dict its keys, a string its
  characters; other objects are not iterable.\<close>

fun py_iter :: "json \<Rightarrow> exn + json list" where
  "py_iter (JArr xs) = Inr xs"
| "py_iter (JObj kvs) = Inr (map (\<lambda>kv. JStr (fst kv)) kvs)"
| "py_iter (JStr s) = Inr (map (\<lambda>c. JStr [c]) s)"
| "py_iter _ = Inl TypeError"

fun py_truthy :: "json \<Rightarrow> bool" where
  "py_truthy JNull = False"
| "py_truthy (JBool b) = b"
| "py_truthy (JInt n) = (n \<noteq> 0)"
| "py_truthy (JStr s) = (s \<noteq> [])"
| "py_truthy (JArr xs) = (xs \<noteq> [])"
| "py_truthy (JObj kvs) = (kvs \<noteq> [])"

subsection \<open>\<open>int(x)\<close> and \<open>x + 1\<close> on integers\<close>

text \<open>\<open>int(x)\<close>: \<open>bool\<close> is a subclass of \<open>int\<close>; a string is parsed as a
  decimal literal (\<open>ValueError\<close> otherwise); \<open>None\<close>, lists and dicts raise
  \<open>TypeError\<close>.\<close>

fun py_int :: "json \<Rightarrow> exn + int" where
  "py_int (JInt n) = Inr n"
| "py_int (JBool b) = Inr (if b then 1 else 0)"
| "py_int (JStr s) = (case py_int_of_string s of Some n \<Rightarrow> Inr n | None \<Rightarrow> Inl ValueError)"
| "py_int _ = Inl TypeError"

text \<open>The value of an object used where Python needs an integer without
  conversion (\<open>total_page + 1\<close> and \<open>range\<close>): ints and bools only.\<close>

fun py_as_int :: "json \<Rightarrow> exn + int" where
  "py_as_int (JInt n) = Inr n"
| "py_as_int (JBool b) = Inr (if b then 1 else 0)"
| "py_as_int _ = Inl TypeError"

subsection \<open>\<open>str(x)\<close>\<close>

text \<open>
  \<open>repr\<close> of a string: single quotes unless the text contains a single quote and
  no double quote; backslash, the quote, tab, newline and carriage return are
  escaped, and the other non-printable code points as \<open>\xNN\<close> (below 256 the
  printable ones are 0x20--0x7E and 0xA1--0xFF without 0xAD).
\<close>

abbreviation BSL :: char where "BSL \<equiv> CHR 0x5C"

definition hex_char :: "nat \<Rightarrow> char" where
  "hex_char d = char_of (if d < 10 then 48 + d else 87 + d)"

definition py_printable :: "char \<Rightarrow> bool" where
  "py_printable c \<longleftrightarrow> ((32::nat) \<le> of_char c \<and> of_char c \<le> (126::nat))
     \<or> ((161::nat) \<le> of_char c \<and> of_char c \<noteq> (173::nat))"

definition py_repr_char :: "char \<Rightarrow> char \<Rightarrow> string" where
  "py_repr_char q c =
     (if c = q \<or> c = BSL then [BSL, c]
      else if c = CHR 0x09 then [BSL, CHR ''t'']
      else if c = LF then [BSL, CHR ''n'']
      else if c = CR then [BSL, CHR ''r'']
      else if \<not> py_printable c then
        [BSL, CHR ''x''] @ [hex_char (of_char c div 16), hex_char (of_char c mod (16::nat))]
      else [c])"

definition py_repr_str :: "string \<Rightarrow> string" where
  "py_repr_str s =
     (let q = (if CHR 0x27 \<in> set s \<and> CHR 0x22 \<notin> set s then CHR 0x22 else CHR 0x27)
      in q # concat (map (py_repr_char q) s) @ [q])"

fun py_repr :: "json \<Rightarrow> string" where
  "py_repr JNull = ''None''"
| "py_repr (JBool b) = (if b then ''True'' else ''False'')"
| "py_repr (JInt n) = py_str_int n"
| "py_repr (JStr s) = py_repr_str s"
| "py_repr (JArr xs) = ''['' @ py_join '', '' (map py_repr xs) @ '']''"
| "py_repr (JObj kvs) =
     ''{'' @ py_join '', '' (map (\<lambda>kv. py_repr_str (fst kv) @ '': '' @ py_repr (snd kv)) kvs) @ ''}''"

definition py_str :: "json \<Rightarrow> string" where
  "py_str j = (case j of JStr s \<Rightarrow> s | _ \<Rightarrow> py_repr j)"

subsection \<open>Well-formedness of the parts of a value\<close>

lemma py_getitem_wf: "json_wf j \<Longrightarrow> py_getitem j k = Inr x \<Longrightarrow> json_wf x"
  by (cases j) (auto simp: list_all_iff dest!: map_of_SomeD split: option.splits)

lemma py_iter_wf: "json_wf j \<Longrightarrow> py_iter j = Inr xs \<Longrightarrow> list_all json_wf xs"
  by (cases j) (auto simp: list_all_iff)

end
