(* ===== verification/Json_Codec.thy ===== *)
theory Json_Codec
  imports Json
begin

text \<open>
  The three \<open>json\<close> module entry points the scraper calls: \<open>json.dumps(article,
  ensure_ascii=False)\<close> for a ledger line (\<open>cmd_list\<close>),
  \<open>json.dump(content, f, ensure_ascii=False, indent=2)\<close> for a content file
  (\<open>cmd_content\<close>), and \<open>json.loads\<close> for ledger lines and response bodies.  The
  printer follows CPython's encoder (default separators \<open>', '\<close> and \<open>': '\<close>;
  with an indent, \<open>','\<close> and a newline).  The parser follows CPython's
  scanner: JSON whitespace, \<open>null/true/false\<close>, integers, strings with escapes,
  arrays, objects with later duplicate keys overriding earlier ones, and
  \<open>Extra data\<close> rejected.  It spends one unit of fuel per call; \<open>json_loads\<close>
  gives it one more unit than the text has characters, which is enough for
  every input (\<open>json_loads_total\<close>, in \<open>Json_Read\<close>).  The main result is the round trip
  \<open>json_loads (json_dumps j) = Some j\<close> for every dict-shaped value.
\<close>

subsection \<open>Printer\<close>

definition json_esc :: "char \<Rightarrow> string" where
  "json_esc c =
     (if c = CHR 0x22 then [BSL, CHR 0x22]
      else if c = BSL then [BSL, BSL]
      else if c = LF then [BSL, CHR ''n'']
      else if c = CR then [BSL, CHR ''r'']
      else if c = CHR 0x09 then [BSL, CHR ''t'']
      else if c = CHR 0x08 then [BSL, CHR ''b'']
      else if c = CHR 0x0C then [BSL, CHR ''f'']
      else if of_char c < (32::nat) then
        [BSL, CHR ''u'', CHR ''0'', CHR ''0'', hex_char (of_char c div 16), hex_char (of_char c mod (16::nat))]
      else [c])"

definition json_str :: "string \<Rightarrow> string" where
  "json_str s = CHR 0x22 # concat (map json_esc s) @ [CHR 0x22]"

fun json_dumps :: "json \<Rightarrow> string" where
  "json_dumps JNull = ''null''"
| "json_dumps (JBool b) = (if b then ''true'' else ''false'')"
| "json_dumps (JInt n) = py_str_int n"
| "json_dumps (JStr s) = json_str s"
| "json_dumps (JArr xs) = ''['' @ py_join '', '' (map json_dumps xs) @ '']''"
| "json_dumps (JObj kvs) =
     ''{'' @ py_join '', '' (map (\<lambda>kv. json_str (fst kv) @ '': '' @ json_dumps (snd kv)) kvs) @ ''}''"

definition json_nl :: "nat \<Rightarrow> string" where
  "json_nl k = LF # replicate (2 * k) (CHR '' '')"

fun json_dump_ind :: "nat \<Rightarrow> json \<Rightarrow> string" where
  "json_dump_ind l (JArr xs) =
     (if xs = [] then ''[]''
      else ''['' @ json_nl (Suc l) @ py_join ('','' @ json_nl (Suc l)) (map (json_dump_ind (Suc l)) xs)
           @ json_nl l @ '']'')"
| "json_dump_ind l (JObj kvs) =
     (if kvs = [] then ''{}''
      else ''{'' @ json_nl (Suc l)
           @ py_join ('','' @ json_nl (Suc l))
               (map (\<lambda>kv. json_str (fst kv) @ '': '' @ json_dump_ind (Suc l) (snd kv)) kvs)
           @ json_nl l @ ''}'')"
| "json_dump_ind l j = json_dumps j"

definition json_dump_indent2 :: "json \<Rightarrow> string" where
  "json_dump_indent2 j = json_dump_ind 0 j"

subsection \<open>Parser\<close>

definition json_is_ws :: "char \<Rightarrow> bool" where
  "json_is_ws c \<longleftrightarrow> c \<in> set [CHR '' '', CHR 0x09, LF, CR]"

definition skip_ws :: "string \<Rightarrow> string" where
  "skip_ws s = dropWhile json_is_ws s"

definition hex_val :: "char \<Rightarrow> nat option" where
  "hex_val c =
     (if is_digit c then Some (of_char c - 48)
      else if (97::nat) \<le> of_char c \<and> of_char c \<le> (102::nat) then Some (of_char c - 87)
      else if (65::nat) \<le> of_char c \<and> of_char c \<le> (70::nat) then Some (of_char c - 55)
      else None)"

definition json_unesc :: "char \<Rightarrow> char option" where
  "json_unesc e =
     (if e = CHR 0x22 \<or> e = BSL \<or> e = CHR ''/'' then Some e
      else if e = CHR ''b'' then Some (CHR 0x08)
      else if e = CHR ''f'' then Some (CHR 0x0C)
      else if e = CHR ''n'' then Some LF
      else if e = CHR ''r'' then Some CR
      else if e = CHR ''t'' then Some (CHR 0x09)
      else None)"

definition jp_cons :: "char \<Rightarrow> (string \<times> string) option \<Rightarrow> (string \<times> string) option" where
  "jp_cons x r = map_option (\<lambda>(t, rest). (x # t, rest)) r"

text \<open>The body of a string literal after its opening quote.  A \<open>\uXXXX\<close> escape
  above 0xFF is outside the character model and fails.\<close>

fun jp_string :: "string \<Rightarrow> (string \<times> string) option" where
  "jp_string [] = None"
| "jp_string (c # r) =
     (if c = CHR 0x22 then Some ([], r)
      else if c = BSL then
        (case r of
           [] \<Rightarrow> None
         | e # r2 \<Rightarrow>
             (if e = CHR ''u'' then
                (case r2 of
                   a # b # c3 # d # rr \<Rightarrow>
                     (case (hex_val a, hex_val b, hex_val c3, hex_val d) of
                        (Some x1, Some x2, Some x3, Some x4) \<Rightarrow>
                          (let cp = ((x1 * 16 + x2) * 16 + x3) * 16 + x4 in
                           if cp < 256 then jp_cons (char_of cp) (jp_string rr) else None)
                      | _ \<Rightarrow> None)
                 | _ \<Rightarrow> None)
              else (case json_unesc e of Some u \<Rightarrow> jp_cons u (jp_string r2) | None \<Rightarrow> None)))
      else if of_char c < (32::nat) then None
      else jp_cons c (jp_string r))"

text \<open>Numbers: \<open>-?(0|[1-9][0-9]*)\<close>.  When a fraction or exponent follows, CPython
  returns a float, which is outside the model: the parse fails.\<close>

fun float_tail :: "string \<Rightarrow> bool" where
  "float_tail (c # d # r) =
     ((c = CHR ''.'' \<and> is_digit d)
      \<or> ((c = CHR ''e'' \<or> c = CHR ''E'')
         \<and> (is_digit d \<or> ((d = CHR ''+'' \<or> d = CHR ''-'') \<and> r \<noteq> [] \<and> is_digit (hd r)))))"
| "float_tail _ = False"

definition jp_int_digits :: "string \<Rightarrow> (string \<times> string) option" where
  "jp_int_digits s =
     (case s of
        [] \<Rightarrow> None
      | c # r \<Rightarrow>
          if c = CHR ''0'' then Some (''0'', r)
          else if is_digit c then Some (c # takeWhile is_digit r, dropWhile is_digit r)
          else None)"

definition jp_number :: "string \<Rightarrow> (json \<times> string) option" where
  "jp_number s =
     (let neg = (s \<noteq> [] \<and> hd s = CHR ''-''); r = (if neg then tl s else s) in
      case jp_int_digits r of
        None \<Rightarrow> None
      | Some (ds, rest) \<Rightarrow>
          if float_tail rest then None
          else Some (JInt (if neg then - int (digits_val ds) else int (digits_val ds)), rest))"

text \<open>\<open>d[k] = v\<close>: a new key goes last, an existing one keeps its place.\<close>

fun dict_set :: "('k \<times> 'v) list \<Rightarrow> 'k \<Rightarrow> 'v \<Rightarrow> ('k \<times> 'v) list" where
  "dict_set [] k v = [(k, v)]"
| "dict_set (kv # kvs) k v = (if fst kv = k then (k, v) # kvs else kv # dict_set kvs k v)"

fun jp_value :: "nat \<Rightarrow> string \<Rightarrow> (json \<times> string) option"
and jp_elems :: "nat \<Rightarrow> json list \<Rightarrow> string \<Rightarrow> (json list \<times> string) option"
and jp_members :: "nat \<Rightarrow> (string \<times> json) list \<Rightarrow> string \<Rightarrow> ((string \<times> json) list \<times> string) option"
where
  "jp_value 0 s = None"
| "jp_value (Suc n) s =
     (case s of
        [] \<Rightarrow> None
      | c # r \<Rightarrow>
          if c = CHR 0x22 then map_option (\<lambda>(t, r'). (JStr t, r')) (jp_string r)
          else if c = CHR ''{'' then
            (let r1 = skip_ws r in
             if r1 \<noteq> [] \<and> hd r1 = CHR ''}'' then Some (JObj [], tl r1)
             else if r1 \<noteq> [] \<and> hd r1 = CHR 0x22 then
               map_option (\<lambda>(kvs, r'). (JObj kvs, r')) (jp_members n [] (tl r1))
             else None)
          else if c = CHR ''['' then
            (let r1 = skip_ws r in
             if r1 \<noteq> [] \<and> hd r1 = CHR '']'' then Some (JArr [], tl r1)
             else map_option (\<lambda>(xs, r'). (JArr xs, r')) (jp_elems n [] r1))
          else if take 4 s = ''null'' then Some (JNull, drop 4 s)
          else if take 4 s = ''true'' then Some (JBool True, drop 4 s)
          else if take 5 s = ''false'' then Some (JBool False, drop 5 s)
          else jp_number s)"
| "jp_elems 0 acc s = None"
| "jp_elems (Suc n) acc s =
     (case jp_value n s of
        None \<Rightarrow> None
      | Some (v, r) \<Rightarrow>
          (case skip_ws r of
             [] \<Rightarrow> None
           | c # r' \<Rightarrow>
               if c = CHR '']'' then Some (acc @ [v], r')
               else if c = CHR '','' then jp_elems n (acc @ [v]) (skip_ws r')
               else None))"
| "jp_members 0 acc s = None"
| "jp_members (Suc n) acc s =
     (case jp_string s of
        None \<Rightarrow> None
      | Some (k, r) \<Rightarrow>
          (case skip_ws r of
             [] \<Rightarrow> None
           | c # r1 \<Rightarrow>
               if c \<noteq> CHR '':'' then None
               else
                 (case jp_value n (skip_ws r1) of
                    None \<Rightarrow> None
                  | Some (v, r2) \<Rightarrow>
                      (case skip_ws r2 of
                         [] \<Rightarrow> None
                       | d # r3 \<Rightarrow>
                           if d = CHR ''}'' then Some (dict_set acc k v, r3)
                           else if d = CHR '','' then
                             (case skip_ws r3 of
                                [] \<Rightarrow> None
                              | q # r4 \<Rightarrow>
                                  if q = CHR 0x22 then jp_members n (dict_set acc k v) r4 else None)
                           else None))))"

definition json_loads :: "string \<Rightarrow> json option" where
  "json_loads s =
     (case jp_value (Suc (length s)) (skip_ws s) of
        None \<Rightarrow> None
      | Some (j, r) \<Rightarrow> if skip_ws r = [] then Some j else None)"

text \<open>The fuel a value needs: one unit per node and per array element or
  object member.\<close>

fun jsize :: "json \<Rightarrow> nat" where
  "jsize (JArr xs) = Suc (sum_list (map (\<lambda>x. Suc (jsize x)) xs))"
| "jsize (JObj kvs) = Suc (sum_list (map (\<lambda>kv. Suc (jsize (snd kv))) kvs))"
| "jsize _ = 1"

definition json_delim :: "string \<Rightarrow> bool" where
  "json_delim r \<longleftrightarrow> r = [] \<or> hd r = CHR '','' \<or> hd r = CHR '']'' \<or> hd r = CHR ''}'' \<or> hd r = LF"

definition json_start :: "char \<Rightarrow> bool" where
  "json_start c \<longleftrightarrow> is_digit c \<or> c \<in> set [CHR ''n'', CHR ''t'', CHR ''f'', CHR ''-'', CHR 0x22, CHR ''['', CHR ''{'']"

definition json_member :: "string \<times> json \<Rightarrow> string" where
  "json_member kv = json_str (fst kv) @ '': '' @ json_dumps (snd kv)"

subsection \<open>Strings round-trip\<close>

lemma hex_val_hex_char: "d < 16 \<Longrightarrow> hex_val (hex_char d) = Some d"
  by (simp add: hex_char_def hex_val_def is_digit_def)

lemma json_esc_cases:
  "json_esc c = [c] \<and> c \<noteq> CHR 0x22 \<and> c \<noteq> BSL \<and> \<not> of_char c < (32::nat)
   \<or> (\<exists>e. json_esc c = [BSL, e] \<and> json_unesc e = Some c \<and> e \<noteq> CHR ''u'')
   \<or> (of_char c < (32::nat) \<and> json_esc c = [BSL, CHR ''u'', CHR ''0'', CHR ''0'',
         hex_char (of_char c div 16), hex_char (of_char c mod (16::nat))])"
  by (auto simp: json_esc_def json_unesc_def)

lemma jp_string_esc: "jp_string (concat (map json_esc s) @ CHR 0x22 # rest) = Some (s, rest)"
proof (induction s)
  case Nil
  then show ?case by simp
next
  case (Cons c s)
  from json_esc_cases [of c] show ?case
  proof (elim disjE exE conjE)
    assume "json_esc c = [c]" "c \<noteq> CHR 0x22" "c \<noteq> BSL" "\<not> of_char c < (32::nat)"
    with Cons show ?thesis by (simp add: jp_cons_def)
  next
    fix e assume "json_esc c = [BSL, e]" "json_unesc e = Some c" "e \<noteq> CHR ''u''"
    with Cons show ?thesis by (simp add: jp_cons_def)
  next
    assume lt: "of_char c < (32::nat)" and
      e: "json_esc c = [BSL, CHR ''u'', CHR ''0'', CHR ''0'',
            hex_char (of_char c div 16), hex_char (of_char c mod (16::nat))]"
    have h: "hex_val (hex_char (of_char c div 16)) = Some (of_char c div 16)"
      "hex_val (hex_char (of_char c mod 16)) = Some (of_char c mod 16)"
      using lt by (simp_all add: hex_val_hex_char)
    with Cons e lt show ?thesis
      by (simp add: jp_cons_def hex_val_def is_digit_def)
  qed
qed

subsection \<open>Enough fuel\<close>

lemma length_py_join:
  "length (py_join sep xs) = sum_list (map length xs) + length sep * (length xs - 1)"
  by (induction sep xs rule: py_join.induct) auto

lemma jsize_le_length: "jsize j \<le> length (json_dumps j)"
proof (induction j)
  case (JArr xs)
  have "sum_list (map (\<lambda>x. Suc (jsize x)) xs) \<le> sum_list (map (\<lambda>x. Suc (length (json_dumps x))) xs)"
    using JArr by (intro sum_list_mono) auto
  then show ?case
    by (cases xs) (auto simp: length_py_join sum_list_map_Suc comp_def)
next
  case (JObj kvs)
  have "Suc (jsize (snd kv)) \<le> length (json_str (fst kv) @ '': '' @ json_dumps (snd kv))"
    if "kv \<in> set kvs" for kv
  proof -
    have "snd kv \<in> Basic_BNFs.snds kv" by (simp add: prod_set_defs)
    with that have "jsize (snd kv) \<le> length (json_dumps (snd kv))"
      by (rule JObj.IH)
    then show ?thesis by (simp add: json_str_def)
  qed
  then have "sum_list (map (\<lambda>kv. Suc (jsize (snd kv))) kvs) \<le>
      sum_list (map length (map (\<lambda>kv. json_str (fst kv) @ '': '' @ json_dumps (snd kv)) kvs))"
    by (simp add: sum_list_mono comp_def)
  then show ?case by (simp add: length_py_join)
qed (auto simp: json_str_def py_str_int_def Suc_le_eq)

subsection \<open>Values round-trip\<close>

lemma delim_not_digit:
  "json_delim rest \<Longrightarrow> takeWhile is_digit rest = [] \<and> dropWhile is_digit rest = rest \<and> \<not> float_tail rest"
  by (cases rest rule: float_tail.cases) (auto simp: json_delim_def is_digit_def)

lemma jp_number_nat_digits:
  assumes "json_delim rest"
  shows "jp_number (nat_digits m @ rest) = Some (JInt (int m), rest)"
    and "jp_number (CHR ''-'' # nat_digits m @ rest) = Some (JInt (- int m), rest)"
proof -
  obtain d ds where nd: "nat_digits m = d # ds" "is_digit d" "list_all is_digit ds"
      "d = CHR ''0'' \<longrightarrow> m = 0 \<and> ds = []"
    using nat_digits_shape by blast
  have val: "digits_val (d # ds) = m"
    using digits_val_nat_digits [of m] by (simp only: nd(1))
  have tw: "takeWhile is_digit (ds @ rest) = ds" "dropWhile is_digit (ds @ rest) = rest"
    using nd(3) delim_not_digit [OF assms]
    by (simp_all add: list_all_iff takeWhile_append2 dropWhile_append_all)
  have ints: "jp_int_digits (d # ds @ rest) = Some (d # ds, rest)"
    using nd tw by (auto simp: jp_int_digits_def)
  have nf: "\<not> float_tail rest" using delim_not_digit [OF assms] by simp
  have "d \<noteq> CHR ''-''" using nd(2) by (simp add: digit_not_sign)
  then show "jp_number (nat_digits m @ rest) = Some (JInt (int m), rest)"
    using val ints nf by (simp add: jp_number_def nd(1))
  show "jp_number (CHR ''-'' # nat_digits m @ rest) = Some (JInt (- int m), rest)"
    using val ints nf by (simp add: jp_number_def nd(1))
qed

lemma jp_number_py_str_int:
  assumes "json_delim rest"
  shows "jp_number (py_str_int n @ rest) = Some (JInt n, rest)"
proof (cases "n < 0")
  case True
  then show ?thesis
    using jp_number_nat_digits(2) [OF assms, of "nat (- n)"] by (simp add: py_str_int_def)
next
  case False
  then show ?thesis
    using jp_number_nat_digits(1) [OF assms, of "nat n"] by (simp add: py_str_int_def)
qed

lemma skip_ws_nows: "s = [] \<or> \<not> json_is_ws (hd s) \<Longrightarrow> skip_ws s = s"
  by (cases s) (auto simp: skip_ws_def)

lemma skip_ws_Cons [simp]:
  "skip_ws (c # s) = (if json_is_ws c then skip_ws s else c # s)"
  by (simp add: skip_ws_def)

lemma json_is_ws_simps [simp]:
  "json_is_ws (CHR '' '')" "\<not> json_is_ws (CHR '','')" "\<not> json_is_ws (CHR '']'')"
  "\<not> json_is_ws (CHR ''}'')" "\<not> json_is_ws (CHR '':'')" "\<not> json_is_ws (CHR 0x22)"
  by (simp_all add: json_is_ws_def)

lemma json_start_facts:
  "json_start c \<Longrightarrow> \<not> json_is_ws c \<and> \<not> py_isspace c \<and> c \<noteq> CHR '']'' \<and> c \<noteq> CHR ''}''"
  by (auto simp: json_start_def json_is_ws_def py_isspace_def is_digit_def)

lemma json_dumps_first: "\<exists>c t. json_dumps j = c # t \<and> json_start c"
proof (cases j)
  case (JInt n)
  obtain d ds where "nat_digits (nat \<bar>n\<bar>) = d # ds" "is_digit d"
    using nat_digits_shape by blast
  with JInt show ?thesis by (auto simp: py_str_int_abs json_start_def)
qed (auto simp: json_start_def json_str_def)

lemma skip_ws_dumps: "skip_ws (json_dumps j @ r) = json_dumps j @ r"
  using json_dumps_first [of j] json_start_facts by (auto simp: skip_ws_def)

lemma py_join_Cons: "py_join sep (x # xs) = x @ (if xs = [] then [] else sep @ py_join sep xs)"
  by (cases xs) auto

lemma jp_elems_join:
  "(\<And>x n rest. x \<in> set xs \<Longrightarrow> json_wf x \<Longrightarrow> jsize x \<le> n \<Longrightarrow> json_delim rest \<Longrightarrow>
       jp_value n (json_dumps x @ rest) = Some (x, rest))
   \<Longrightarrow> xs \<noteq> [] \<Longrightarrow> list_all json_wf xs \<Longrightarrow> sum_list (map (\<lambda>x. Suc (jsize x)) xs) \<le> n
   \<Longrightarrow> jp_elems n acc (py_join '', '' (map json_dumps xs) @ CHR '']'' # rest) = Some (acc @ xs, rest)"
proof (induction xs arbitrary: acc n)
  case (Cons x xs)
  then obtain k where n: "n = Suc k" and kx: "jsize x \<le> k"
    by (cases n) auto
  show ?case
  proof (cases "xs = []")
    case True
    have "jp_value k (json_dumps x @ CHR '']'' # rest) = Some (x, CHR '']'' # rest)"
      using Cons.prems(1,3) kx by (auto simp: json_delim_def)
    with True n show ?thesis by simp
  next
    case False
    let ?tl = "py_join '', '' (map json_dumps xs) @ CHR '']'' # rest"
    have v: "jp_value k (json_dumps x @ CHR '','' # CHR '' '' # ?tl) = Some (x, CHR '','' # CHR '' '' # ?tl)"
      using Cons.prems(1,3) kx by (auto simp: json_delim_def)
    have "jp_elems k (acc @ [x]) ?tl = Some ((acc @ [x]) @ xs, rest)"
      using Cons.prems n False by (intro Cons.IH) auto
    moreover obtain y ys where "xs = y # ys" using False by (cases xs) auto
    then have "skip_ws ?tl = ?tl"
      using skip_ws_dumps [of y] by (simp add: py_join_Cons)
    ultimately show ?thesis
      using v n False by (simp add: py_join_Cons)
  qed
qed simp

lemma dict_set_new: "k \<notin> set (map fst acc) \<Longrightarrow> dict_set acc k v = acc @ [(k, v)]"
  by (induction acc) auto

lemma jp_members_join:
  "(\<And>k v n rest. (k, v) \<in> set kvs \<Longrightarrow> json_wf v \<Longrightarrow> jsize v \<le> n \<Longrightarrow> json_delim rest \<Longrightarrow>
       jp_value n (json_dumps v @ rest) = Some (v, rest))
   \<Longrightarrow> kvs \<noteq> [] \<Longrightarrow> list_all (\<lambda>kv. json_wf (snd kv)) kvs \<Longrightarrow> distinct (map fst (acc @ kvs))
   \<Longrightarrow> sum_list (map (\<lambda>kv. Suc (jsize (snd kv))) kvs) \<le> n
   \<Longrightarrow> jp_members n acc (tl (py_join '', '' (map json_member kvs) @ CHR ''}'' # rest)) = Some (acc @ kvs, rest)"
proof (induction kvs arbitrary: acc n)
  case (Cons kv kvs)
  obtain k v where kv: "kv = (k, v)" by (cases kv)
  from Cons.prems(5) obtain m where n: "n = Suc m" and mv: "jsize v \<le> m"
    by (cases n) (auto simp: kv)
  have new: "dict_set acc k v = acc @ [(k, v)]"
    using Cons.prems(4) by (intro dict_set_new) (auto simp: kv)
  let ?T = "if kvs = [] then CHR ''}'' # rest
            else CHR '','' # CHR '' '' # py_join '', '' (map json_member kvs) @ CHR ''}'' # rest"
  have T: "json_delim ?T" by (simp add: json_delim_def)
  have eq: "tl (py_join '', '' (map json_member (kv # kvs)) @ CHR ''}'' # rest) =
      concat (map json_esc k) @ CHR 0x22 # CHR '':'' # CHR '' '' # json_dumps v @ ?T"
    by (simp add: py_join_Cons json_member_def json_str_def kv)
  have wv: "json_wf v" using Cons.prems(3) by (simp add: kv)
  have v: "jp_value m (json_dumps v @ ?T) = Some (v, ?T)"
    using Cons.prems(1) [of k v m ?T] wv mv T by (simp add: kv)
  have s: "skip_ws (json_dumps v @ ?T) = json_dumps v @ ?T"
    by (rule skip_ws_dumps)
  show ?case
  proof (cases "kvs = []")
    case True
    then show ?thesis using eq v s new n by (simp add: jp_string_esc kv)
  next
    case False
    let ?tl = "py_join '', '' (map json_member kvs) @ CHR ''}'' # rest"
    obtain kv2 kvs2 where kvs: "kvs = kv2 # kvs2" using False by (cases kvs) auto
    have hd: "skip_ws ?tl = CHR 0x22 # tl ?tl"
      by (simp add: kvs py_join_Cons json_member_def json_str_def)
    have "jp_members m (acc @ [(k, v)]) (tl ?tl) = Some ((acc @ [(k, v)]) @ kvs, rest)"
      using Cons.prems n False mv by (intro Cons.IH) (auto simp: kv)
    then show ?thesis
      using eq v s new n False hd by (simp add: jp_string_esc kv)
  qed
qed simp

lemma json_dumps_JObj_member:
  "json_dumps (JObj kvs) = ''{'' @ py_join '', '' (map json_member kvs) @ ''}''"
  by (simp add: json_member_def [abs_def])

lemma jp_value_dumps:
  "json_wf j \<Longrightarrow> jsize j \<le> n \<Longrightarrow> json_delim rest \<Longrightarrow> jp_value n (json_dumps j @ rest) = Some (j, rest)"
proof (induction j arbitrary: n rest)
  case JNull
  then show ?case by (cases n) auto
next
  case (JBool b)
  then show ?case by (cases n; cases b) auto
next
  case (JInt i)
  obtain c t where ct: "py_str_int i = c # t" "is_digit c \<or> c = CHR ''-''"
    using py_str_int_first by blast
  then have "c \<noteq> CHR 0x22 \<and> c \<noteq> CHR ''{'' \<and> c \<noteq> CHR ''['' \<and> c \<noteq> CHR ''n'' \<and> c \<noteq> CHR ''t'' \<and> c \<noteq> CHR ''f''"
    by (auto simp: is_digit_def)
  with JInt ct show ?case
    using jp_number_py_str_int [OF JInt.prems(3), of i] by (cases n) auto
next
  case (JStr s)
  then show ?case by (cases n) (auto simp: json_str_def jp_string_esc)
next
  case (JArr xs)
  then obtain m where n: "n = Suc m" and m: "sum_list (map (\<lambda>x. Suc (jsize x)) xs) \<le> m"
    by (cases n) auto
  show ?case
  proof (cases "xs = []")
    case True
    then show ?thesis by (simp add: n)
  next
    case False
    then obtain y ys where xs: "xs = y # ys" by (cases xs) auto
    let ?tl = "py_join '', '' (map json_dumps xs) @ CHR '']'' # rest"
    have sk: "skip_ws ?tl = ?tl" and nb: "hd ?tl \<noteq> CHR '']''"
      using skip_ws_dumps [of y] json_dumps_first [of y] json_start_facts
      by (auto simp: xs py_join_Cons)
    have "jp_elems m [] ?tl = Some (xs, rest)"
      using JArr False m by (intro jp_elems_join [where acc = "[]", simplified]) auto
    with sk nb False show ?thesis by (simp add: n)
  qed
next
  case (JObj kvs)
  then obtain m where n: "n = Suc m" and m: "sum_list (map (\<lambda>kv. Suc (jsize (snd kv))) kvs) \<le> m"
    by (cases n) auto
  show ?case
  proof (cases "kvs = []")
    case True
    then show ?thesis by (simp add: n)
  next
    case False
    then obtain kv kvs2 where kvs: "kvs = kv # kvs2" by (cases kvs) auto
    let ?tl = "py_join '', '' (map json_member kvs) @ CHR ''}'' # rest"
    have sk: "skip_ws ?tl = CHR 0x22 # tl ?tl"
      by (simp add: kvs py_join_Cons json_member_def json_str_def)
    have ih: "jp_value n (json_dumps v @ rest) = Some (v, rest)"
      if "(k, v) \<in> set kvs" "json_wf v" "jsize v \<le> n" "json_delim rest" for k v n rest
    proof -
      have "v \<in> Basic_BNFs.snds (k, v)" by (simp add: prod_set_defs)
      with that show ?thesis by (intro JObj.IH) auto
    qed
    have "jp_members m [] (tl ?tl) = Some (kvs, rest)"
      using JObj.prems(1) False m by (intro jp_members_join [where acc = "[]", simplified] ih) auto
    with sk show ?thesis by (simp add: n json_dumps_JObj_member Let_def del: json_dumps.simps)
  qed
qed

theorem json_loads_json_dumps: "json_wf j \<Longrightarrow> json_loads (json_dumps j) = Some j"
  using jp_value_dumps [of j "Suc (length (json_dumps j))" "[]"] jsize_le_length [of j]
    skip_ws_dumps [of j "[]"]
  by (simp add: json_loads_def json_delim_def skip_ws_def)

lemma dict_set_keys: "fst ` set (dict_set kvs k v) = insert k (fst ` set kvs)"
  by (induction kvs) auto

lemma dict_set_distinct: "distinct (map fst kvs) \<Longrightarrow> distinct (map fst (dict_set kvs k v))"
  by (induction kvs) (auto simp: dict_set_keys)

lemma dict_set_vals:
  "list_all P (map snd kvs) \<Longrightarrow> P v \<Longrightarrow> list_all P (map snd (dict_set kvs k v))"
  by (induction kvs) auto

lemma jp_number_JInt: "jp_number s = Some (j, r) \<Longrightarrow> \<exists>i. j = JInt i"
  by (auto simp: jp_number_def Let_def split: option.splits prod.splits if_splits)

lemma jp_wf:
  shows "jp_value n s = Some (j, r) \<Longrightarrow> json_wf j"
    and "jp_elems n acc s = Some (xs, r) \<Longrightarrow> list_all json_wf acc \<Longrightarrow> list_all json_wf xs"
    and "jp_members n kvs s = Some (kvs', r) \<Longrightarrow> distinct (map fst kvs)
         \<Longrightarrow> list_all json_wf (map snd kvs)
         \<Longrightarrow> distinct (map fst kvs') \<and> list_all json_wf (map snd kvs')"
proof (induction n s and n acc s and n kvs s arbitrary: j r and xs r and kvs' r
       rule: jp_value_jp_elems_jp_members.induct)
  case (2 n s)
  then show ?case
    by (auto simp: Let_def list_all_iff split: list.splits if_splits option.splits prod.splits
             dest: jp_number_JInt)
next
  case (4 n acc s)
  then show ?case
    by (auto split: list.splits if_splits option.splits prod.splits)
next
  case (6 n kvs s)
  then show ?case
    by (auto simp: dict_set_distinct dict_set_vals split: list.splits if_splits option.splits prod.splits)
qed auto

lemma json_loads_wf: "json_loads s = Some j \<Longrightarrow> json_wf j"
proof -
  assume "json_loads s = Some j"
  then obtain r where "jp_value (Suc (length s)) (skip_ws s) = Some (j, r)"
    unfolding json_loads_def
    by (auto split: option.splits if_splits simp del: jp_value.simps)
  then show ?thesis by (rule jp_wf(1))
qed

lemma set_py_join: "set (py_join sep xs) \<subseteq> set sep \<union> \<Union> (set ` set xs)"
  by (induction sep xs rule: py_join.induct) auto

lemma hex_char_ge: "d < 16 \<Longrightarrow> (48::nat) \<le> of_char (hex_char d)"
  by (simp add: hex_char_def)

lemma json_esc_no_nl: "LF \<notin> set (json_esc c) \<and> CR \<notin> set (json_esc c)"
proof -
  have h: "x < 16 \<Longrightarrow> hex_char x \<noteq> LF \<and> hex_char x \<noteq> CR" for x
    using hex_char_ge [of x] by auto
  have "of_char c div 16 < (16::nat)"
    using nat_of_char_less_256 [of c] by linarith
  then show ?thesis
    using h [of "of_char c div 16"] h [of "of_char c mod 16"]
    by (auto simp: json_esc_def)
qed

lemma json_str_no_nl: "LF \<notin> set (json_str s) \<and> CR \<notin> set (json_str s)"
  using json_esc_no_nl by (auto simp: json_str_def)

lemma json_dumps_no_nl: "LF \<notin> set (json_dumps j) \<and> CR \<notin> set (json_dumps j)"
proof (induction j)
  case (JArr xs)
  then show ?case using set_py_join [of "'', ''" "map json_dumps xs"] by auto
next
  case (JObj kvs)
  have "LF \<notin> set (json_dumps v) \<and> CR \<notin> set (json_dumps v)" if "(k, v) \<in> set kvs" for k v
  proof -
    have "v \<in> Basic_BNFs.snds (k, v)" by (simp add: prod_set_defs)
    with that show ?thesis by (rule JObj.IH)
  qed
  then show ?case
    using set_py_join [of "'', ''" "map (\<lambda>kv. json_str (fst kv) @ '': '' @ json_dumps (snd kv)) kvs"]
      json_str_no_nl by fastforce
qed (auto simp: json_str_no_nl py_str_int_no_nl)

lemma json_dumps_last:
  "last (json_dumps j) \<in> {CHR ''l'', CHR ''e'', CHR 0x22, CHR '']'', CHR ''}''} \<or> is_digit (last (json_dumps j))"
  by (cases j) (auto simp: json_str_def py_str_int_last)

lemma json_dumps_strip: "py_strip (json_dumps j @ [LF]) = json_dumps j"
proof (rule py_strip_line)
  obtain c t where ct: "json_dumps j = c # t" "json_start c" using json_dumps_first by blast
  have "\<not> py_isspace (last (json_dumps j))"
    using json_dumps_last [of j] by (auto simp: py_isspace_def dest: digit_not_space)
  with ct json_start_facts show "json_dumps j = [] \<or> \<not> py_isspace (hd (json_dumps j)) \<and> \<not> py_isspace (last (json_dumps j))"
    by auto
qed

end
