(* ===== verification/World.thy ===== *)
theory World
  imports Json_Codec
begin

text \<open>
  The environment of \<open>src/scrape.py\<close> and the effects its two commands have on
  it.  The world is the file system (\<open>files\<close>, a finite map from paths to file
  contents; directories are implicit) and the observable trace of the process:
  every HTTP request it sends, every \<open>time.sleep\<close> and every line it prints, in
  order.  The upstream server, \<open>dateutil.parser.parse\<close> and the text of
  exception messages are black boxes collected in the record \<open>env\<close>; the server
  is a function of the request, so it does not change during a run.

  A statement of the program is a function \<open>world \<Rightarrow> (exn + 'a) \<times> world\<close>
  (\<open>'a py\<close>): a raised exception is \<open>Inl\<close> and keeps the effects that happened
  before it, as in Python.  \<open>py_bind\<close> sequences statements and propagates the
  exception; \<open>py_try\<close> is \<open>try/except\<close>.

  The module constants \<open>API_BASE\<close>, \<open>REQUEST_DELAY\<close>, \<open>VALID_CATEGORIES\<close> and
  \<open>HEADERS\<close> (lines 11--24) are definitions of the same names; \<open>api_get\<close>
  (lines 27--31) sends one request and returns the decoded body.
\<close>

type_synonym path = "string list"

record request =
  req_url :: string
  req_params :: "(string \<times> json) list"
  req_headers :: "(string \<times> string) list"

record response =
  status :: nat
  resp_body :: string

datatype event = Get request | Sleep nat | Print string

record world =
  files :: "(path, string) mapping"
  trace :: "event list"

text \<open>A timezone-aware or naive \<open>datetime\<close>: the wall-clock reading (microseconds
  since the epoch) and the UTC offset (microseconds), absent when naive.\<close>

record datetime =
  dt_wall :: int
  dt_offset :: "int option"

record env =
  server :: "request \<Rightarrow> exn + response"
  dateutil_parse :: "string \<Rightarrow> exn + datetime"
  exn_str :: "exn \<Rightarrow> string"

type_synonym 'a py = "world \<Rightarrow> (exn + 'a) \<times> world"

subsection \<open>Statements\<close>

definition py_return :: "'a \<Rightarrow> 'a py" where
  "py_return x = (\<lambda>w. (Inr x, w))"

definition py_raise :: "exn \<Rightarrow> 'a py" where
  "py_raise e = (\<lambda>w. (Inl e, w))"

definition py_lift :: "exn + 'a \<Rightarrow> 'a py" where
  "py_lift r = (\<lambda>w. (r, w))"

definition py_bind :: "'a py \<Rightarrow> ('a \<Rightarrow> 'b py) \<Rightarrow> 'b py" where
  "py_bind m f = (\<lambda>w. case m w of (Inl e, w') \<Rightarrow> (Inl e, w') | (Inr x, w') \<Rightarrow> f x w')"

text \<open>\<open>try: m except C as e: h(e)\<close> for the exceptions \<open>C\<close> catches.\<close>

definition py_try :: "'a py \<Rightarrow> (exn \<Rightarrow> bool) \<Rightarrow> (exn \<Rightarrow> 'a py) \<Rightarrow> 'a py" where
  "py_try m catches h = (\<lambda>w. case m w of (Inl e, w') \<Rightarrow> (if catches e then h e w' else (Inl e, w'))
                                       | (Inr x, w') \<Rightarrow> (Inr x, w'))"

text \<open>\<open>if c: m else: n\<close> for a condition on the world.\<close>

definition py_cond :: "(world \<Rightarrow> bool) \<Rightarrow> 'a py \<Rightarrow> 'a py \<Rightarrow> 'a py" where
  "py_cond c m n = (\<lambda>w. if c w then m w else n w)"

definition py_print :: "string \<Rightarrow> unit py" where
  "py_print s = (\<lambda>w. (Inr (), w\<lparr>trace := trace w @ [Print s]\<rparr>))"

subsection \<open>Module constants\<close>

definition API_BASE :: string where
  "API_BASE = ''https://onecms.thaipbs.or.th/api/news/api-v''"

text \<open>\<open>REQUEST_DELAY = 1.0\<close> seconds, in milliseconds.\<close>

definition REQUEST_DELAY_MS :: nat where
  "REQUEST_DELAY_MS = 1000"

definition VALID_CATEGORIES :: "string list" where
  "VALID_CATEGORIES =
     [''politics'', ''social'', ''foreign'', ''economy'', ''crime'',
      ''disaster'', ''region'', ''environment'', ''sport'', ''royal'',
      ''entertainment'', ''lifestyle'', ''tech'']"

definition HEADERS :: "(string \<times> string) list" where
  "HEADERS = [(''User-Agent'',
     ''Mozilla/5.0 (X11; Linux x86_64; rv:122.0) Gecko/20100101 Firefox/122.0'')]"

definition py_sleep :: "unit py" where
  "py_sleep = (\<lambda>w. (Inr (), w\<lparr>trace := trace w @ [Sleep REQUEST_DELAY_MS]\<rparr>))"

subsection \<open>The API client\<close>

text \<open>
  \<open>requests.get\<close> records the request in the trace and asks the server;
  a transport failure raises; \<open>raise_for_status\<close> raises \<open>HTTPError\<close> for the
  statuses 400--599; \<open>resp.json()\<close> decodes the body or raises.
\<close>

definition api_request :: "string \<Rightarrow> (string \<times> json) list \<Rightarrow> request" where
  "api_request endpoint params =
     \<lparr>req_url = API_BASE @ ''/'' @ endpoint, req_params = params, req_headers = HEADERS\<rparr>"

definition api_response :: "env \<Rightarrow> request \<Rightarrow> exn + json" where
  "api_response E req =
     (case server E req of
        Inl e \<Rightarrow> Inl e
      | Inr r \<Rightarrow>
          if 400 \<le> status r \<and> status r < 600 then Inl (HTTPError (status r))
          else (case json_loads (resp_body r) of
                  None \<Rightarrow> Inl JSONDecodeError
                | Some j \<Rightarrow> Inr j))"

definition api_get :: "env \<Rightarrow> string \<Rightarrow> (string \<times> json) list \<Rightarrow> json py" where
  "api_get E endpoint params =
     (\<lambda>w. let req = api_request endpoint params
          in (api_response E req, w\<lparr>trace := trace w @ [Get req]\<rparr>))"

subsection \<open>Paths and files\<close>

text \<open>
  \<open>pathlib\<close>: a path is the list of its parts; an absolute path starts with the
  part \<open>/\<close>.  \<open>p / s\<close> splits \<open>s\<close> at slashes, drops empty and \<open>.\<close> parts,
  and restarts from the root when \<open>s\<close> is absolute.  \<open>str(p)\<close> joins the parts.
\<close>

fun split_slash_acc :: "string \<Rightarrow> string \<Rightarrow> string list" where
  "split_slash_acc cur [] = [cur]"
| "split_slash_acc cur (c # s) =
     (if c = CHR ''/'' then cur # split_slash_acc [] s else split_slash_acc (cur @ [c]) s)"

definition path_parts :: "string \<Rightarrow> path" where
  "path_parts s =
     (let ps = filter (\<lambda>c. c \<noteq> [] \<and> c \<noteq> ''.'') (split_slash_acc [] s) in
      if s \<noteq> [] \<and> hd s = CHR ''/'' then ''/'' # ps else ps)"

definition path_div :: "path \<Rightarrow> string \<Rightarrow> path" where
  "path_div p s = (if s \<noteq> [] \<and> hd s = CHR ''/'' then path_parts s else p @ path_parts s)"

definition path_str :: "path \<Rightarrow> string" where
  "path_str p =
     (if p = [] then ''.''
      else if hd p = ''/'' then ''/'' @ py_join ''/'' (tl p)
      else py_join ''/'' p)"

definition file_of :: "world \<Rightarrow> path \<Rightarrow> string option" where
  "file_of w p = Mapping.lookup (files w) p"

definition path_exists :: "path \<Rightarrow> world \<Rightarrow> bool" where
  "path_exists p w \<longleftrightarrow> file_of w p \<noteq> None"

definition fs_unlink :: "path \<Rightarrow> unit py" where
  "fs_unlink p = (\<lambda>w. (Inr (), w\<lparr>files := Mapping.delete p (files w)\<rparr>))"

text \<open>\<open>open(p, "r")\<close> and reading the whole text.\<close>

definition fs_read :: "path \<Rightarrow> string py" where
  "fs_read p = (\<lambda>w. (case file_of w p of None \<Rightarrow> Inl FileNotFoundError | Some t \<Rightarrow> Inr t, w))"

text \<open>\<open>open(p, "a")\<close> creates a missing file; a write appends to it.\<close>

definition fs_open_append :: "path \<Rightarrow> unit py" where
  "fs_open_append p =
     (\<lambda>w. (Inr (), if path_exists p w then w else w\<lparr>files := Mapping.update p [] (files w)\<rparr>))"

definition fs_append :: "path \<Rightarrow> string \<Rightarrow> unit py" where
  "fs_append p s =
     (\<lambda>w. (Inr (), w\<lparr>files := Mapping.update p (case file_of w p of None \<Rightarrow> s | Some t \<Rightarrow> t @ s) (files w)\<rparr>))"

text \<open>\<open>open(p, "w")\<close> truncates; the whole text is then written.\<close>

definition fs_write :: "path \<Rightarrow> string \<Rightarrow> unit py" where
  "fs_write p s = (\<lambda>w. (Inr (), w\<lparr>files := Mapping.update p s (files w)\<rparr>))"

definition py_endswith :: "string \<Rightarrow> string \<Rightarrow> bool" where
  "py_endswith s suf \<longleftrightarrow> length suf \<le> length s \<and> drop (length s - length suf) s = suf"

text \<open>\<open>dir.glob("*.json")\<close>: the files directly in \<open>dir\<close> whose name ends in
  \<open>.json\<close> (pathlib's wildcard also matches names starting with a dot).\<close>

definition glob_json :: "path \<Rightarrow> world \<Rightarrow> path set" where
  "glob_json d w =
     Set.filter (\<lambda>p. length p = Suc (length d) \<and> take (length d) p = d \<and> py_endswith (last p) ''.json'')
       (Mapping.keys (files w))"

text \<open>The rescrape loop of \<open>cmd_content\<close> (lines 139--142): unlink every match
  and count them.\<close>

definition fs_unlink_json :: "path \<Rightarrow> nat py" where
  "fs_unlink_json d =
     (\<lambda>w. let ps = glob_json d w in
          (Inr (card ps), w\<lparr>files := Mapping.filter (\<lambda>p _. p \<notin> ps) (files w)\<rparr>))"

text \<open>The requests among a list of events, in order.\<close>

definition gets :: "event list \<Rightarrow> request list" where
  "gets evs = [r. Get r \<leftarrow> evs]"

subsection \<open>Running statements\<close>

lemma py_bind_apply [run_simps]:
  "py_bind m f w = (case m w of (Inl e, w') \<Rightarrow> (Inl e, w') | (Inr x, w') \<Rightarrow> f x w')"
  by (simp add: py_bind_def)

lemma py_try_apply [run_simps]:
  "py_try m catches h w =
     (case m w of (Inl e, w') \<Rightarrow> (if catches e then h e w' else (Inl e, w')) | (Inr x, w') \<Rightarrow> (Inr x, w'))"
  by (simp add: py_try_def)

lemma py_prims_apply [run_simps]:
  "py_cond c m n w = (if c w then m w else n w)"
  "py_return x w = (Inr x, w)"
  "py_raise e w = (Inl e, w)"
  "py_lift r w = (r, w)"
  "py_print s w = (Inr (), w\<lparr>trace := trace w @ [Print s]\<rparr>)"
  "py_sleep w = (Inr (), w\<lparr>trace := trace w @ [Sleep REQUEST_DELAY_MS]\<rparr>)"
  "fs_unlink p w = (Inr (), w\<lparr>files := Mapping.delete p (files w)\<rparr>)"
  "fs_write p s w = (Inr (), w\<lparr>files := Mapping.update p s (files w)\<rparr>)"
  "fs_read p w = (case file_of w p of None \<Rightarrow> Inl FileNotFoundError | Some t \<Rightarrow> Inr t, w)"
  "fs_append p s w =
     (Inr (), w\<lparr>files := Mapping.update p (case file_of w p of None \<Rightarrow> s | Some t \<Rightarrow> t @ s) (files w)\<rparr>)"
  "fs_open_append p w =
     (Inr (), if path_exists p w then w else w\<lparr>files := Mapping.update p [] (files w)\<rparr>)"
  by (simp_all add: py_cond_def py_return_def py_raise_def py_lift_def py_print_def py_sleep_def
      fs_unlink_def fs_write_def fs_read_def fs_append_def fs_open_append_def)

lemma file_of_simps [simp]:
  "file_of (w\<lparr>trace := t\<rparr>) p = file_of w p"
  "file_of (w\<lparr>files := Mapping.update q s (files w)\<rparr>) p = (if p = q then Some s else file_of w p)"
  "file_of (w\<lparr>files := Mapping.delete q (files w)\<rparr>) p = (if p = q then None else file_of w p)"
  by (auto simp: file_of_def lookup_update')

lemma path_exists_file_of: "path_exists p w \<longleftrightarrow> file_of w p \<noteq> None"
  by (simp add: path_exists_def)

lemma api_get_apply [run_simps]:
  "api_get E ep ps w = (api_response E (api_request ep ps), w\<lparr>trace := trace w @ [Get (api_request ep ps)]\<rparr>)"
  by (simp add: api_get_def Let_def)

lemma api_get_effect:
  "api_get E ep ps w = (r, w') \<Longrightarrow>
     files w' = files w \<and> trace w' = trace w @ [Get (api_request ep ps)]"
  by (auto simp: api_get_def Let_def)

lemma api_response_wf: "api_response E req = Inr j \<Longrightarrow> json_wf j"
  by (auto simp: api_response_def json_loads_wf split: sum.splits if_splits option.splits)

lemma api_get_wf: "api_get E ep ps w = (Inr j, w') \<Longrightarrow> json_wf j"
  by (auto simp: api_get_def Let_def api_response_wf)

text \<open>Stepping through a sequence: either the first statement raised, or it
  returned and the rest ran from its world.\<close>

lemma py_bind_elim:
  assumes "py_bind m g w = (r, w')"
  obtains (raised) e where "m w = (Inl e, w')" "r = Inl e"
    | (returned) x w1 where "m w = (Inr x, w1)" "g x w1 = (r, w')"
  using assms by (cases "m w" rule: prod.exhaust, rename_tac a b, case_tac a) (auto simp: py_bind_def)

lemma step_prims [step_dests]:
  "py_print s w = (r, w1) \<Longrightarrow> r = Inr () \<and> w1 = w\<lparr>trace := trace w @ [Print s]\<rparr>"
  "py_lift x w = (rl, w1) \<Longrightarrow> rl = x \<and> w1 = w"
  "py_return y w = (rr, w1) \<Longrightarrow> rr = Inr y \<and> w1 = w"
  "fs_open_append p w = (ro, w1) \<Longrightarrow>
     ro = Inr () \<and> file_of w1 p = Some (case file_of w p of None \<Rightarrow> [] | Some t \<Rightarrow> t)
     \<and> (\<forall>g. g \<noteq> p \<longrightarrow> file_of w1 g = file_of w g)"
  by (auto simp: run_simps path_exists_file_of split: option.splits if_splits)

lemma step_api_get [step_dests]:
  "api_get E ep ps w = (ra, w1) \<Longrightarrow> file_of w1 = file_of w \<and> (\<forall>j. ra = Inr j \<longrightarrow> json_wf j)"
  using api_get_effect [of E ep ps w ra w1] api_get_wf [of E ep ps w _ w1]
  by (auto simp: file_of_def [abs_def])

lemma gets_simps [simp]:
  "gets [] = []" "gets (Get r # evs) = r # gets evs" "gets (Sleep n # evs) = gets evs"
  "gets (Print m # evs) = gets evs" "gets (xs @ ys) = gets xs @ gets ys"
  by (simp_all add: gets_def)

end
