(* ===== verification/Ledger.thy ===== *)
theory Ledger
  imports World
begin

text \<open>
  The ledger \<open>data/<category>/list.jsonl\<close>: one article stub per line, written by
  \<open>cmd_list\<close> and read back by \<open>load_existing_ids\<close> (lines 34--48) and by the stub
  loop of \<open>cmd_content\<close> (lines 146--155).  \<open>ledger_ids\<close> is the abstraction
  used by the properties: the ids the loader collects, in file order and with
  repetitions, or the exception the loader raises.  A ledger is well formed
  (\<open>ledger_ok\<close>) when it is empty or ends with a newline, it loads without an
  exception, and its ids are distinct; that is the dedup invariant of the spec.
\<close>

definition list_file :: "string \<Rightarrow> path" where
  "list_file category = path_div (path_div [''data''] category) ''list.jsonl''"

text \<open>One stripped, non-empty line: \<open>int(json.loads(line)["id"])\<close>, with the
  \<open>except (json.JSONDecodeError, KeyError, ValueError)\<close> of line 46 turning those
  exceptions into \<open>None\<close> (skip the line).  \<open>TypeError\<close> is not caught.\<close>

definition ledger_line_id :: "string \<Rightarrow> exn + int option" where
  "ledger_line_id l =
     (case json_loads l of
        None \<Rightarrow> Inr None
      | Some article \<Rightarrow>
          (case sbind (py_getitem article ''id'') py_int of
             Inr n \<Rightarrow> Inr (Some n)
           | Inl e \<Rightarrow> if e = KeyError \<or> py_is_ValueError e then Inr None else Inl e))"

fun load_ids_lines :: "int set \<Rightarrow> string list \<Rightarrow> exn + int set" where
  "load_ids_lines ids [] = Inr ids"
| "load_ids_lines ids (l # ls) =
     (let t = py_strip l in
      if t = [] then load_ids_lines ids ls
      else (case ledger_line_id t of
              Inl e \<Rightarrow> Inl e
            | Inr None \<Rightarrow> load_ids_lines ids ls
            | Inr (Some n) \<Rightarrow> load_ids_lines (insert n ids) ls))"

definition load_existing_ids :: "path \<Rightarrow> int set py" where
  "load_existing_ids p =
     (\<lambda>w. case file_of w p of
            None \<Rightarrow> (Inr {}, w)
          | Some body \<Rightarrow> (load_ids_lines {} (py_file_lines body), w))"

text \<open>The stub loop of \<open>cmd_content\<close>: every stripped non-empty line that parses,
  whatever it is; only \<open>json.JSONDecodeError\<close> is caught there.\<close>

fun load_stubs_lines :: "string list \<Rightarrow> json list" where
  "load_stubs_lines [] = []"
| "load_stubs_lines (l # ls) =
     (let t = py_strip l in
      if t = [] then load_stubs_lines ls
      else (case json_loads t of
              None \<Rightarrow> load_stubs_lines ls
            | Some j \<Rightarrow> j # load_stubs_lines ls))"

definition load_stubs :: "string \<Rightarrow> json list" where
  "load_stubs body = load_stubs_lines (py_file_lines body)"

subsection \<open>The abstraction: ids in file order\<close>

fun ledger_ids_lines :: "string list \<Rightarrow> exn + int list" where
  "ledger_ids_lines [] = Inr []"
| "ledger_ids_lines (l # ls) =
     (let t = py_strip l in
      if t = [] then ledger_ids_lines ls
      else (case ledger_line_id t of
              Inl e \<Rightarrow> Inl e
            | Inr None \<Rightarrow> ledger_ids_lines ls
            | Inr (Some n) \<Rightarrow>
                (case ledger_ids_lines ls of Inl e \<Rightarrow> Inl e | Inr xs \<Rightarrow> Inr (n # xs))))"

definition ledger_ids :: "string \<Rightarrow> exn + int list" where
  "ledger_ids body = ledger_ids_lines (py_file_lines body)"

definition ends_nl :: "string \<Rightarrow> bool" where
  "ends_nl body \<longleftrightarrow> body = [] \<or> last body = LF"

definition ledger_ok :: "string \<Rightarrow> bool" where
  "ledger_ok body \<longleftrightarrow> ends_nl body \<and> (case ledger_ids body of Inl _ \<Rightarrow> False | Inr xs \<Rightarrow> distinct xs)"

text \<open>The ledger at a path, if present, is well formed.\<close>

definition ledger_ok_at :: "path \<Rightarrow> world \<Rightarrow> bool" where
  "ledger_ok_at p w \<longleftrightarrow> (case file_of w p of None \<Rightarrow> True | Some body \<Rightarrow> ledger_ok body)"

text \<open>The id \<open>cmd_list\<close> computes for an article (line 94).\<close>

definition article_id :: "json \<Rightarrow> exn + int" where
  "article_id a = sbind (py_getitem a ''id'') py_int"

text \<open>The lines \<open>f.write(json.dumps(article, ensure_ascii=False) + "\\n")\<close> (line 108)
  writes for a sequence of articles.\<close>

definition records :: "json list \<Rightarrow> string" where
  "records bs = concat (map (\<lambda>a. json_dumps a @ [LF]) bs)"

text \<open>The type of a ledger's stubs as \<open>cmd_content\<close> reads them: every stub has an
  id that \<open>int()\<close> accepts, as every stub \<open>cmd_list\<close> writes has (line 94).\<close>

definition stubs_typed :: "string \<Rightarrow> bool" where
  "stubs_typed body = list_all (\<lambda>s. case article_id s of Inr _ \<Rightarrow> True | Inl _ \<Rightarrow> False) (load_stubs body)"

subsection \<open>Loading the ids\<close>

lemma load_ids_lines_eq:
  "load_ids_lines ids ls =
     (case ledger_ids_lines ls of Inl e \<Rightarrow> Inl e | Inr xs \<Rightarrow> Inr (ids \<union> set xs))"
  by (induction ids ls rule: load_ids_lines.induct)
     (auto simp: Let_def split: sum.splits option.splits)

lemma load_existing_ids_eq:
  "load_existing_ids p w =
     ((case file_of w p of
         None \<Rightarrow> Inr {}
       | Some body \<Rightarrow> (case ledger_ids body of Inl e \<Rightarrow> Inl e | Inr xs \<Rightarrow> Inr (set xs))), w)"
  by (simp add: load_existing_ids_def ledger_ids_def load_ids_lines_eq split: option.splits sum.splits)

lemma ledger_ids_lines_append:
  "ledger_ids_lines (xs @ ys) =
     (case ledger_ids_lines xs of
        Inl e \<Rightarrow> Inl e
      | Inr a \<Rightarrow> (case ledger_ids_lines ys of Inl e \<Rightarrow> Inl e | Inr b \<Rightarrow> Inr (a @ b)))"
  by (induction xs rule: ledger_ids_lines.induct)
     (auto simp: Let_def split: sum.splits option.splits)

lemma ledger_ids_Nil [simp]: "ledger_ids [] = Inr []"
  by (simp add: ledger_ids_def)

lemma ledger_ok_Nil [simp]: "ledger_ok []"
  by (simp add: ledger_ok_def ends_nl_def)

subsection \<open>Appending a record\<close>

text \<open>The line \<open>cmd_list\<close> writes for a dict-shaped article reads back as that
  article, and as its id.\<close>

lemma record_line_props:
  assumes "json_wf a"
  shows "LF \<notin> set (json_dumps a)" "CR \<notin> set (json_dumps a)"
    and "py_strip (json_dumps a @ [LF]) = json_dumps a"
    and "json_dumps a \<noteq> []"
    and "json_loads (json_dumps a) = Some a"
  using json_dumps_no_nl [of a] json_dumps_strip [of a] json_dumps_first [of a]
    json_loads_json_dumps [OF assms] by auto

lemma py_file_lines_append_record:
  assumes "ends_nl body" "json_wf a"
  shows "py_file_lines (body @ json_dumps a @ [LF]) = py_file_lines body @ [json_dumps a @ [LF]]"
  using assms record_line_props [OF assms(2)]
  by (intro py_file_lines_append_line) (auto simp: ends_nl_def)

lemma ledger_line_id_record:
  assumes "json_wf a" "article_id a = Inr n"
  shows "ledger_line_id (json_dumps a) = Inr (Some n)"
proof -
  obtain v where "py_getitem a ''id'' = Inr v" "py_int v = Inr n"
    using assms(2) by (auto simp: article_id_def)
  then show ?thesis
    using record_line_props [OF assms(1)] by (simp add: ledger_line_id_def)
qed

lemma ledger_ids_append_record:
  assumes "ends_nl body" "json_wf a" "article_id a = Inr n"
  shows "ledger_ids (body @ json_dumps a @ [LF]) =
           (case ledger_ids body of Inl e \<Rightarrow> Inl e | Inr xs \<Rightarrow> Inr (xs @ [n]))"
proof -
  have "ledger_ids_lines [json_dumps a @ [LF]] = Inr [n]"
    using ledger_line_id_record [OF assms(2,3)] record_line_props [OF assms(2)]
    by (simp add: Let_def)
  then show ?thesis
    using py_file_lines_append_record [OF assms(1,2)]
    by (simp add: ledger_ids_def ledger_ids_lines_append split: sum.splits)
qed

lemma ends_nl_append_record: "ends_nl (body @ json_dumps a @ [LF])"
  by (simp add: ends_nl_def)

lemma ledger_ok_append_record:
  assumes "ledger_ok body" "json_wf a" "article_id a = Inr n" "ledger_ids body = Inr xs" "n \<notin> set xs"
  shows "ledger_ok (body @ json_dumps a @ [LF])"
    and "ledger_ids (body @ json_dumps a @ [LF]) = Inr (xs @ [n])"
proof -
  have "ends_nl body" using assms(1) by (simp add: ledger_ok_def)
  then have "ledger_ids (body @ json_dumps a @ [LF]) = Inr (xs @ [n])"
    using assms(2-4) by (simp add: ledger_ids_append_record)
  then show "ledger_ids (body @ json_dumps a @ [LF]) = Inr (xs @ [n])"
    and "ledger_ok (body @ json_dumps a @ [LF])"
    using assms(1,4,5) by (auto simp: ledger_ok_def ends_nl_append_record)
qed

lemma records_simps [simp]:
  "records [] = []" "records (a # bs) = json_dumps a @ [LF] @ records bs"
  by (simp_all add: records_def)

text \<open>Appending the records of fresh, distinct ids keeps the ledger well formed
  and extends its ids by theirs.\<close>

lemma ledger_ok_append_records:
  assumes "ledger_ok body" "ledger_ids body = Inr xs" "list_all json_wf bs"
    and "list_all2 (\<lambda>a n. article_id a = Inr n) bs ns" "distinct ns" "set ns \<inter> set xs = {}"
  shows "ledger_ok (body @ records bs) \<and> ledger_ids (body @ records bs) = Inr (xs @ ns)"
  using assms
proof (induction bs arbitrary: body xs ns)
  case Nil
  then show ?case by simp
next
  case (Cons a bs)
  obtain n ns' where ns: "ns = n # ns'" "article_id a = Inr n"
    and rest: "list_all2 (\<lambda>a n. article_id a = Inr n) bs ns'"
    using Cons.prems(4) by (cases ns) auto
  have "n \<notin> set xs" using Cons.prems(6) ns by auto
  then have 1: "ledger_ok (body @ json_dumps a @ [LF])"
    and 2: "ledger_ids (body @ json_dumps a @ [LF]) = Inr (xs @ [n])"
    using ledger_ok_append_record [OF Cons.prems(1) _ ns(2) Cons.prems(2)] Cons.prems(3) by auto
  have "set ns' \<inter> set (xs @ [n]) = {}" "distinct ns'"
    using Cons.prems(5,6) ns by auto
  then show ?case
    using Cons.IH [OF 1 2 _ rest] Cons.prems(3) ns by simp
qed

lemma load_stubs_append_record:
  assumes "ends_nl body" "json_wf a"
  shows "load_stubs (body @ json_dumps a @ [LF]) = load_stubs body @ [a]"
proof -
  have "load_stubs_lines (xs @ ys) = load_stubs_lines xs @ load_stubs_lines ys" for xs ys
    by (induction xs rule: load_stubs_lines.induct) (auto simp: Let_def split: option.splits)
  then show ?thesis
    using py_file_lines_append_record [OF assms] record_line_props [OF assms(2)]
    by (simp add: load_stubs_def Let_def)
qed

lemma load_existing_ids_step [step_dests]:
  "load_existing_ids p w = (r, w1) \<Longrightarrow>
     w1 = w \<and> (\<forall>S. r = Inr S \<longrightarrow>
       (\<exists>xs. ledger_ids (case file_of w p of None \<Rightarrow> [] | Some t \<Rightarrow> t) = Inr xs \<and> S = set xs))"
  by (auto simp: load_existing_ids_eq split: option.splits sum.splits)

lemma load_stubs_records:
  "ends_nl body \<Longrightarrow> list_all json_wf bs \<Longrightarrow> load_stubs (body @ records bs) = load_stubs body @ bs"
proof (induction bs arbitrary: body)
  case Nil
  then show ?case by simp
next
  case (Cons a bs)
  have "load_stubs ((body @ json_dumps a @ [LF]) @ records bs) = load_stubs (body @ json_dumps a @ [LF]) @ bs"
    using Cons.IH [OF ends_nl_append_record] Cons.prems(2) by simp
  then show ?case using load_stubs_append_record [OF Cons.prems(1)] Cons.prems(2) by simp
qed

text \<open>C6. Round trip between the two commands: appending the records of
  well-formed articles to a newline-terminated ledger (what \<open>cmd_list\<close> writes,
  line 108) extends the stubs \<open>cmd_content\<close> loads from it (lines 146--155) by
  exactly those articles, in order.\<close>

theorem load_stubs_append_records:
  "ends_nl body \<Longrightarrow> list_all json_wf bs \<Longrightarrow> load_stubs (body @ records bs) = load_stubs body @ bs"
  by (rule load_stubs_records)

lemma stubs_typed_records:
  assumes "ends_nl body" "stubs_typed body" "list_all json_wf bs"
    and "list_all2 (\<lambda>a n. article_id a = Inr n) bs ns"
  shows "stubs_typed (body @ records bs)"
proof -
  have "list_all (\<lambda>s. case article_id s of Inr _ \<Rightarrow> True | Inl _ \<Rightarrow> False) bs"
    using assms(4) by (induction rule: list_all2_induct) auto
  then show ?thesis
    using assms(2) load_stubs_records [OF assms(1,3)] by (simp add: stubs_typed_def)
qed

lemma typed_stub_id:
  "(case article_id s of Inr _ \<Rightarrow> True | Inl _ \<Rightarrow> False) \<Longrightarrow> \<exists>aid. py_getitem s ''id'' = Inr aid"
  by (cases "py_getitem s ''id''") (auto simp: article_id_def)

lemma stubs_typed_ids:
  "stubs_typed body \<Longrightarrow> list_all (\<lambda>s. \<exists>aid. py_getitem s ''id'' = Inr aid) (load_stubs body)"
  by (auto simp: stubs_typed_def list_all_iff intro: typed_stub_id)

end
