(* ===== verification/List_Cmd.thy ===== *)
theory List_Cmd
  imports Ledger "HOL-Library.Sublist"
begin

text \<open>
  The \<open>list\<close> command, \<open>cmd_list\<close> of \<open>src/scrape.py\<close> (lines 51--124):
  \<open>parse_date\<close>, the cutoff filter of lines 96--102, the loop over the items of
  one page (lines 93--115, \<open>list_items\<close>), the loop over the pages (lines
  86--122, \<open>list_pages\<close>) and the command (\<open>cmd_list\<close>).  The loop locals
  \<open>existing_ids\<close> and \<open>new_count\<close> are the record \<open>lvars\<close>; \<open>break\<close> out of the
  item loop is the flag returned with them.  The page loop runs while
  \<open>page \<le> total_page\<close>, which is the measure of its termination proof.  The
  model returns the final \<open>new_count\<close>, which the code prints.
\<close>

record list_args =
  la_category :: string
  la_pages :: "int option"
  la_articles :: "int option"
  la_before :: "string option"
  la_rescrape :: bool

record lvars =
  lv_ids :: "int set"
  lv_count :: nat

text \<open>\<open>parse_date\<close> (lines 51--56): a naive result is taken as UTC.\<close>

definition parse_date :: "env \<Rightarrow> string \<Rightarrow> exn + datetime" where
  "parse_date E s =
     sbind (dateutil_parse E s)
       (\<lambda>dt. Inr (if dt_offset dt = None then dt\<lparr>dt_offset := Some 0\<rparr> else dt))"

text \<open>Aware datetimes compare as instants.\<close>

definition dt_utc :: "datetime \<Rightarrow> int" where
  "dt_utc d = dt_wall d - (case dt_offset d of Some off \<Rightarrow> off | None \<Rightarrow> 0)"

definition dt_ge :: "datetime \<Rightarrow> datetime \<Rightarrow> bool" where
  "dt_ge a b \<longleftrightarrow> dt_utc b \<le> dt_utc a"

text \<open>Lines 96--102: \<open>True\<close> when the article is skipped for the cutoff.  A
  truthy \<open>publishTime\<close> that is not a string makes \<open>dateutil\<close> raise
  \<open>TypeError\<close>.\<close>

definition cutoff_skip :: "env \<Rightarrow> datetime option \<Rightarrow> json \<Rightarrow> exn + bool" where
  "cutoff_skip E before_dt article =
     (case before_dt of
        None \<Rightarrow> Inr False
      | Some bdt \<Rightarrow>
          sbind (py_dict_get article ''publishTime'' (JStr [])) (\<lambda>pub_str.
            if \<not> py_truthy pub_str then Inr False
            else (case pub_str of
                    JStr s \<Rightarrow> sbind (parse_date E s) (\<lambda>pub_dt. Inr (dt_ge pub_dt bdt))
                  | _ \<Rightarrow> Inl TypeError)))"

text \<open>\<open>limit is not None and n >= limit\<close>.\<close>

definition lim_hit :: "int option \<Rightarrow> int \<Rightarrow> bool" where
  "lim_hit lim n \<longleftrightarrow> (case lim of None \<Rightarrow> False | Some l \<Rightarrow> l \<le> n)"

fun list_items :: "env \<Rightarrow> path \<Rightarrow> datetime option \<Rightarrow> int option \<Rightarrow> json list \<Rightarrow> lvars \<Rightarrow> (lvars \<times> bool) py" where
  "list_items E f bdt alim [] v = py_return (v, False)"
| "list_items E f bdt alim (article # arts) v =
     py_bind (py_lift (article_id article)) (\<lambda>aid.
     py_bind (py_lift (cutoff_skip E bdt article)) (\<lambda>skip.
       if skip then list_items E f bdt alim arts v
       else if aid \<in> lv_ids v then list_items E f bdt alim arts v
       else
         py_bind (fs_append f (json_dumps article @ [LF])) (\<lambda>_.
           let v' = \<lparr>lv_ids = insert aid (lv_ids v), lv_count = Suc (lv_count v)\<rparr> in
           if lim_hit alim (int (lv_count v'))
           then py_bind (py_print (''Reached article limit ('' @ py_str_int (the alim) @ ''). Stopping.''))
                  (\<lambda>_. py_return (v', True))
           else list_items E f bdt alim arts v')))"

text \<open>Lines 87--91: page 1 reuses the response already fetched; every later
  page sleeps \<open>REQUEST_DELAY\<close> first and fetches its page.\<close>

definition fetch_page :: "env \<Rightarrow> string \<Rightarrow> json \<Rightarrow> int \<Rightarrow> json py" where
  "fetch_page E category first_data page =
     (if page = 1 then py_return first_data
      else py_bind py_sleep (\<lambda>_.
             api_get E ''section-loadmore'' [(''section'', JStr category), (''page'', JInt page)]))"

function list_pages ::
  "env \<Rightarrow> string \<Rightarrow> path \<Rightarrow> datetime option \<Rightarrow> int option \<Rightarrow> int option \<Rightarrow> json \<Rightarrow> int \<Rightarrow> int
   \<Rightarrow> lvars \<Rightarrow> lvars py" where
  "list_pages E category f bdt plim alim first_data total_page page v =
     (if total_page < page then py_return v
      else
        py_bind (fetch_page E category first_data page) (\<lambda>data.
        py_bind (py_lift (sbind (py_getitem data ''items'') py_iter)) (\<lambda>arts.
        py_bind (list_items E f bdt alim arts v) (\<lambda>(v', done).
          if done then py_return v'
          else if lim_hit plim page
          then py_bind (py_print (''Reached page limit ('' @ py_str_int (the plim) @ ''). Stopping.''))
                 (\<lambda>_. py_return v')
          else list_pages E category f bdt plim alim first_data total_page (page + 1) v'))))"
  by pat_completeness auto
termination
  by (relation "measure (\<lambda>(E, category, f, bdt, plim, alim, first_data, total_page, page, v).
                  nat (total_page + 1 - page))") auto

text \<open>Line 70: \<open>parse_date(args.before) if args.before else None\<close>.\<close>

definition before_of :: "env \<Rightarrow> string option \<Rightarrow> exn + datetime option" where
  "before_of E before =
     (case before of
        None \<Rightarrow> Inr None
      | Some s \<Rightarrow> if s = [] then Inr None else sbind (parse_date E s) (\<lambda>d. Inr (Some d)))"

text \<open>Lines 60--77, up to the \<open>with\<close> block: the rescrape deletion, the ids
  already in the ledger, the cutoff, page 1 and its totals.\<close>

definition list_setup :: "env \<Rightarrow> list_args \<Rightarrow> (int set \<times> datetime option \<times> json \<times> json) py" where
  "list_setup E args =
     (let category = la_category args; lf = list_file category in
      py_bind (py_cond (\<lambda>w. la_rescrape args \<and> path_exists lf w)
                 (py_bind (fs_unlink lf) (\<lambda>_. py_print (''Deleted existing '' @ path_str lf)))
                 (py_return ())) (\<lambda>_.
      py_bind (load_existing_ids lf) (\<lambda>existing_ids.
      py_bind (py_lift (before_of E (la_before args))) (\<lambda>before_dt.
      py_bind (py_print (''Fetching page 1 for category '' @ [SQ] @ category @ [SQ] @ ''...'')) (\<lambda>_.
      py_bind (api_get E ''section-loadmore'' [(''section'', JStr category), (''page'', JInt 1)]) (\<lambda>first_data.
      py_bind (py_lift (py_getitem first_data ''totalPage'')) (\<lambda>total_page.
      py_bind (py_lift (py_dict_get first_data ''total'' (JInt 0))) (\<lambda>total_articles.
      py_bind (py_print (''Category '' @ [SQ] @ category @ [SQ] @ '': '' @ py_str total_articles
                         @ '' articles across '' @ py_str total_page @ '' pages'')) (\<lambda>_.
      py_return (existing_ids, before_dt, first_data, total_page))))))))))"

text \<open>\<open>cmd_list\<close> (lines 59--124): the setup, then the \<open>with\<close> block, whose
  \<open>range(1, total_page + 1)\<close> raises \<open>TypeError\<close> when \<open>totalPage\<close> is not a
  number, after the ledger has been opened.\<close>

definition cmd_list :: "env \<Rightarrow> list_args \<Rightarrow> nat py" where
  "cmd_list E args =
     (let category = la_category args; lf = list_file category in
      py_bind (list_setup E args) (\<lambda>(existing_ids, before_dt, first_data, total_page).
      py_bind (fs_open_append lf) (\<lambda>_.
      py_bind (py_lift (py_as_int total_page)) (\<lambda>tp.
      py_bind (list_pages E category lf before_dt (la_pages args) (la_articles args) first_data tp 1
                 \<lparr>lv_ids = existing_ids, lv_count = 0\<rparr>) (\<lambda>v.
      py_bind (py_print (''Done. Collected '' @ py_str_int (int (lv_count v)) @ '' new articles for ''
                         @ [SQ] @ category @ [SQ] @ ''.'')) (\<lambda>_.
      py_return (lv_count v)))))))"

declare list_pages.simps [simp del]

text \<open>The request for one page of the listing (lines 74 and 91).\<close>

definition page_req :: "string \<Rightarrow> int \<Rightarrow> request" where
  "page_req category p = api_request ''section-loadmore'' [(''section'', JStr category), (''page'', JInt p)]"

text \<open>The ledger the page loop starts from: the existing one, or an empty file
  when it is missing or was deleted by \<open>--rescrape\<close>.\<close>

definition start_ledger :: "list_args \<Rightarrow> world \<Rightarrow> string" where
  "start_ledger args w =
     (if la_rescrape args then []
      else case file_of w (list_file (la_category args)) of None \<Rightarrow> [] | Some L \<Rightarrow> L)"

subsection \<open>The item loop\<close>

text \<open>What one run of the item loop does, on every outcome: it appends to the
  ledger the records of a subsequence of the page's articles, each of which
  passed the cutoff and has a fresh id, the ids distinct; no other file
  changes; it only prints; and when it returns, the loop variables have
  gained exactly those ids and that many counts.\<close>

lemma list_items_appends:
  "list_items E f bdt alim arts v w = (r, w') \<Longrightarrow> file_of w f = Some L \<Longrightarrow>
   \<exists>bs ns. subseq bs arts \<and> list_all2 (\<lambda>a n. article_id a = Inr n) bs ns
     \<and> distinct ns \<and> set ns \<inter> lv_ids v = {}
     \<and> (\<forall>a\<in>set bs. cutoff_skip E bdt a = Inr False)
     \<and> (\<forall>g. file_of w' g = (if g = f then Some (L @ records bs) else file_of w g))
     \<and> (\<exists>ps. trace w' = trace w @ map Print ps)
     \<and> (\<forall>v' d. r = Inr (v', d) \<longrightarrow> lv_ids v' = lv_ids v \<union> set ns \<and> lv_count v' = lv_count v + length ns)"
proof (induction arts arbitrary: v w r w' L)
  case Nil
  then show ?case
    by (auto simp: run_simps intro!: exI [of _ "[]"])
next
  case (Cons a arts)
  note stop = Cons.prems(2) exI [of _ "[]"]
  show ?case
  proof (cases "article_id a")
    case (Inl e)
    then show ?thesis using Cons.prems by (auto simp: run_simps intro!: stop)
  next
    case (Inr aid)
    show ?thesis
    proof (cases "cutoff_skip E bdt a")
      case (Inl e)
      then show ?thesis using Cons.prems \<open>article_id a = Inr aid\<close> by (auto simp: run_simps intro!: stop)
    next
      case (Inr skip)
      note ids = \<open>article_id a = Inr aid\<close> Inr
      show ?thesis
      proof (cases "skip \<or> aid \<in> lv_ids v")
        case True
        then have "list_items E f bdt alim arts v w = (r, w')"
          using Cons.prems(1) ids by (cases skip) (auto simp: run_simps)
        from Cons.IH [OF this Cons.prems(2)] show ?thesis
          by (metis list_emb_Cons)
      next
        case False
        define v' where "v' = \<lparr>lv_ids = insert aid (lv_ids v), lv_count = Suc (lv_count v)\<rparr>"
        define w1 where "w1 = w\<lparr>files := Mapping.update f (L @ json_dumps a @ [LF]) (files w)\<rparr>"
        have run: "list_items E f bdt alim (a # arts) v w =
          (if lim_hit alim (int (lv_count v'))
           then (Inr (v', True), w1\<lparr>trace := trace w1 @
                   [Print (''Reached article limit ('' @ py_str_int (the alim) @ ''). Stopping.'')]\<rparr>)
           else list_items E f bdt alim arts v' w1)"
          using False ids Cons.prems(2) by (simp add: run_simps v'_def w1_def Let_def)
        have f1: "file_of w1 g = (if g = f then Some (L @ json_dumps a @ [LF]) else file_of w g)" for g
          by (simp add: w1_def)
        have skip: "cutoff_skip E bdt a = Inr False" using False ids by simp
        show ?thesis
        proof (cases "lim_hit alim (int (lv_count v'))")
          case True
          then have r: "r = Inr (v', True)"
            and w': "w' = w1\<lparr>trace := trace w1 @
                   [Print (''Reached article limit ('' @ py_str_int (the alim) @ ''). Stopping.'')]\<rparr>"
            using Cons.prems(1) run by simp_all
          show ?thesis
          proof (rule exI [of _ "[a]"], rule exI [of _ "[aid]"], intro conjI)
            show "\<exists>ps. trace w' = trace w @ map Print ps"
              by (rule exI [of _ "[''Reached article limit ('' @ py_str_int (the alim) @ ''). Stopping.'']"])
                 (simp add: w' w1_def)
          qed (use r w' f1 False skip ids in \<open>auto simp: v'_def\<close>)
        next
          case lim: False
          then have "list_items E f bdt alim arts v' w1 = (r, w')" using Cons.prems(1) run by simp
          from Cons.IH [OF this f1 [of f, simplified]] obtain bs ns ps where
            ih: "subseq bs arts" "list_all2 (\<lambda>a n. article_id a = Inr n) bs ns"
              "distinct ns" "set ns \<inter> lv_ids v' = {}" "\<forall>a\<in>set bs. cutoff_skip E bdt a = Inr False"
              "\<forall>g. file_of w' g = (if g = f then Some ((L @ json_dumps a @ [LF]) @ records bs) else file_of w1 g)"
              "\<forall>v'' d. r = Inr (v'', d) \<longrightarrow> lv_ids v'' = lv_ids v' \<union> set ns \<and> lv_count v'' = lv_count v' + length ns"
              "trace w' = trace w1 @ map Print ps"
            by (elim exE conjE) (rule that)
          show ?thesis
          proof (rule exI [of _ "a # bs"], rule exI [of _ "aid # ns"], intro conjI)
            show "subseq (a # bs) (a # arts)" using ih(1) by simp
            show "list_all2 (\<lambda>a n. article_id a = Inr n) (a # bs) (aid # ns)" using ih(2) ids by simp
            show "distinct (aid # ns)" "set (aid # ns) \<inter> lv_ids v = {}"
              using ih(3,4) False by (auto simp: v'_def)
            show "\<forall>b\<in>set (a # bs). cutoff_skip E bdt b = Inr False" using ih(5) skip by simp
            show "\<forall>g. file_of w' g = (if g = f then Some (L @ records (a # bs)) else file_of w g)"
              using ih(6) f1 by simp
            show "\<exists>ps. trace w' = trace w @ map Print ps" using ih(8) by (intro exI [of _ ps]) (simp add: w1_def)
            show "\<forall>v'' d. r = Inr (v'', d) \<longrightarrow>
                    lv_ids v'' = lv_ids v \<union> set (aid # ns) \<and> lv_count v'' = lv_count v + length (aid # ns)"
            proof (intro allI impI)
              fix v'' d
              assume "r = Inr (v'', d)"
              with ih(7) have "lv_ids v'' = lv_ids v' \<union> set ns" "lv_count v'' = lv_count v' + length ns"
                by blast+
              then show "lv_ids v'' = lv_ids v \<union> set (aid # ns) \<and> lv_count v'' = lv_count v + length (aid # ns)"
                by (simp add: v'_def)
            qed
          qed
        qed
      qed
    qed
  qed
qed

subsection \<open>The page loop\<close>

lemma fetch_page_facts:
  assumes "fetch_page E category fd page w = (r, w1)"
  shows "files w1 = files w" and "json_wf fd \<Longrightarrow> r = Inr d \<Longrightarrow> json_wf d"
proof -
  have "files w1 = files w \<and> (json_wf fd \<longrightarrow> r = Inr d \<longrightarrow> json_wf d)"
  proof (cases "page = 1")
    case True
    then show ?thesis using assms by (auto simp: fetch_page_def run_simps)
  next
    case False
    obtain r2 w2 where get: "api_get E ''section-loadmore'' [(''section'', JStr category), (''page'', JInt page)]
        (w\<lparr>trace := trace w @ [Sleep REQUEST_DELAY_MS]\<rparr>) = (r2, w2)"
      by fastforce
    then have "r = r2" "w1 = w2" using assms False by (simp_all add: fetch_page_def run_simps)
    then show ?thesis using api_get_effect [OF get] api_get_wf [of E _ _ _ d w2] get by auto
  qed
  then show "files w1 = files w" "json_wf fd \<Longrightarrow> r = Inr d \<Longrightarrow> json_wf d" by simp_all
qed

lemma rescrape_step [step_dests]:
  "py_cond (\<lambda>w. b \<and> path_exists p w) (py_bind (fs_unlink p) (\<lambda>_. py_print s)) (py_return ()) w = (r, w1)
   \<Longrightarrow> r = Inr () \<and> file_of w1 p = (if b then None else file_of w p)
      \<and> (\<forall>g. g \<noteq> p \<longrightarrow> file_of w1 g = file_of w g)"
  by (auto simp: run_simps path_exists_file_of split: if_splits)

lemma subseq_list_all: "subseq xs ys \<Longrightarrow> list_all P ys \<Longrightarrow> list_all P xs"
  by (induction rule: list_emb.induct) auto

lemma file_of_files_eq: "files w1 = files w \<Longrightarrow> file_of w1 = file_of w"
  by (simp add: file_of_def fun_eq_iff)

text \<open>The page loop, on every outcome: the ledger gains the records of
  well-formed articles that passed the cutoff, with distinct ids not loaded
  before, no other file changes, and the loop variables, when it returns, have
  gained exactly those ids and that many counts.\<close>

lemma list_pages_appends:
  "list_pages E category f bdt plim alim fd tp page v w = (r, w') \<Longrightarrow> file_of w f = Some L \<Longrightarrow>
   json_wf fd \<Longrightarrow>
   \<exists>bs ns. list_all json_wf bs \<and> list_all2 (\<lambda>a n. article_id a = Inr n) bs ns
     \<and> distinct ns \<and> set ns \<inter> lv_ids v = {}
     \<and> (\<forall>a\<in>set bs. cutoff_skip E bdt a = Inr False)
     \<and> (\<forall>g. file_of w' g = (if g = f then Some (L @ records bs) else file_of w g))
     \<and> (\<forall>v'. r = Inr v' \<longrightarrow> lv_ids v' = lv_ids v \<union> set ns \<and> lv_count v' = lv_count v + length ns)"
proof (induction E category f bdt plim alim fd tp page v arbitrary: w r w' L rule: list_pages.induct)
  case (1 E category f bdt plim alim fd tp page v)
  note run = "1.prems"(1) and fL = "1.prems"(2)
  have none: "\<exists>bs ns. list_all json_wf bs \<and> list_all2 (\<lambda>a n. article_id a = Inr n) bs ns
     \<and> distinct ns \<and> set ns \<inter> lv_ids v = {}
     \<and> (\<forall>a\<in>set bs. cutoff_skip E bdt a = Inr False)
     \<and> (\<forall>g. file_of w' g = (if g = f then Some (L @ records bs) else file_of w g))
     \<and> (\<forall>v'. r = Inr v' \<longrightarrow> lv_ids v' = lv_ids v \<union> set ns \<and> lv_count v' = lv_count v + length ns)"
    if "file_of w' = file_of w" "\<forall>v'. r = Inr v' \<longrightarrow> v' = v"
    using that fL by (intro exI [of _ "[]"]) auto
  show ?case
  proof (cases "tp < page")
    case True
    then show ?thesis using run by (intro none) (auto simp: list_pages.simps run_simps)
  next
    case notdone: False
    obtain r1 w1 where fetch: "fetch_page E category fd page w = (r1, w1)" by fastforce
    have fw1: "file_of w1 = file_of w"
      using fetch_page_facts(1) [OF fetch] by (rule file_of_files_eq)
    show ?thesis
    proof (cases r1)
      case (Inl e)
      then show ?thesis using run notdone fetch fw1
        by (intro none) (auto simp: list_pages.simps run_simps)
    next
      case (Inr data)
      have wfd: "json_wf data" using fetch_page_facts(2) [OF fetch "1.prems"(3) Inr] .
      show ?thesis
      proof (cases "sbind (py_getitem data ''items'') py_iter")
        case (Inl e)
        then show ?thesis using run notdone fetch fw1 \<open>r1 = Inr data\<close>
          by (intro none) (auto simp: list_pages.simps run_simps)
      next
        case (Inr arts)
        have warts: "list_all json_wf arts"
          using Inr wfd by (auto intro: py_iter_wf py_getitem_wf)
        obtain r3 w3 where li: "list_items E f bdt alim arts v w1 = (r3, w3)" by fastforce
        have "file_of w1 f = Some L" using fL fw1 by simp
        from list_items_appends [OF li this] obtain bs ns where
          ih1: "subseq bs arts" "list_all2 (\<lambda>a n. article_id a = Inr n) bs ns"
            "distinct ns" "set ns \<inter> lv_ids v = {}" "\<forall>a\<in>set bs. cutoff_skip E bdt a = Inr False"
            "\<forall>g. file_of w3 g = (if g = f then Some (L @ records bs) else file_of w1 g)"
            "\<forall>v' d. r3 = Inr (v', d) \<longrightarrow> lv_ids v' = lv_ids v \<union> set ns \<and> lv_count v' = lv_count v + length ns"
          by (elim exE conjE) (rule that; assumption)
        have wbs: "list_all json_wf bs" using subseq_list_all [OF ih1(1) warts] .
        have page_run: "list_pages E category f bdt plim alim fd tp page v w =
          (case r3 of Inl e \<Rightarrow> (Inl e, w3)
           | Inr (v2, done) \<Rightarrow>
               if done then (Inr v2, w3)
               else if lim_hit plim page
               then (Inr v2, w3\<lparr>trace := trace w3 @
                       [Print (''Reached page limit ('' @ py_str_int (the plim) @ ''). Stopping.'')]\<rparr>)
               else list_pages E category f bdt plim alim fd tp (page + 1) v2 w3)"
          using notdone fetch \<open>r1 = Inr data\<close> Inr li
          by (simp add: list_pages.simps [of E category f bdt plim alim fd tp page v] run_simps
              del: sbind_eq_Inr split: sum.split prod.split)
        have here: "\<exists>bs ns. list_all json_wf bs \<and> list_all2 (\<lambda>a n. article_id a = Inr n) bs ns
           \<and> distinct ns \<and> set ns \<inter> lv_ids v = {}
           \<and> (\<forall>a\<in>set bs. cutoff_skip E bdt a = Inr False)
           \<and> (\<forall>g. file_of w' g = (if g = f then Some (L @ records bs) else file_of w g))
           \<and> (\<forall>v'. r = Inr v' \<longrightarrow> lv_ids v' = lv_ids v \<union> set ns \<and> lv_count v' = lv_count v + length ns)"
          if h1: "file_of w' = file_of w3" and h2: "\<forall>v'. r = Inr v' \<longrightarrow> (\<exists>d. r3 = Inr (v', d))"
        proof (rule exI [of _ bs], rule exI [of _ ns], intro conjI allI impI)
          fix v' assume "r = Inr v'"
          then obtain d where "r3 = Inr (v', d)" using h2 by blast
          then show "lv_ids v' = lv_ids v \<union> set ns" "lv_count v' = lv_count v + length ns"
            using ih1(7) by simp_all
        qed (use wbs ih1 fw1 h1 in simp_all)
        show ?thesis
        proof (cases r3)
          case (Inl e)
          then show ?thesis using run page_run by (intro here) auto
        next
          case (Inr x)
          then obtain v2 dn where r3: "r3 = Inr (v2, dn)" by (cases x) auto
          show ?thesis
          proof (cases "dn \<or> lim_hit plim page")
            case True
            then show ?thesis using run page_run r3
              by (intro here) (auto simp: fun_eq_iff split: if_splits)
          next
            case False
            then have rec: "list_pages E category f bdt plim alim fd tp (page + 1) v2 w3 = (r, w')"
              using run page_run r3 by simp
            have f3: "file_of w3 f = Some (L @ records bs)" using ih1(6) by simp
            have nd: "\<not> dn" "\<not> lim_hit plim page" using False by simp_all
            from "1.IH" [OF notdone nd rec f3 "1.prems"(3)] obtain bs2 ns2 where
              ih2: "list_all json_wf bs2" "list_all2 (\<lambda>a n. article_id a = Inr n) bs2 ns2"
                "distinct ns2" "set ns2 \<inter> lv_ids v2 = {}" "\<forall>a\<in>set bs2. cutoff_skip E bdt a = Inr False"
                "\<forall>g. file_of w' g = (if g = f then Some ((L @ records bs) @ records bs2) else file_of w3 g)"
                "\<forall>v'. r = Inr v' \<longrightarrow> lv_ids v' = lv_ids v2 \<union> set ns2 \<and> lv_count v' = lv_count v2 + length ns2"
              by (elim exE conjE) (rule that; assumption)
            have v2: "lv_ids v2 = lv_ids v \<union> set ns" "lv_count v2 = lv_count v + length ns"
              using ih1(7) r3 by simp_all
            show ?thesis
            proof (rule exI [of _ "bs @ bs2"], rule exI [of _ "ns @ ns2"], intro conjI allI impI)
              fix v' assume "r = Inr v'"
              then show "lv_ids v' = lv_ids v \<union> set (ns @ ns2)" "lv_count v' = lv_count v + length (ns @ ns2)"
                using ih2(7) v2 by auto
            next
              show "\<forall>a\<in>set (bs @ bs2). cutoff_skip E bdt a = Inr False" using ih1(5) ih2(5) by auto
            next
              fix g show "file_of w' g = (if g = f then Some (L @ records (bs @ bs2)) else file_of w g)"
                using ih2(6) ih1(6) fw1 by (simp add: records_def)
            qed (use wbs ih1(2-4) ih2(1-4) v2 in \<open>auto simp: list_all2_appendI\<close>)
          qed
        qed
      qed
    qed
  qed
qed

subsection \<open>The command\<close>

lemma list_with_outcome:
  assumes run: "py_bind (fs_open_append f) (\<lambda>_.
      py_bind (py_lift (py_as_int tp0)) (\<lambda>tp.
      py_bind (list_pages E cat f bdt plim alim fd tp 1 \<lparr>lv_ids = set xs, lv_count = 0\<rparr>) (\<lambda>v.
      py_bind (py_print (msg v)) (\<lambda>_. py_return (lv_count v))))) w1 = (r, w')"
    and wf: "json_wf fd"
  shows "(\<forall>g. g \<noteq> f \<longrightarrow> file_of w' g = file_of w1 g)
    \<and> (\<exists>bs ns. file_of w' f = Some ((case file_of w1 f of None \<Rightarrow> [] | Some t \<Rightarrow> t) @ records bs)
         \<and> list_all json_wf bs \<and> list_all2 (\<lambda>a n. article_id a = Inr n) bs ns \<and> distinct ns
         \<and> set ns \<inter> set xs = {} \<and> (\<forall>a\<in>set bs. cutoff_skip E bdt a = Inr False)
         \<and> (\<forall>n. r = Inr n \<longrightarrow> n = length ns))"
  using run wf
  apply (elim py_bind_elim)
  subgoal by (auto dest!: step_dests)
  subgoal by (auto dest!: step_dests intro!: exI [of _ "[]"])
  subgoal by (auto dest!: step_dests list_pages_appends; blast)
  subgoal by (auto dest!: step_dests)
  subgoal by (auto dest!: step_dests list_pages_appends; blast)
  done
text \<open>The setup changes no file but the deleted ledger, and hands on the ids of
  the ledger it starts from, the cutoff, and a well-formed page 1.\<close>

lemma list_setup_outcome:
  assumes run: "list_setup E args w = (r, w1)"
  shows "(\<forall>g. g \<noteq> list_file (la_category args) \<longrightarrow> file_of w1 g = file_of w g)
    \<and> file_of w1 (list_file (la_category args)) =
        (if la_rescrape args then None else file_of w (list_file (la_category args)))
    \<and> (\<forall>S bdt fd tp. r = Inr (S, bdt, fd, tp) \<longrightarrow>
         (\<exists>xs. ledger_ids (start_ledger args w) = Inr xs \<and> S = set xs)
         \<and> before_of E (la_before args) = Inr bdt \<and> json_wf fd)"
  using run unfolding list_setup_def Let_def
  by (elim py_bind_elim) (auto dest!: step_dests simp: start_ledger_def)

text \<open>Every outcome of \<open>cmd_list\<close>: no file but the ledger changes, and the
  ledger is either as the setup left it (the run raised before the \<open>with\<close>
  block) or is the ledger the loop started from followed by the records of
  well-formed articles that passed the cutoff, with distinct ids not in it;
  the returned count is their number.\<close>

lemma cmd_list_outcome:
  assumes run: "cmd_list E args w = (r, w')"
  shows "(\<forall>g. g \<noteq> list_file (la_category args) \<longrightarrow> file_of w' g = file_of w g) \<and>
    ((\<exists>e. r = Inl e) \<and> file_of w' (list_file (la_category args)) =
        (if la_rescrape args then None else file_of w (list_file (la_category args)))
     \<or> (\<exists>xs bs ns bdt. ledger_ids (start_ledger args w) = Inr xs \<and> before_of E (la_before args) = Inr bdt
         \<and> file_of w' (list_file (la_category args)) = Some (start_ledger args w @ records bs)
         \<and> list_all json_wf bs \<and> list_all2 (\<lambda>a n. article_id a = Inr n) bs ns \<and> distinct ns
         \<and> set ns \<inter> set xs = {} \<and> (\<forall>a\<in>set bs. cutoff_skip E bdt a = Inr False)
         \<and> (\<forall>n. r = Inr n \<longrightarrow> n = length ns)))"
  using run unfolding cmd_list_def Let_def
proof (cases rule: py_bind_elim)
  case (raised e)
  then show ?thesis using list_setup_outcome [OF raised(1)] by auto
next
  case (returned x w1)
  obtain S bdt fd tp0 where x: "x = (S, bdt, fd, tp0)" by (cases x) auto
  note su = list_setup_outcome [OF returned(1) [unfolded x]]
  obtain xs where xs: "ledger_ids (start_ledger args w) = Inr xs" "S = set xs"
    and bdt: "before_of E (la_before args) = Inr bdt" and wf: "json_wf fd"
    using su by blast
  have start: "(case file_of w1 (list_file (la_category args)) of None \<Rightarrow> [] | Some t \<Rightarrow> t) = start_ledger args w"
    using su by (simp add: start_ledger_def split: option.splits)
  from list_with_outcome [OF returned(2) [unfolded x prod.case xs(2)] wf] su xs(1) bdt start
  show ?thesis by auto
qed

lemma ledger_ok_start:
  "ledger_ok_at (list_file (la_category args)) w \<Longrightarrow> ledger_ok (start_ledger args w)"
  by (auto simp: ledger_ok_at_def start_ledger_def split: option.splits)

lemma ledger_ok_ids:
  "ledger_ok body \<Longrightarrow> ledger_ids body = Inr xs \<Longrightarrow> distinct xs"
  by (simp add: ledger_ok_def)

lemma cutoff_skip_False_pub:
  "cutoff_skip E (Some bdt) a = Inr False \<Longrightarrow> py_dict_get a ''publishTime'' (JStr []) = Inr (JStr s) \<Longrightarrow>
   s \<noteq> [] \<Longrightarrow> \<exists>d. parse_date E s = Inr d \<and> dt_utc d < dt_utc bdt"
  by (cases "parse_date E s") (auto simp: cutoff_skip_def dt_ge_def)

lemma ledger_ok_after_list:
  assumes "ledger_ok_at (list_file (la_category args)) w"
  shows "ledger_ok_at (list_file (la_category args)) (snd (cmd_list E args w))"
proof -
  obtain r w' where run: "cmd_list E args w = (r, w')" by fastforce
  have ok0: "ledger_ok (start_ledger args w)" using ledger_ok_start [OF assms] .
  from cmd_list_outcome [OF run] show ?thesis
  proof (elim conjE disjE exE)
    assume "file_of w' (list_file (la_category args)) =
        (if la_rescrape args then None else file_of w (list_file (la_category args)))"
    then show ?thesis using assms run by (simp add: ledger_ok_at_def)
  next
    fix xs bs ns bdt
    assume h: "ledger_ids (start_ledger args w) = Inr xs"
      "file_of w' (list_file (la_category args)) = Some (start_ledger args w @ records bs)"
      "list_all json_wf bs" "list_all2 (\<lambda>a n. article_id a = Inr n) bs ns" "distinct ns"
      "set ns \<inter> set xs = {}"
    from ledger_ok_append_records [OF ok0 h(1) h(3-6)] show ?thesis
      using run h(2) by (simp add: ledger_ok_at_def)
  qed
qed

text \<open>C1. The dedup invariant of the ledger (spec, section 6): whatever the run
  does, raising included, a well-formed ledger (every line loads, ids distinct,
  newline-terminated) stays well formed.\<close>

theorem cmd_list_ledger_ok:
  assumes "ledger_ok_at (list_file (la_category args)) w"
  shows "ledger_ok_at (list_file (la_category args)) (snd (cmd_list E args w))"
  using ledger_ok_after_list [OF assms] .

text \<open>C2. A run that returns \<open>n\<close> has appended exactly \<open>n\<close> new ids to the ids of
  the ledger it started from, all distinct from them and from each other.\<close>

theorem cmd_list_new_ids:
  assumes "ledger_ok_at (list_file (la_category args)) w" and "cmd_list E args w = (Inr n, w')"
  shows "\<exists>L' xs ys. file_of w' (list_file (la_category args)) = Some L'
           \<and> ledger_ids (start_ledger args w) = Inr xs \<and> ledger_ids L' = Inr (xs @ ys)
           \<and> distinct (xs @ ys) \<and> length ys = n"
proof -
  have ok0: "ledger_ok (start_ledger args w)" using ledger_ok_start [OF assms(1)] .
  from cmd_list_outcome [OF assms(2)] obtain xs bs ns bdt where
    h: "ledger_ids (start_ledger args w) = Inr xs"
      "file_of w' (list_file (la_category args)) = Some (start_ledger args w @ records bs)"
      "list_all json_wf bs" "list_all2 (\<lambda>a n. article_id a = Inr n) bs ns" "distinct ns"
      "set ns \<inter> set xs = {}" "n = length ns"
    by auto
  from ledger_ok_append_records [OF ok0 h(1) h(3-6)] have
    "ledger_ok (start_ledger args w @ records bs)"
    "ledger_ids (start_ledger args w @ records bs) = Inr (xs @ ns)" by simp_all
  then show ?thesis using h ledger_ok_ids by blast
qed

text \<open>C3. Without \<open>--rescrape\<close> the ledger is append-only: on every outcome the
  old ledger is a prefix of the new one.\<close>

theorem cmd_list_append_only:
  assumes "\<not> la_rescrape args" and "file_of w (list_file (la_category args)) = Some L"
  shows "\<exists>ext. file_of (snd (cmd_list E args w)) (list_file (la_category args)) = Some (L @ ext)"
proof -
  obtain r w' where run: "cmd_list E args w = (r, w')" by fastforce
  have "start_ledger args w = L" using assms by (simp add: start_ledger_def)
  then show ?thesis using cmd_list_outcome [OF run] assms run by auto
qed

text \<open>C4. Cutoff (spec, section 6): with a cutoff, no record the run appends has
  a non-empty \<open>publishTime\<close> at or after it; every one that has one parses to an
  instant strictly before the cutoff.\<close>

theorem cmd_list_cutoff:
  assumes "cmd_list E args w = (r, w')" and "before_of E (la_before args) = Inr (Some bdt)"
  shows "file_of w' (list_file (la_category args)) =
           (if la_rescrape args then None else file_of w (list_file (la_category args)))
         \<or> (\<exists>bs. file_of w' (list_file (la_category args)) = Some (start_ledger args w @ records bs)
              \<and> (\<forall>a\<in>set bs. \<forall>s. py_dict_get a ''publishTime'' (JStr []) = Inr (JStr s) \<longrightarrow> s \<noteq> [] \<longrightarrow>
                     (\<exists>d. parse_date E s = Inr d \<and> dt_utc d < dt_utc bdt)))"
proof -
  from cmd_list_outcome [OF assms(1)] show ?thesis
  proof (elim conjE disjE exE)
    assume "file_of w' (list_file (la_category args)) =
        (if la_rescrape args then None else file_of w (list_file (la_category args)))"
    then show ?thesis by (rule disjI1)
  next
    fix xs bs ns bdt'
    assume h: "before_of E (la_before args) = Inr bdt'"
      "file_of w' (list_file (la_category args)) = Some (start_ledger args w @ records bs)"
      "\<forall>a\<in>set bs. cutoff_skip E bdt' a = Inr False"
    have bdt: "bdt' = Some bdt" using h(1) assms(2) by simp
    show ?thesis
    proof (rule disjI2, rule exI [of _ bs], intro conjI ballI allI impI)
      fix a s
      assume "a \<in> set bs" "py_dict_get a ''publishTime'' (JStr []) = Inr (JStr s)" "s \<noteq> []"
      then show "\<exists>d. parse_date E s = Inr d \<and> dt_utc d < dt_utc bdt"
        using h(3) bdt cutoff_skip_False_pub by blast
    qed (use h(2) in simp)
  qed
qed

lemma cmd_list_frame:
  assumes "g \<noteq> list_file (la_category args)"
  shows "file_of (snd (cmd_list E args w)) g = file_of w g"
proof -
  obtain r w' where run: "cmd_list E args w = (r, w')" by fastforce
  then show ?thesis using cmd_list_outcome [OF run] assms by simp
qed

text \<open>C5. \<open>cmd_list\<close> writes no file but its category's ledger.\<close>

theorem cmd_list_other_files:
  assumes "g \<noteq> list_file (la_category args)"
  shows "file_of (snd (cmd_list E args w)) g = file_of w g"
  using cmd_list_frame [OF assms] .

text \<open>C15. A ledger the loader cannot read aborts the run before anything
  happens: without \<open>--rescrape\<close>, when reading the ids raises (a line that is
  JSON but not a dict, or whose id is \<open>null\<close> or a list, raises \<open>TypeError\<close>,
  which line 46 does not catch), \<open>cmd_list\<close> raises it with the world unchanged.\<close>

theorem cmd_list_load_error:
  assumes "\<not> la_rescrape args" and "file_of w (list_file (la_category args)) = Some L"
    and "ledger_ids L = Inl e"
  shows "cmd_list E args w = (Inl e, w)"
  using assms by (simp add: cmd_list_def list_setup_def Let_def run_simps load_existing_ids_eq)

text \<open>C21. \<open>--rescrape\<close> deletes the ledger before the cutoff is parsed
  (lines 64--70): when \<open>--before\<close> does not parse, the run raises the parse
  error and the ledger is already gone, with nothing collected.\<close>

theorem cmd_list_rescrape_bad_before:
  assumes "la_rescrape args" and "file_of w (list_file (la_category args)) = Some L"
    and "before_of E (la_before args) = Inl e"
  shows "fst (cmd_list E args w) = Inl e \<and> file_of (snd (cmd_list E args w)) (list_file (la_category args)) = None"
  using assms
  by (simp add: cmd_list_def list_setup_def Let_def run_simps path_exists_file_of load_existing_ids_eq)

lemma stubs_typed_after_list:
  assumes ok: "ledger_ok_at (list_file (la_category args)) w"
    and typed: "stubs_typed (start_ledger args w)"
    and run: "cmd_list E args w = (r, w')"
  shows "case file_of w' (list_file (la_category args)) of None \<Rightarrow> True | Some L' \<Rightarrow> stubs_typed L'"
proof -
  have ok0: "ledger_ok (start_ledger args w)" using ledger_ok_start [OF ok] .
  from cmd_list_outcome [OF run] show ?thesis
  proof (elim conjE disjE exE)
    assume "file_of w' (list_file (la_category args)) =
        (if la_rescrape args then None else file_of w (list_file (la_category args)))"
    then show ?thesis using typed by (simp add: start_ledger_def split: option.splits if_splits)
  next
    fix xs bs ns bdt
    assume h: "file_of w' (list_file (la_category args)) = Some (start_ledger args w @ records bs)"
      "list_all json_wf bs" "list_all2 (\<lambda>a n. article_id a = Inr n) bs ns"
    have "ends_nl (start_ledger args w)" using ok0 by (simp add: ledger_ok_def)
    from stubs_typed_records [OF this typed h(2,3)] show ?thesis using h(1) by simp
  qed
qed

text \<open>C23. The type of the ledger (every stub has an id \<open>int()\<close> accepts) is an
  invariant of \<open>cmd_list\<close> on a well-formed ledger, on every outcome: the
  stubs it appends are articles whose id it converted (line 94).\<close>

theorem cmd_list_stubs_typed:
  assumes "ledger_ok_at (list_file (la_category args)) w" and "stubs_typed (start_ledger args w)"
  shows "case file_of (snd (cmd_list E args w)) (list_file (la_category args)) of
           None \<Rightarrow> True | Some L' \<Rightarrow> stubs_typed L'"
  using stubs_typed_after_list [OF assms prod.collapse [symmetric]] .

subsection \<open>The article limit\<close>

lemma list_items_bound:
  "list_items E f bdt (Some l) arts v w = (Inr (v', d), w') \<Longrightarrow> int (lv_count v) < max 1 l \<Longrightarrow>
   int (lv_count v') \<le> max 1 l \<and> (\<not> d \<longrightarrow> int (lv_count v') < max 1 l)"
proof (induction arts arbitrary: v w)
  case Nil
  then show ?case by (simp add: run_simps)
next
  case (Cons a arts)
  then show ?case
    by (auto simp: run_simps lim_hit_def Let_def split: sum.splits if_splits)
qed

text \<open>One iteration of the page loop, by the way it ends.\<close>

lemma list_pages_cases:
  assumes run: "list_pages E category f bdt plim alim fd tp page v w = (r, w')" and go: "\<not> tp < page"
  obtains (fetch_err) e where "fetch_page E category fd page w = (Inl e, w')" "r = Inl e"
  | (items_err) data w1 e where "fetch_page E category fd page w = (Inr data, w1)"
      "sbind (py_getitem data ''items'') py_iter = Inl e" "r = Inl e" "w' = w1"
  | (loop_err) data w1 arts e where "fetch_page E category fd page w = (Inr data, w1)"
      "sbind (py_getitem data ''items'') py_iter = Inr arts" "list_items E f bdt alim arts v w1 = (Inl e, w')"
      "r = Inl e"
  | (stop) data w1 arts v2 dn w3 where "fetch_page E category fd page w = (Inr data, w1)"
      "sbind (py_getitem data ''items'') py_iter = Inr arts" "list_items E f bdt alim arts v w1 = (Inr (v2, dn), w3)"
      "dn \<or> lim_hit plim page" "r = Inr v2"
      "w' = w3 \<or> w' = w3\<lparr>trace := trace w3 @ [Print (''Reached page limit ('' @ py_str_int (the plim) @ ''). Stopping.'')]\<rparr>"
  | (continue) data w1 arts v2 w3 where "fetch_page E category fd page w = (Inr data, w1)"
      "sbind (py_getitem data ''items'') py_iter = Inr arts" "list_items E f bdt alim arts v w1 = (Inr (v2, False), w3)"
      "\<not> lim_hit plim page" "list_pages E category f bdt plim alim fd tp (page + 1) v2 w3 = (r, w')"
proof -
  note eq = list_pages.simps [of E category f bdt plim alim fd tp page v]
  obtain r1 w1 where fetch: "fetch_page E category fd page w = (r1, w1)" by fastforce
  show thesis
  proof (cases r1)
    case (Inl e)
    then show thesis using run go fetch by (intro fetch_err [of e]) (simp_all add: eq run_simps)
  next
    case (Inr data)
    show thesis
    proof (cases "sbind (py_getitem data ''items'') py_iter")
      case (Inl e)
      then show thesis using run go fetch \<open>r1 = Inr data\<close>
        by (intro items_err [of data w1 e]) (simp_all add: eq run_simps del: sbind_eq_Inr)
    next
      case (Inr arts)
      obtain r3 w3 where li: "list_items E f bdt alim arts v w1 = (r3, w3)" by fastforce
      note base = run go fetch \<open>r1 = Inr data\<close> Inr li
      show thesis
      proof (cases r3)
        case (Inl e)
        then show thesis using base
          by (intro loop_err [of data w1 arts e]) (simp_all add: eq run_simps del: sbind_eq_Inr)
      next
        case (Inr x)
        obtain v2 dn where x: "x = (v2, dn)" by fastforce
        show thesis
        proof (cases "dn \<or> lim_hit plim page")
          case True
          then show thesis using base \<open>r3 = Inr x\<close> x
            by (intro stop [of data w1 arts v2 dn w3])
               (auto simp: eq run_simps simp del: sbind_eq_Inr split: if_splits)
        next
          case False
          then show thesis using base \<open>r3 = Inr x\<close> x
            by (intro continue [of data w1 arts v2 w3]) (simp_all add: eq run_simps del: sbind_eq_Inr)
        qed
      qed
    qed
  qed
qed

lemma list_pages_bound:
  "list_pages E category f bdt plim alim fd tp page v w = (Inr v', w') \<Longrightarrow> alim = Some l \<Longrightarrow>
   int (lv_count v) < max 1 l \<Longrightarrow> int (lv_count v') \<le> max 1 l"
proof (induction E category f bdt plim alim fd tp page v arbitrary: w w' rule: list_pages.induct)
  case (1 E category f bdt plim alim fd tp page v)
  show ?case
  proof (cases "tp < page")
    case True
    then show ?thesis using "1.prems" by (simp add: list_pages.simps run_simps)
  next
    case go: False
    from "1.prems"(1) go show ?thesis
    proof (cases rule: list_pages_cases)
      case (stop data w1 arts v2 dn w3)
      then show ?thesis using list_items_bound [of E f bdt l arts v w1 v2 dn w3] "1.prems"(2,3) by auto
    next
      case (continue data w1 arts v2 w3)
      have "int (lv_count v2) < max 1 l"
        using list_items_bound [OF continue(3) [unfolded "1.prems"(2)]] "1.prems"(3) by simp
      moreover have "\<not> False" by simp
      ultimately show ?thesis using "1.IH" [OF go _ continue(4) continue(5) "1.prems"(2)] by blast
    qed simp_all
  qed
qed

text \<open>A run that returns reports the count of the page loop started on page 1
  with count 0.\<close>

lemma list_with_count:
  assumes run: "py_bind (fs_open_append f) (\<lambda>_.
      py_bind (py_lift (py_as_int tp0)) (\<lambda>tp.
      py_bind (list_pages E cat f bdt plim alim fd tp 1 \<lparr>lv_ids = S, lv_count = 0\<rparr>) (\<lambda>v.
      py_bind (py_print (msg v)) (\<lambda>_. py_return (lv_count v))))) w1 = (Inr n, w')"
  shows "\<exists>tp w5 v w6. list_pages E cat f bdt plim alim fd tp 1 \<lparr>lv_ids = S, lv_count = 0\<rparr> w5 = (Inr v, w6)
           \<and> n = lv_count v"
  using run by (elim py_bind_elim) (auto dest!: step_dests)

lemma cmd_list_from_pages:
  assumes "cmd_list E args w = (Inr n, w')"
  shows "\<exists>S bdt fd tp w5 v w6. list_pages E (la_category args) (list_file (la_category args)) bdt (la_pages args)
           (la_articles args) fd tp 1 \<lparr>lv_ids = S, lv_count = 0\<rparr> w5 = (Inr v, w6) \<and> n = lv_count v"
  using assms unfolding cmd_list_def Let_def
proof (cases rule: py_bind_elim)
  case (returned x w1)
  obtain S bdt fd tp0 where x: "x = (S, bdt, fd, tp0)" by (cases x) auto
  from list_with_count [OF returned(2) [unfolded x prod.case]] show ?thesis by blast
qed simp

text \<open>C12. The article limit bounds the count: a run with \<open>--articles l\<close> collects
  at most \<open>max 1 l\<close> new articles.  The \<open>1\<close> is attained: the limit is tested
  only after an article is written (line 112), so \<open>--articles 0\<close> still collects
  one.\<close>

theorem cmd_list_article_bound:
  assumes "la_articles args = Some l" and "cmd_list E args w = (Inr n, w')"
  shows "int n \<le> max 1 l"
proof -
  obtain S bdt fd tp w5 v w6 where
    run: "list_pages E (la_category args) (list_file (la_category args)) bdt (la_pages args)
           (la_articles args) fd tp 1 \<lparr>lv_ids = S, lv_count = 0\<rparr> w5 = (Inr v, w6)" and n: "n = lv_count v"
    using cmd_list_from_pages [OF assms(2)] by blast
  show ?thesis using list_pages_bound [OF run assms(1)] n by simp
qed

end
