(* ===== verification/Json_Read.thy ===== *)
theory Json_Read
  imports Json_Codec
begin

text \<open>
  What \<open>json.loads\<close> reads, beyond the round trip of \<open>Json_Codec\<close>: the fuel
  of the scanner is enough for every input (\<open>json_loads_total\<close>), and the
  indented text \<open>json.dump(..., indent=2)\<close> writes for a content file reads
  back as the value printed (\<open>json_loads_dump_indent2\<close>,
  \<open>json_dump_indent2_equiv\<close>).
\<close>

subsection \<open>Enough fuel for every input\<close>

text \<open>Each call of the scanner that succeeds consumes at least one character,
  and a call on a text of which it consumes \<open>k\<close> characters succeeds with any
  fuel from \<open>k\<close> on (\<open>jp_fuel_enough\<close>, by induction on the fuel over the three
  mutually recursive scanners).  Hence \<open>Suc (length s)\<close> never cuts a parse
  short.\<close>

lemma skip_ws_le: "length (skip_ws s) \<le> length s"
  by (simp add: skip_ws_def length_dropWhile_le)

lemma jp_string_shorter: "jp_string s = Some (t, r) \<Longrightarrow> length r < length s"
  by (induction s arbitrary: t rule: jp_string.induct)
     (auto simp: jp_cons_def Let_def map_option_eq_Some split: if_splits list.splits option.splits,
      fastforce+)

lemma jp_number_shorter: "jp_number s = Some (j, r) \<Longrightarrow> length r < length s"
  by (cases s) (auto simp: jp_number_def jp_int_digits_def Let_def less_Suc_eq_le length_dropWhile_le
           split: list.splits if_splits option.splits intro: le_SucI)


lemma jp_value_Suc_obj:
  "skip_ws t \<noteq> [] \<Longrightarrow> hd (skip_ws t) = CHR 0x22 \<Longrightarrow>
   jp_value (Suc k) (CHR ''{'' # t) = map_option (\<lambda>(kvs, r'). (JObj kvs, r')) (jp_members k [] (tl (skip_ws t)))"
  by (simp add: Let_def)

lemma jp_value_Suc_arr:
  "\<not> (skip_ws t \<noteq> [] \<and> hd (skip_ws t) = CHR '']'') \<Longrightarrow>
   jp_value (Suc k) (CHR ''['' # t) = map_option (\<lambda>(xs, r'). (JArr xs, r')) (jp_elems k [] (skip_ws t))"
  by (auto simp: Let_def)

lemma jp_value_Suc_flat:
  "\<not> (c = CHR ''{'' \<and> skip_ws t \<noteq> [] \<and> hd (skip_ws t) = CHR 0x22) \<Longrightarrow>
   \<not> (c = CHR ''['' \<and> \<not> (skip_ws t \<noteq> [] \<and> hd (skip_ws t) = CHR '']'')) \<Longrightarrow>
   jp_value (Suc k) (c # t) = jp_value (Suc 0) (c # t)"
  by (auto simp: Let_def)

lemma jp_value_flat_shorter: "jp_value (Suc 0) s = Some (j, r) \<Longrightarrow> length r < length s"
  by (cases s) (auto simp: Let_def less_Suc_eq_le split: if_splits dest!: jp_string_shorter jp_number_shorter
      intro: order.trans [OF diff_le_self skip_ws_le])


lemma jp_members_Suc_Some:
  assumes "jp_members (Suc n) kvs s = Some (kvs', r)"
  shows "\<exists>k r0 r1 v r2 d r3. jp_string s = Some (k, r0) \<and> skip_ws r0 = CHR '':'' # r1
           \<and> jp_value n (skip_ws r1) = Some (v, r2) \<and> skip_ws r2 = d # r3
           \<and> ((d = CHR ''}'' \<and> kvs' = dict_set kvs k v \<and> r = r3)
              \<or> (\<exists>r4. d = CHR '','' \<and> skip_ws r3 = CHR 0x22 # r4
                      \<and> jp_members n (dict_set kvs k v) r4 = Some (kvs', r)))"
  using assms
  by (simp split: option.split_asm list.split_asm if_split_asm prod.split_asm del: jp_value.simps)

lemma jp_value_fuel_step:
  assumes ihe: "\<forall>acc s xs r. jp_elems n acc s = Some (xs, r) \<longrightarrow>
                  length r < length s \<and> (\<forall>m. length s - length r \<le> m \<longrightarrow> jp_elems m acc s = Some (xs, r))"
    and ihm: "\<forall>kvs s kvs' r. jp_members n kvs s = Some (kvs', r) \<longrightarrow>
                  length r < length s \<and> (\<forall>m. length s - length r \<le> m \<longrightarrow> jp_members m kvs s = Some (kvs', r))"
    and run: "jp_value (Suc n) s = Some (j, r)"
  shows "length r < length s \<and> (\<forall>m. length s - length r \<le> m \<longrightarrow> jp_value m s = Some (j, r))"
proof -
  obtain c t where s: "s = c # t" using run by (cases s) auto
  have t: "length (skip_ws t) \<le> length t" by (rule skip_ws_le)
  consider (obj) "c = CHR ''{''" "skip_ws t \<noteq> []" "hd (skip_ws t) = CHR 0x22"
    | (arr) "c = CHR ''[''" "\<not> (skip_ws t \<noteq> [] \<and> hd (skip_ws t) = CHR '']'')"
    | (flat) "\<not> (c = CHR ''{'' \<and> skip_ws t \<noteq> [] \<and> hd (skip_ws t) = CHR 0x22)"
             "\<not> (c = CHR ''['' \<and> \<not> (skip_ws t \<noteq> [] \<and> hd (skip_ws t) = CHR '']''))"
    by blast
  then show ?thesis
  proof cases
    case obj
    then obtain kvs where k: "jp_members n [] (tl (skip_ws t)) = Some (kvs, r)" and j: "j = JObj kvs"
      using run unfolding s by (auto simp: jp_value_Suc_obj simp del: jp_value.simps)
    note ih = ihm [rule_format, OF k]
    show ?thesis
    proof (intro conjI allI impI)
      show "length r < length s" using ih t unfolding s by (simp add: less_diff_conv)
      fix m assume "length s - length r \<le> m"
      then obtain m' where "m = Suc m'" "length (tl (skip_ws t)) - length r \<le> m'"
        using ih t s by (cases m) auto
      then show "jp_value m s = Some (j, r)"
        using ih obj j unfolding s by (simp add: jp_value_Suc_obj del: jp_value.simps)
    qed
  next
    case arr
    then obtain xs where k: "jp_elems n [] (skip_ws t) = Some (xs, r)" and j: "j = JArr xs"
      using run unfolding s by (auto simp: jp_value_Suc_arr simp del: jp_value.simps)
    note ih = ihe [rule_format, OF k]
    show ?thesis
    proof (intro conjI allI impI)
      show "length r < length s" using ih t unfolding s by (simp add: less_diff_conv)
      fix m assume "length s - length r \<le> m"
      then obtain m' where "m = Suc m'" "length (skip_ws t) - length r \<le> m'"
        using ih t s by (cases m) auto
      then show "jp_value m s = Some (j, r)"
        using ih arr j unfolding s by (simp add: jp_value_Suc_arr del: jp_value.simps)
    qed
  next
    case flat
    have k: "jp_value (Suc 0) s = Some (j, r)"
      using run jp_value_Suc_flat [OF flat, of n] unfolding s by (simp del: jp_value.simps)
    have short: "length r < length s" by (rule jp_value_flat_shorter [OF k])
    show ?thesis
    proof (intro conjI allI impI)
      fix m assume "length s - length r \<le> m"
      then obtain m' where "m = Suc m'" using short by (cases m) auto
      then show "jp_value m s = Some (j, r)"
        using k jp_value_Suc_flat [OF flat, of m'] unfolding s by (simp del: jp_value.simps)
    qed (rule short)
  qed
qed


lemma jp_elems_fuel_step:
  assumes ihv: "\<forall>s j r. jp_value n s = Some (j, r) \<longrightarrow>
                  length r < length s \<and> (\<forall>m. length s - length r \<le> m \<longrightarrow> jp_value m s = Some (j, r))"
    and ihe: "\<forall>acc s xs r. jp_elems n acc s = Some (xs, r) \<longrightarrow>
                  length r < length s \<and> (\<forall>m. length s - length r \<le> m \<longrightarrow> jp_elems m acc s = Some (xs, r))"
    and run: "jp_elems (Suc n) acc s = Some (xs, r)"
  shows "length r < length s \<and> (\<forall>m. length s - length r \<le> m \<longrightarrow> jp_elems m acc s = Some (xs, r))"
proof -
  obtain v r0 c r' where v: "jp_value n s = Some (v, r0)" and sk: "skip_ws r0 = c # r'"
    and rest: "(if c = CHR '']'' then Some (acc @ [v], r')
                else if c = CHR '','' then jp_elems n (acc @ [v]) (skip_ws r') else None) = Some (xs, r)"
    using run by (auto split: option.splits list.splits)
  note iv = ihv [rule_format, OF v]
  have r': "length r' < length r0" using skip_ws_le [of r0] sk by simp
  consider (close) "c = CHR '']''" "xs = acc @ [v]" "r = r'"
    | (more) "c = CHR '',''" "jp_elems n (acc @ [v]) (skip_ws r') = Some (xs, r)"
    using rest by (auto split: if_splits)
  then show ?thesis
  proof cases
    case close
    show ?thesis
    proof (intro conjI allI impI)
      show "length r < length s" using iv r' close by simp
      fix m assume "length s - length r \<le> m"
      then obtain m' where "m = Suc m'" "length s - length r0 \<le> m'" using iv r' close by (cases m) auto
      then show "jp_elems m acc s = Some (xs, r)" using iv sk close by simp
    qed
  next
    case more
    note ie = ihe [rule_format, OF more(2)]
    have w: "length (skip_ws r') \<le> length r'" by (rule skip_ws_le)
    show ?thesis
    proof (intro conjI allI impI)
      show "length r < length s" using iv ie r' w by simp
      fix m assume "length s - length r \<le> m"
      then obtain m' where "m = Suc m'" "length s - length r0 \<le> m'" "length (skip_ws r') - length r \<le> m'"
        using iv ie r' w by (cases m) auto
      then show "jp_elems m acc s = Some (xs, r)" using iv ie sk more by simp
    qed
  qed
qed


lemma jp_members_fuel_step:
  assumes ihv: "\<forall>s j r. jp_value n s = Some (j, r) \<longrightarrow>
                  length r < length s \<and> (\<forall>m. length s - length r \<le> m \<longrightarrow> jp_value m s = Some (j, r))"
    and ihm: "\<forall>kvs s kvs' r. jp_members n kvs s = Some (kvs', r) \<longrightarrow>
                  length r < length s \<and> (\<forall>m. length s - length r \<le> m \<longrightarrow> jp_members m kvs s = Some (kvs', r))"
    and run: "jp_members (Suc n) kvs s = Some (kvs', r)"
  shows "length r < length s \<and> (\<forall>m. length s - length r \<le> m \<longrightarrow> jp_members m kvs s = Some (kvs', r))"
proof -
  obtain k r0 r1 v r2 d r3 where key: "jp_string s = Some (k, r0)" and col: "skip_ws r0 = CHR '':'' # r1"
    and v: "jp_value n (skip_ws r1) = Some (v, r2)" and sk: "skip_ws r2 = d # r3"
    and rest: "(d = CHR ''}'' \<and> kvs' = dict_set kvs k v \<and> r = r3)
               \<or> (\<exists>r4. d = CHR '','' \<and> skip_ws r3 = CHR 0x22 # r4
                      \<and> jp_members n (dict_set kvs k v) r4 = Some (kvs', r))"
    using jp_members_Suc_Some [OF run] by (elim exE conjE) (rule that; assumption)
  note iv = ihv [rule_format, OF v]
  have l0: "length r0 < length s" by (rule jp_string_shorter [OF key])
  have l1: "length (skip_ws r1) < length r0" using skip_ws_le [of r0] skip_ws_le [of r1] col by simp
  have l3: "length r3 < length r2" using skip_ws_le [of r2] sk by simp
  consider (close) "d = CHR ''}''" "kvs' = dict_set kvs k v" "r = r3"
    | (more) r4 where "d = CHR '',''" "skip_ws r3 = CHR 0x22 # r4"
        "jp_members n (dict_set kvs k v) r4 = Some (kvs', r)"
    using rest by blast
  then show ?thesis
  proof cases
    case close
    show ?thesis
    proof (intro conjI allI impI)
      show "length r < length s" using iv l0 l1 l3 close by simp
      fix m assume "length s - length r \<le> m"
      then obtain m' where "m = Suc m'" "length (skip_ws r1) - length r2 \<le> m'"
        using iv l0 l1 l3 close by (cases m) auto
      then show "jp_members m kvs s = Some (kvs', r)" using iv key col sk close by simp
    qed
  next
    case more
    note im = ihm [rule_format, OF more(3)]
    have l4: "length r4 < length r3" using skip_ws_le [of r3] more(2) by simp
    show ?thesis
    proof (intro conjI allI impI)
      show "length r < length s" using iv im l0 l1 l3 l4 by simp
      fix m assume "length s - length r \<le> m"
      then obtain m' where "m = Suc m'" "length (skip_ws r1) - length r2 \<le> m'" "length r4 - length r \<le> m'"
        using iv im l0 l1 l3 l4 by (cases m) auto
      then show "jp_members m kvs s = Some (kvs', r)" using iv im key col sk more by simp
    qed
  qed
qed

lemma jp_fuel_enough:
  "(\<forall>s j r. jp_value n s = Some (j, r) \<longrightarrow>
      length r < length s \<and> (\<forall>m. length s - length r \<le> m \<longrightarrow> jp_value m s = Some (j, r)))
   \<and> (\<forall>acc s xs r. jp_elems n acc s = Some (xs, r) \<longrightarrow>
      length r < length s \<and> (\<forall>m. length s - length r \<le> m \<longrightarrow> jp_elems m acc s = Some (xs, r)))
   \<and> (\<forall>kvs s kvs' r. jp_members n kvs s = Some (kvs', r) \<longrightarrow>
      length r < length s \<and> (\<forall>m. length s - length r \<le> m \<longrightarrow> jp_members m kvs s = Some (kvs', r)))"
proof (induction n)
  case 0
  then show ?case by simp
next
  case (Suc n)
  note ihv = Suc.IH [THEN conjunct1]
    and ihe = Suc.IH [THEN conjunct2, THEN conjunct1]
    and ihm = Suc.IH [THEN conjunct2, THEN conjunct2]
  show ?case
    apply (rule conjI)
     apply (intro allI impI)
     apply (erule jp_value_fuel_step [OF ihe ihm])
    apply (rule conjI)
     apply (intro allI impI)
     apply (erule jp_elems_fuel_step [OF ihv ihe])
    apply (intro allI impI)
    apply (erule jp_members_fuel_step [OF ihv ihm])
    done
qed

lemma json_loads_any_fuel:
  "jp_value n (skip_ws s) = Some (j, r) \<Longrightarrow> skip_ws r = [] \<Longrightarrow> json_loads s = Some j"
proof -
  assume v: "jp_value n (skip_ws s) = Some (j, r)" and e: "skip_ws r = []"
  have all: "\<forall>m. length (skip_ws s) - length r \<le> m \<longrightarrow> jp_value m (skip_ws s) = Some (j, r)"
    using conjunct1 [OF jp_fuel_enough [of n]] v by blast
  have "length (skip_ws s) - length r \<le> Suc (length s)" using skip_ws_le [of s] by simp
  then have "jp_value (Suc (length s)) (skip_ws s) = Some (j, r)" by (rule mp [OF spec [OF all]])
  then show ?thesis using e by (simp add: json_loads_def del: jp_value.simps)
qed

text \<open>\<open>json.loads\<close> always returns, and the fuel of its model never changes
  its result: \<open>json_loads s\<close> is \<open>Some j\<close> exactly when the scanner, given any
  amount of fuel, reads \<open>j\<close> from \<open>s\<close> and leaves only whitespace.\<close>

theorem json_loads_total:
  "json_loads s = Some j \<longleftrightarrow> (\<exists>n r. jp_value n (skip_ws s) = Some (j, r) \<and> skip_ws r = [])"
proof
  assume "json_loads s = Some j"
  then show "\<exists>n r. jp_value n (skip_ws s) = Some (j, r) \<and> skip_ws r = []"
    unfolding json_loads_def by (auto split: option.splits if_splits simp del: jp_value.simps intro!: exI)
next
  assume "\<exists>n r. jp_value n (skip_ws s) = Some (j, r) \<and> skip_ws r = []"
  then show "json_loads s = Some j" by (elim exE conjE) (rule json_loads_any_fuel)
qed

subsection \<open>The indented form reads back\<close>

text \<open>\<open>json.dump(..., indent=2)\<close> inserts a newline and indentation after each
  opening bracket and separator and before each closing one; the scanner skips
  that whitespace where it skips blanks.  The fuel is the length of the text.\<close>

lemma dropWhile_replicate_ws: "P c \<Longrightarrow> dropWhile P (replicate n c @ s) = dropWhile P s"
  by (induction n) auto

lemma skip_ws_nl [simp]: "skip_ws (json_nl k @ s) = skip_ws s"
  by (simp add: json_nl_def skip_ws_def json_is_ws_def dropWhile_replicate_ws)

lemma json_dump_ind_scalar:
  "(\<forall>xs. j \<noteq> JArr xs) \<Longrightarrow> (\<forall>kvs. j \<noteq> JObj kvs) \<Longrightarrow> json_dump_ind l j = json_dumps j"
  by (cases j) auto

lemma json_dump_ind_first: "\<exists>c t. json_dump_ind l j = c # t \<and> json_start c"
proof (cases "\<exists>xs. j = JArr xs")
  case True
  then show ?thesis by (auto simp: json_start_def)
next
  case noarr: False
  show ?thesis
  proof (cases "\<exists>kvs. j = JObj kvs")
    case True
    then show ?thesis by (auto simp: json_start_def)
  next
    case False
    with noarr show ?thesis using json_dumps_first [of j] by (simp add: json_dump_ind_scalar)
  qed
qed

lemma skip_ws_dump_ind: "skip_ws (json_dump_ind l j @ r) = json_dump_ind l j @ r"
  using json_dump_ind_first [of l j] json_start_facts by (auto simp: skip_ws_def)

lemma jp_elems_join_ind:
  "(\<And>x n rest. x \<in> set xs \<Longrightarrow> json_wf x \<Longrightarrow> length (json_dump_ind k x) \<le> n \<Longrightarrow> json_delim rest \<Longrightarrow>
       jp_value n (json_dump_ind k x @ rest) = Some (x, rest))
   \<Longrightarrow> xs \<noteq> [] \<Longrightarrow> list_all json_wf xs \<Longrightarrow> length (py_join ('','' @ json_nl k) (map (json_dump_ind k) xs)) < n
   \<Longrightarrow> jp_elems n acc (py_join ('','' @ json_nl k) (map (json_dump_ind k) xs) @ json_nl l @ CHR '']'' # rest)
         = Some (acc @ xs, rest)"
proof (induction xs arbitrary: acc n)
  case (Cons x xs)
  then obtain m where n: "n = Suc m" by (cases n) auto
  show ?case
  proof (cases "xs = []")
    case True
    have "jp_value m (json_dump_ind k x @ json_nl l @ CHR '']'' # rest) = Some (x, json_nl l @ CHR '']'' # rest)"
      using Cons.prems(1,3,4) True n by (auto simp: json_delim_def json_nl_def)
    with True n show ?thesis by simp
  next
    case False
    let ?tl = "py_join ('','' @ json_nl k) (map (json_dump_ind k) xs) @ json_nl l @ CHR '']'' # rest"
    have v: "jp_value m (json_dump_ind k x @ CHR '','' # json_nl k @ ?tl) = Some (x, CHR '','' # json_nl k @ ?tl)"
      using Cons.prems(1,3,4) n False by (auto simp: json_delim_def py_join_Cons)
    have "jp_elems m (acc @ [x]) ?tl = Some ((acc @ [x]) @ xs, rest)"
      using Cons.prems n False by (intro Cons.IH) (auto simp: py_join_Cons)
    moreover obtain y ys where "xs = y # ys" using False by (cases xs) auto
    then have "skip_ws ?tl = ?tl"
      using skip_ws_dump_ind [of k y] by (simp add: py_join_Cons)
    ultimately show ?thesis
      using v n False by (simp add: py_join_Cons)
  qed
qed simp


lemma jp_members_join_ind:
  "(\<And>k' v n rest. (k', v) \<in> set kvs \<Longrightarrow> json_wf v \<Longrightarrow> length (json_dump_ind k v) \<le> n \<Longrightarrow> json_delim rest \<Longrightarrow>
       jp_value n (json_dump_ind k v @ rest) = Some (v, rest))
   \<Longrightarrow> kvs \<noteq> [] \<Longrightarrow> list_all (\<lambda>kv. json_wf (snd kv)) kvs \<Longrightarrow> distinct (map fst (acc @ kvs))
   \<Longrightarrow> length (py_join ('','' @ json_nl k) (map (\<lambda>kv. json_str (fst kv) @ '': '' @ json_dump_ind k (snd kv)) kvs)) < n
   \<Longrightarrow> jp_members n acc (tl (py_join ('','' @ json_nl k)
          (map (\<lambda>kv. json_str (fst kv) @ '': '' @ json_dump_ind k (snd kv)) kvs) @ json_nl l @ CHR ''}'' # rest))
       = Some (acc @ kvs, rest)"
proof (induction kvs arbitrary: acc n)
  case (Cons kv kvs)
  obtain k' v where kv: "kv = (k', v)" by (cases kv)
  from Cons.prems(5) obtain m where n: "n = Suc m" by (cases n) auto
  let ?M = "\<lambda>kv. json_str (fst kv) @ '': '' @ json_dump_ind k (snd kv)"
  have mv: "length (json_dump_ind k v) \<le> m"
    using Cons.prems(5) n by (auto simp: kv py_join_Cons json_str_def)
  have new: "dict_set acc k' v = acc @ [(k', v)]"
    using Cons.prems(4) by (intro dict_set_new) (auto simp: kv)
  let ?T = "if kvs = [] then json_nl l @ CHR ''}'' # rest
            else CHR '','' # json_nl k @ py_join ('','' @ json_nl k) (map ?M kvs) @ json_nl l @ CHR ''}'' # rest"
  have T: "json_delim ?T" by (simp add: json_delim_def json_nl_def)
  have eq: "tl (py_join ('','' @ json_nl k) (map ?M (kv # kvs)) @ json_nl l @ CHR ''}'' # rest) =
      concat (map json_esc k') @ CHR 0x22 # CHR '':'' # CHR '' '' # json_dump_ind k v @ ?T"
    by (simp add: py_join_Cons json_str_def kv)
  have wv: "json_wf v" using Cons.prems(3) by (simp add: kv)
  have v: "jp_value m (json_dump_ind k v @ ?T) = Some (v, ?T)"
    using Cons.prems(1) [of k' v m ?T] wv mv T by (simp add: kv)
  have s: "skip_ws (json_dump_ind k v @ ?T) = json_dump_ind k v @ ?T"
    by (rule skip_ws_dump_ind)
  show ?case
  proof (cases "kvs = []")
    case True
    then show ?thesis using eq v s new n by (simp add: jp_string_esc kv)
  next
    case False
    let ?tl = "py_join ('','' @ json_nl k) (map ?M kvs) @ json_nl l @ CHR ''}'' # rest"
    obtain kv2 kvs2 where kvs: "kvs = kv2 # kvs2" using False by (cases kvs) auto
    have hd: "skip_ws (json_nl k @ ?tl) = CHR 0x22 # tl ?tl"
      by (simp add: kvs py_join_Cons json_str_def)
    have "jp_members m (acc @ [(k', v)]) (tl ?tl) = Some ((acc @ [(k', v)]) @ kvs, rest)"
      using Cons.prems n False by (intro Cons.IH) (auto simp: kv py_join_Cons)
    then show ?thesis
      using eq v s new n False hd by (simp add: jp_string_esc kv)
  qed
qed simp


lemma jp_value_dump_ind_scalar:
  assumes "\<forall>xs. j \<noteq> JArr xs" "\<forall>kvs. j \<noteq> JObj kvs" "json_wf j"
    and "length (json_dump_ind l j) \<le> n" "json_delim rest"
  shows "jp_value n (json_dump_ind l j @ rest) = Some (j, rest)"
proof -
  have "jsize j = 1" using assms(1,2) by (cases j) auto
  moreover have "1 \<le> length (json_dumps j)" using json_dumps_first [of j] by auto
  ultimately show ?thesis
    using jp_value_dumps [OF assms(3) _ assms(5), of n] assms(4) json_dump_ind_scalar [OF assms(1,2)] by simp
qed

lemma jp_value_dump_ind:
  "json_wf j \<Longrightarrow> length (json_dump_ind l j) \<le> n \<Longrightarrow> json_delim rest \<Longrightarrow>
   jp_value n (json_dump_ind l j @ rest) = Some (j, rest)"
proof (induction j arbitrary: l n rest)
  case (JArr xs)
  show ?case
  proof (cases "xs = []")
    case True
    with JArr.prems obtain m where "n = Suc m" by (cases n) auto
    with True show ?thesis by simp
  next
    case False
    let ?J = "py_join ('','' @ json_nl (Suc l)) (map (json_dump_ind (Suc l)) xs)"
    from JArr.prems(2) False obtain m where n: "n = Suc m" and m: "length ?J < m"
      by (cases n) (auto simp: json_nl_def)
    obtain y ys where xs: "xs = y # ys" using False by (cases xs) auto
    let ?tl = "?J @ json_nl l @ CHR '']'' # rest"
    have sk: "skip_ws (json_nl (Suc l) @ ?tl) = ?tl" and nb: "hd ?tl \<noteq> CHR '']''"
      using skip_ws_dump_ind [of "Suc l" y] json_dump_ind_first [of "Suc l" y] json_start_facts
      by (auto simp: xs py_join_Cons)
    have "jp_elems m [] ?tl = Some ([] @ xs, rest)"
    proof (rule jp_elems_join_ind)
      fix x n' rest'
      assume "x \<in> set xs" "json_wf x" "length (json_dump_ind (Suc l) x) \<le> n'" "json_delim rest'"
      then show "jp_value n' (json_dump_ind (Suc l) x @ rest') = Some (x, rest')" by (rule JArr.IH)
    qed (use JArr.prems False m in \<open>auto simp: list_all_iff\<close>)
    with sk nb False show ?thesis by (simp add: n)
  qed
next
  case (JObj kvs)
  show ?case
  proof (cases "kvs = []")
    case True
    with JObj.prems obtain m where "n = Suc m" by (cases n) auto
    with True show ?thesis by simp
  next
    case False
    let ?M = "\<lambda>kv. json_str (fst kv) @ '': '' @ json_dump_ind (Suc l) (snd kv)"
    let ?J = "py_join ('','' @ json_nl (Suc l)) (map ?M kvs)"
    from JObj.prems(2) False obtain m where n: "n = Suc m" and m: "length ?J < m"
      by (cases n) (auto simp: json_nl_def)
    obtain kv kvs2 where kvs: "kvs = kv # kvs2" using False by (cases kvs) auto
    let ?tl = "?J @ json_nl l @ CHR ''}'' # rest"
    have sk: "skip_ws (json_nl (Suc l) @ ?tl) = CHR 0x22 # tl ?tl"
      by (simp add: kvs py_join_Cons json_str_def)
    have ih: "jp_value n (json_dump_ind (Suc l) v @ rest) = Some (v, rest)"
      if "(k, v) \<in> set kvs" "json_wf v" "length (json_dump_ind (Suc l) v) \<le> n" "json_delim rest" for k v n rest
    proof -
      have "v \<in> Basic_BNFs.snds (k, v)" by (simp add: prod_set_defs)
      with that show ?thesis by (intro JObj.IH) auto
    qed
    have "jp_members m [] (tl ?tl) = Some ([] @ kvs, rest)"
      by (rule jp_members_join_ind [OF ih]) (use JObj.prems False m in \<open>auto simp: list_all_iff\<close>)
    with sk False show ?thesis by (simp add: n Let_def)
  qed
qed (rule jp_value_dump_ind_scalar; simp)+

lemma json_loads_dump_indent2: "json_wf j \<Longrightarrow> json_loads (json_dump_indent2 j) = Some j"
proof -
  assume wf: "json_wf j"
  have e: "skip_ws [] = []" by (simp add: skip_ws_def)
  have "json_delim []" by (simp add: json_delim_def)
  then show ?thesis
    using jp_value_dump_ind [OF wf, of 0 "Suc (length (json_dump_indent2 j))" "[]"] skip_ws_dump_ind [of 0 j "[]"] e
    by (simp add: json_loads_def json_dump_indent2_def del: jp_value.simps)
qed


text \<open>The two printers of the program agree up to whitespace: for every
  dict-shaped value, the text \<open>json.dump(..., indent=2)\<close> writes for a content
  file and the line \<open>json.dumps\<close> writes for the ledger are read back by
  \<open>json.loads\<close> as the same value.\<close>

theorem json_dump_indent2_equiv:
  "json_wf j \<Longrightarrow> json_loads (json_dump_indent2 j) = json_loads (json_dumps j)"
  by (simp add: json_loads_dump_indent2 json_loads_json_dumps)

end
