(* ===== verification/Content_Cmd.thy ===== *)
theory Content_Cmd
  imports Ledger Json_Read
begin

text \<open>
  The \<open>content\<close> command, \<open>cmd_content\<close> of \<open>src/scrape.py\<close> (lines 127--172): the
  precondition that the ledger exists, the optional deletion of the content
  files, the stubs read back from the ledger (\<open>load_stubs\<close>), the pending stubs
  (line 158), and the download loop (lines 161--170), whose \<open>try\<close> catches every
  exception of one article, prints it and goes on.  \<open>content_batch\<close> and
  \<open>content_log\<close> are the world-independent specification the loop refines: the
  files it writes and the events it produces, stub by stub.
\<close>

record content_args =
  ca_category :: string
  ca_rescrape :: bool

definition content_dir :: "string \<Rightarrow> path" where
  "content_dir category = path_div (path_div [''data''] category) ''content''"

text \<open>\<open>content_dir / f"{article_id}.json"\<close>: the file name is \<open>str\<close> of the id.\<close>

definition content_file :: "string \<Rightarrow> json \<Rightarrow> path" where
  "content_file category aid = path_div (content_dir category) (py_str aid @ ''.json'')"

text \<open>Line 158: \<open>[s for s in stubs if not (content_dir / f"{s['id']}.json").exists()]\<close>.\<close>

fun content_pending :: "string \<Rightarrow> json list \<Rightarrow> world \<Rightarrow> exn + json list" where
  "content_pending category [] w = Inr []"
| "content_pending category (s # ss) w =
     sbind (py_getitem s ''id'') (\<lambda>aid.
     sbind (content_pending category ss w) (\<lambda>ps.
       Inr (if path_exists (content_file category aid) w then ps else s # ps)))"

text \<open>Whether the content file of a stub is present (the test of line 158).\<close>

definition stub_present :: "string \<Rightarrow> world \<Rightarrow> json \<Rightarrow> bool" where
  "stub_present category w s =
     (case py_getitem s ''id'' of Inr aid \<Rightarrow> path_exists (content_file category aid) w | Inl _ \<Rightarrow> False)"

text \<open>The messages of lines 132, 143, 159, 169 and 172.\<close>

definition missing_ledger_msg :: "string \<Rightarrow> string" where
  "missing_ledger_msg category =
     ''Error: '' @ path_str (list_file category) @ '' not found. Run '' @ [SQ] @ ''scrape list '' @ category
     @ [SQ] @ '' first.''"

definition deleted_msg :: "nat \<Rightarrow> path \<Rightarrow> string" where
  "deleted_msg n cdir = ''Deleted '' @ py_str_int (int n) @ '' existing content files in '' @ path_str cdir"

definition pending_msg :: "nat \<Rightarrow> nat \<Rightarrow> string" where
  "pending_msg n tot = ''Content: '' @ py_str_int (int n) @ ''/'' @ py_str_int (int tot) @ '' articles pending download''"

definition done_msg :: "path \<Rightarrow> string" where
  "done_msg cdir = ''Done. Content saved to '' @ path_str cdir"

definition fetch_error_msg :: "env \<Rightarrow> json \<Rightarrow> exn \<Rightarrow> string" where
  "fetch_error_msg E aid e = [LF] @ ''Error fetching article '' @ py_str aid @ '': '' @ exn_str E e"

fun content_loop :: "env \<Rightarrow> string \<Rightarrow> json list \<Rightarrow> unit py" where
  "content_loop E category [] = py_return ()"
| "content_loop E category (stub # rest) =
     py_bind (py_lift (py_getitem stub ''id'')) (\<lambda>article_id.
     py_bind (py_try
                (py_bind (api_get E ''content'' [(''id'', article_id)]) (\<lambda>content.
                   fs_write (content_file category article_id) (json_dump_indent2 content)))
                (\<lambda>_. True)
                (\<lambda>e. py_print (fetch_error_msg E article_id e))) (\<lambda>_.
     py_bind py_sleep (\<lambda>_.
     content_loop E category rest)))"

definition cmd_content :: "env \<Rightarrow> content_args \<Rightarrow> unit py" where
  "cmd_content E args =
     (let category = ca_category args; lf = list_file category; cdir = content_dir category in
      py_cond (\<lambda>w. \<not> path_exists lf w)
        (py_print (missing_ledger_msg category))
        (py_bind (py_cond (\<lambda>_. ca_rescrape args)
                    (py_bind (fs_unlink_json cdir) (\<lambda>deleted. py_print (deleted_msg deleted cdir)))
                    (py_return ())) (\<lambda>_.
         py_bind (fs_read lf) (\<lambda>body.
         py_bind (\<lambda>w. (content_pending category (load_stubs body) w, w)) (\<lambda>pending.
         py_bind (py_print (pending_msg (length pending) (length (load_stubs body)))) (\<lambda>_.
         py_bind (content_loop E category pending) (\<lambda>_.
         py_print (done_msg cdir))))))))"

text \<open>The world after the optional deletion of lines 138--143.\<close>

definition rescraped :: "content_args \<Rightarrow> world \<Rightarrow> world" where
  "rescraped args w =
     (let cdir = content_dir (ca_category args) in
      if ca_rescrape args
      then w\<lparr>files := Mapping.filter (\<lambda>p _. p \<notin> glob_json cdir w) (files w),
             trace := trace w @ [Print (deleted_msg (card (glob_json cdir w)) cdir)]\<rparr>
      else w)"

subsection \<open>Specification of the download loop\<close>

definition content_fetch :: "env \<Rightarrow> json \<Rightarrow> exn + json" where
  "content_fetch E aid = api_response E (api_request ''content'' [(''id'', aid)])"

fun content_batch :: "env \<Rightarrow> string \<Rightarrow> json list \<Rightarrow> (path, string) mapping \<Rightarrow> (path, string) mapping" where
  "content_batch E category [] fs = fs"
| "content_batch E category (s # ss) fs =
     content_batch E category ss
       (case py_getitem s ''id'' of
          Inr aid \<Rightarrow> (case content_fetch E aid of
                        Inr c \<Rightarrow> Mapping.update (content_file category aid) (json_dump_indent2 c) fs
                      | Inl _ \<Rightarrow> fs)
        | Inl _ \<Rightarrow> fs)"

fun content_log :: "env \<Rightarrow> json list \<Rightarrow> event list" where
  "content_log E [] = []"
| "content_log E (s # ss) =
     (case py_getitem s ''id'' of
        Inr aid \<Rightarrow>
          [Get (api_request ''content'' [(''id'', aid)])]
          @ (case content_fetch E aid of Inl e \<Rightarrow> [Print (fetch_error_msg E aid e)] | Inr _ \<Rightarrow> [])
          @ [Sleep REQUEST_DELAY_MS]
      | Inl _ \<Rightarrow> [])
     @ content_log E ss"

text \<open>The world the specification gives for a run on a ledger with text \<open>L\<close>.\<close>

definition content_after :: "env \<Rightarrow> content_args \<Rightarrow> string \<Rightarrow> world \<Rightarrow> world" where
  "content_after E args L w =
     (let category = ca_category args; w1 = rescraped args w;
          pending = [s \<leftarrow> load_stubs L. \<not> stub_present category w1 s]
      in w1\<lparr>files := content_batch E category pending (files w1),
             trace := trace w1 @ [Print (pending_msg (length pending) (length (load_stubs L)))]
                      @ content_log E pending @ [Print (done_msg (content_dir category))]\<rparr>)"

text \<open>The loop refines the specification: on stubs that all have an id it
  returns, and its world is the one the specification computes.\<close>

lemma content_loop_refines:
  "list_all (\<lambda>s. \<exists>aid. py_getitem s ''id'' = Inr aid) stubs \<Longrightarrow>
   content_loop E category stubs w =
     (Inr (), w\<lparr>files := content_batch E category stubs (files w), trace := trace w @ content_log E stubs\<rparr>)"
proof (induction stubs arbitrary: w)
  case Nil
  then show ?case by (simp add: run_simps)
next
  case (Cons s ss)
  then obtain aid where aid: "py_getitem s ''id'' = Inr aid" by auto
  show ?case
  proof (cases "content_fetch E aid")
    case (Inl e)
    then show ?thesis using Cons aid by (simp add: run_simps content_fetch_def)
  next
    case (Inr c)
    then show ?thesis using Cons aid by (simp add: run_simps content_fetch_def)
  qed
qed

lemma content_pending_filter:
  "list_all (\<lambda>s. \<exists>aid. py_getitem s ''id'' = Inr aid) stubs \<Longrightarrow>
   content_pending category stubs w = Inr [s \<leftarrow> stubs. \<not> stub_present category w s]"
  by (induction stubs) (auto simp: stub_present_def)

subsection \<open>Paths\<close>

lemma split_slash_acc_noslash: "CHR ''/'' \<notin> set s \<Longrightarrow> split_slash_acc cur s = [cur @ s]"
  by (induction s arbitrary: cur) auto

lemma path_div_simple:
  "CHR ''/'' \<notin> set s \<Longrightarrow> s \<noteq> [] \<Longrightarrow> s \<noteq> ''.'' \<Longrightarrow> path_div p s = p @ [s]"
  by (cases s) (auto simp: path_div_def path_parts_def split_slash_acc_noslash)

lemma list_file_eq: "list_file category = path_div [''data''] category @ [''list.jsonl'']"
  by (simp add: list_file_def path_div_simple)

lemma list_file_not_json: "list_file category \<notin> glob_json d w"
  by (simp add: glob_json_def list_file_eq py_endswith_def)

lemma rescraped_ledger: "file_of (rescraped args w) (list_file c) = file_of w (list_file c)"
  using list_file_not_json [of c "content_dir (ca_category args)" w]
  by (simp add: rescraped_def Let_def file_of_def lookup_filter split: option.splits)

lemma split_slash_acc_ne: "split_slash_acc cur s \<noteq> []"
  by (induction s arbitrary: cur) auto

lemma split_slash_acc_append:
  "CHR ''/'' \<notin> set t \<Longrightarrow>
   split_slash_acc cur (s @ t) = butlast (split_slash_acc cur s) @ [last (split_slash_acc cur s) @ t]"
  by (induction s arbitrary: cur) (auto simp: split_slash_acc_noslash split_slash_acc_ne)

lemma path_parts_json: "\<exists>ps x. path_parts (s @ ''.json'') = ps @ [x @ ''.json'']"
proof -
  define X where "X = split_slash_acc [] s"
  define P where "P = (\<lambda>c::string. c \<noteq> [] \<and> c \<noteq> ''.'')"
  have "split_slash_acc [] (s @ ''.json'') = butlast X @ [last X @ ''.json'']"
    by (simp add: X_def split_slash_acc_append)
  moreover have "P (last X @ ''.json'')" by (simp add: P_def)
  ultimately have "filter P (split_slash_acc [] (s @ ''.json'')) = filter P (butlast X) @ [last X @ ''.json'']"
    by simp
  then show ?thesis
    by (cases s) (auto simp: path_parts_def P_def Let_def)
qed

lemma last_content_file: "\<exists>x. last (content_file category aid) = x @ ''.json''"
proof -
  obtain ps x where "path_parts (py_str aid @ ''.json'') = ps @ [x @ ''.json'']"
    using path_parts_json by blast
  then show ?thesis by (auto simp: content_file_def path_div_def)
qed

lemma content_file_not_ledger: "content_file category aid \<noteq> list_file c"
proof
  assume eq: "content_file category aid = list_file c"
  obtain x where "last (content_file category aid) = x @ ''.json''" using last_content_file by blast
  then have "last (x @ ''.json'') = last ''list.jsonl''" using eq by (simp add: list_file_eq)
  then show False by simp
qed

subsection \<open>The command\<close>

text \<open>Without a ledger the command only reports (lines 131--133).\<close>

lemma cmd_content_missing_run:
  "file_of w (list_file (ca_category args)) = None \<Longrightarrow>
   cmd_content E args w = (Inr (), w\<lparr>trace := trace w @ [Print (missing_ledger_msg (ca_category args))]\<rparr>)"
  by (simp add: cmd_content_def Let_def run_simps path_exists_file_of)

text \<open>With a ledger whose stubs all have an id, the command returns, and its
  world is the specification's: the deletion, the pending stubs of the world
  after it, then the batch.\<close>

lemma content_pending_Inr:
  "content_pending category ss w = Inr ps \<Longrightarrow>
   list_all (\<lambda>s. \<exists>aid. py_getitem s ''id'' = Inr aid) ss \<and> ps = [s \<leftarrow> ss. \<not> stub_present category w s]"
  by (induction ss arbitrary: ps) (auto simp: stub_present_def split: sum.splits)

lemma content_pending_Inl:
  "\<not> list_all (\<lambda>s. \<exists>aid. py_getitem s ''id'' = Inr aid) ss \<Longrightarrow> \<exists>e. content_pending category ss w = Inl e"
  by (induction ss) (auto simp: sbind_def split: sum.splits)

lemma content_rescrape_step:
  "py_cond (\<lambda>_. ca_rescrape args)
      (py_bind (fs_unlink_json (content_dir (ca_category args))) (\<lambda>deleted.
         py_print (deleted_msg deleted (content_dir (ca_category args)))))
      (py_return ()) w = (Inr (), rescraped args w)"
  by (simp add: run_simps rescraped_def fs_unlink_json_def Let_def)

lemma cmd_content_pending_fail:
  assumes "file_of w (list_file (ca_category args)) = Some L"
    and "content_pending (ca_category args) (load_stubs L) (rescraped args w) = Inl e"
  shows "cmd_content E args w = (Inl e, rescraped args w)"
  using assms rescraped_ledger [of args w] content_rescrape_step [of args w]
  by (simp add: cmd_content_def Let_def run_simps path_exists_file_of)

lemma cmd_content_pending_ok:
  assumes "file_of w (list_file (ca_category args)) = Some L"
    and "content_pending (ca_category args) (load_stubs L) (rescraped args w) = Inr ps"
  shows "cmd_content E args w = (Inr (), content_after E args L w)"
proof -
  note pend = content_pending_Inr [OF assms(2)]
  then have ids: "list_all (\<lambda>s. \<exists>aid. py_getitem s ''id'' = Inr aid) ps"
    by (auto simp: list_all_iff)
  show ?thesis
    using assms rescraped_ledger [of args w] content_rescrape_step [of args w] pend content_loop_refines [OF ids]
    by (simp add: cmd_content_def content_after_def Let_def run_simps path_exists_file_of)
qed

text \<open>Every outcome of the command on an existing ledger: either computing the
  pending stubs raised (a stub without an id) after the deletion, or the
  command returned with the specification's world.\<close>

lemma cmd_content_outcome:
  assumes "file_of w (list_file (ca_category args)) = Some L"
  shows "(\<exists>e. cmd_content E args w = (Inl e, rescraped args w))
         \<or> cmd_content E args w = (Inr (), content_after E args L w)"
  using cmd_content_pending_fail [OF assms] cmd_content_pending_ok [OF assms]
  by (cases "content_pending (ca_category args) (load_stubs L) (rescraped args w)") auto

lemma content_batch_other:
  "(\<forall>aid. p \<noteq> content_file category aid) \<Longrightarrow>
   Mapping.lookup (content_batch E category ss fs) p = Mapping.lookup fs p"
  by (induction ss arbitrary: fs) (auto simp: lookup_update' split: sum.splits)

lemma content_batch_changed:
  "Mapping.lookup (content_batch E category ss fs) p \<noteq> Mapping.lookup fs p \<Longrightarrow>
   \<exists>s\<in>set ss. \<exists>aid c. py_getitem s ''id'' = Inr aid \<and> p = content_file category aid
     \<and> content_fetch E aid = Inr c \<and> Mapping.lookup (content_batch E category ss fs) p = Some (json_dump_indent2 c)"
proof (induction ss arbitrary: fs)
  case Nil
  then show ?case by simp
next
  case (Cons s ss)
  define fs1 where "fs1 = (case py_getitem s ''id'' of
          Inr aid \<Rightarrow> (case content_fetch E aid of
                        Inr c \<Rightarrow> Mapping.update (content_file category aid) (json_dump_indent2 c) fs
                      | Inl _ \<Rightarrow> fs)
        | Inl _ \<Rightarrow> fs)"
  have run: "content_batch E category (s # ss) fs = content_batch E category ss fs1"
    by (simp add: fs1_def)
  show ?case
  proof (cases "Mapping.lookup (content_batch E category ss fs1) p = Mapping.lookup fs1 p")
    case True
    with Cons.prems run have "Mapping.lookup fs1 p \<noteq> Mapping.lookup fs p" by simp
    then show ?thesis using True run
      by (auto simp: fs1_def lookup_update' split: sum.splits if_splits)
  next
    case False
    from Cons.IH [OF False] show ?thesis using run by auto
  qed
qed

lemma gets_content_log:
  "list_all (\<lambda>s. \<exists>aid. py_getitem s ''id'' = Inr aid) ss \<Longrightarrow>
   list_all2 (\<lambda>s r. \<exists>aid. py_getitem s ''id'' = Inr aid \<and> r = api_request ''content'' [(''id'', aid)])
     ss (gets (content_log E ss))"
  by (induction ss) (auto simp: sbind_def split: sum.splits)

subsection \<open>Properties of the command\<close>

lemma cmd_content_keeps_ledgers:
  "file_of (snd (cmd_content E args w)) (list_file c) = file_of w (list_file c)"
proof (cases "file_of w (list_file (ca_category args))")
  case None
  then show ?thesis by (simp add: cmd_content_missing_run)
next
  case (Some L)
  have other: "\<forall>aid. list_file c \<noteq> content_file (ca_category args) aid"
    using content_file_not_ledger by metis
  from cmd_content_outcome [OF Some] show ?thesis
  proof
    assume "\<exists>e. cmd_content E args w = (Inl e, rescraped args w)"
    then show ?thesis by (auto simp: rescraped_ledger)
  next
    assume "cmd_content E args w = (Inr (), content_after E args L w)"
    then show ?thesis
      using content_batch_other [OF other] rescraped_ledger [of args w c]
      by (simp add: content_after_def Let_def file_of_def)
  qed
qed

text \<open>C7. \<open>cmd_content\<close> never modifies a ledger, of its category or another, on
  any outcome: the deletion of \<open>--rescrape\<close> only matches \<open>*.json\<close> names, and
  every content file name ends in \<open>.json\<close> whatever the id.\<close>

theorem cmd_content_ledger_unchanged:
  "file_of (snd (cmd_content E args w)) (list_file c) = file_of w (list_file c)"
  by (rule cmd_content_keeps_ledgers)

text \<open>C8. Missing precondition (spec, section 4.4): without a ledger the command
  does not raise, writes no file and makes no request.\<close>

theorem cmd_content_missing_ledger:
  assumes "file_of w (list_file (ca_category args)) = None"
  shows "fst (cmd_content E args w) = Inr () \<and> files (snd (cmd_content E args w)) = files w
         \<and> gets (trace (snd (cmd_content E args w))) = gets (trace w)"
  using assms by (simp add: cmd_content_missing_run)

text \<open>C9. Refinement: on a ledger whose stubs all have an id, \<open>cmd_content\<close>
  returns and its world is the specification's \<open>content_after\<close>: the optional
  deletion, the stubs whose content file is absent after it, and the batch
  \<open>content_batch\<close>/\<open>content_log\<close> over them, which is world-independent.\<close>

theorem cmd_content_refines:
  assumes "file_of w (list_file (ca_category args)) = Some L"
    and "list_all (\<lambda>s. \<exists>aid. py_getitem s ''id'' = Inr aid) (load_stubs L)"
  shows "cmd_content E args w = (Inr (), content_after E args L w)"
  using cmd_content_pending_ok [OF assms(1) content_pending_filter [OF assms(2)]] .

text \<open>C10. Failure isolation (spec, sections 4.4 and 7): every pending stub is
  requested exactly once, in ledger order, whatever happened to the requests
  before it.\<close>

theorem cmd_content_fetches:
  assumes "file_of w (list_file (ca_category args)) = Some L"
    and "list_all (\<lambda>s. \<exists>aid. py_getitem s ''id'' = Inr aid) (load_stubs L)"
  shows "list_all2 (\<lambda>s r. \<exists>aid. py_getitem s ''id'' = Inr aid \<and> r = api_request ''content'' [(''id'', aid)])
           [s \<leftarrow> load_stubs L. \<not> stub_present (ca_category args) (rescraped args w) s]
           (gets (drop (length (trace w)) (trace (snd (cmd_content E args w)))))"
proof -
  let ?ps = "[s \<leftarrow> load_stubs L. \<not> stub_present (ca_category args) (rescraped args w) s]"
  have ids: "list_all (\<lambda>s. \<exists>aid. py_getitem s ''id'' = Inr aid) ?ps"
    using assms(2) by (simp add: list_all_iff)
  have tr: "\<exists>ev. trace (rescraped args w) = trace w @ ev \<and> gets ev = []"
    by (simp add: rescraped_def Let_def)
  then show ?thesis
    using cmd_content_pending_ok [OF assms(1) content_pending_filter [OF assms(2)]] gets_content_log [OF ids, of E]
    by (auto simp: content_after_def Let_def)
qed

lemma cmd_content_changed_file:
  assumes "file_of w (list_file (ca_category args)) = Some L"
    and "file_of (snd (cmd_content E args w)) p \<noteq> file_of (rescraped args w) p"
  shows "\<exists>s\<in>set (load_stubs L). \<exists>aid c. py_getitem s ''id'' = Inr aid
           \<and> p = content_file (ca_category args) aid \<and> content_fetch E aid = Inr c
           \<and> file_of (snd (cmd_content E args w)) p = Some (json_dump_indent2 c)"
  using cmd_content_outcome [OF assms(1)]
proof
  assume "\<exists>e. cmd_content E args w = (Inl e, rescraped args w)"
  then show ?thesis using assms(2) by auto
next
  assume run: "cmd_content E args w = (Inr (), content_after E args L w)"
  let ?ps = "[s \<leftarrow> load_stubs L. \<not> stub_present (ca_category args) (rescraped args w) s]"
  have "Mapping.lookup (content_batch E (ca_category args) ?ps (files (rescraped args w))) p
        \<noteq> Mapping.lookup (files (rescraped args w)) p"
    using assms(2) run by (simp add: content_after_def Let_def file_of_def)
  from content_batch_changed [OF this] show ?thesis
    using run by (auto simp: content_after_def Let_def file_of_def)
qed

text \<open>C11. Content records (spec, section 3): a content file that the run
  changed holds the pretty-printed response fetched for the id of a stub of
  the ledger, and is that stub's file.\<close>

theorem cmd_content_presence:
  assumes "file_of w (list_file (ca_category args)) = Some L"
    and "file_of (snd (cmd_content E args w)) p \<noteq> file_of (rescraped args w) p"
  shows "\<exists>s\<in>set (load_stubs L). \<exists>aid c. py_getitem s ''id'' = Inr aid
           \<and> p = content_file (ca_category args) aid \<and> content_fetch E aid = Inr c
           \<and> file_of (snd (cmd_content E args w)) p = Some (json_dump_indent2 c)"
  using cmd_content_changed_file [OF assms] .

text \<open>C16. A stub without an id aborts the whole command before any download:
  computing the pending stubs (line 158) raises, after the optional deletion,
  so no content is requested; the spec says malformed ledger lines are
  skipped.\<close>

theorem cmd_content_stub_without_id:
  assumes "file_of w (list_file (ca_category args)) = Some L"
    and "\<not> list_all (\<lambda>s. \<exists>aid. py_getitem s ''id'' = Inr aid) (load_stubs L)"
  shows "\<exists>e. cmd_content E args w = (Inl e, rescraped args w)"
proof -
  obtain e where "content_pending (ca_category args) (load_stubs L) (rescraped args w) = Inl e"
    using content_pending_Inl [OF assms(2)] by blast
  then show ?thesis using cmd_content_pending_fail [OF assms(1)] by blast
qed

subsection \<open>Where the command writes\<close>

text \<open>An integer id names a file directly inside the content directory; the
  deletion of \<open>--rescrape\<close> only removes \<open>*.json\<close> files directly inside it.\<close>

lemma py_str_int_no_slash: "CHR ''/'' \<notin> set (py_str_int i)"
proof -
  have "\<not> is_digit (CHR ''/'')" by (simp add: is_digit_def)
  then show ?thesis
    using nat_digits_digits [of "nat \<bar>i\<bar>"] by (auto simp: py_str_int_abs list_all_iff)
qed

lemma content_file_int:
  "content_file category (JInt i) = content_dir category @ [py_str_int i @ ''.json'']"
  using py_str_int_no_slash [of i]
  by (simp add: content_file_def py_str_def path_div_simple)

lemma rescraped_changed:
  "file_of (rescraped args w) p \<noteq> file_of w p \<Longrightarrow>
   \<exists>x. p = content_dir (ca_category args) @ [x] \<and> py_endswith x ''.json''"
  by (cases p rule: rev_cases)
     (auto simp: rescraped_def Let_def file_of_def lookup_filter glob_json_def split: option.splits if_splits)


lemma content_batch_int_changed:
  assumes "Mapping.lookup (content_batch E category ss fs) p \<noteq> Mapping.lookup fs p"
    and "\<forall>s\<in>set ss. \<exists>i. py_getitem s ''id'' = Inr (JInt i)"
  shows "\<exists>x. p = content_dir category @ [x] \<and> py_endswith x ''.json''"
proof -
  from content_batch_changed [OF assms(1)] obtain s aid where
    s: "s \<in> set ss" "py_getitem s ''id'' = Inr aid" "p = content_file category aid" by blast
  then obtain i where "aid = JInt i" using assms(2) by fastforce
  then show ?thesis using s(3) by (simp add: content_file_int py_endswith_def)
qed

text \<open>C19. Confinement of the content files: when every stub of the ledger
  has an integer id (as the upstream API serves them), \<open>cmd_content\<close> changes
  no file but files \<open>data/<category>/content/<name>.json\<close> directly inside its
  category's content directory.  An id that is a string is spliced into the
  path unchecked (line 166), see \<open>cmd_content_id_escape\<close>.\<close>

theorem cmd_content_confined:
  assumes ledger: "file_of w (list_file (ca_category args)) = Some L"
    and ids: "\<forall>s\<in>set (load_stubs L). \<exists>i. py_getitem s ''id'' = Inr (JInt i)"
  shows "\<forall>p. file_of (snd (cmd_content E args w)) p \<noteq> file_of w p \<longrightarrow>
           (\<exists>x. p = content_dir (ca_category args) @ [x] \<and> py_endswith x ''.json'')"
proof (intro allI impI)
  fix p assume changed: "file_of (snd (cmd_content E args w)) p \<noteq> file_of w p"
  define w1 where "w1 = rescraped args w"
  define pending where "pending = [s \<leftarrow> load_stubs L. \<not> stub_present (ca_category args) w1 s]"
  have "list_all (\<lambda>s. \<exists>aid. py_getitem s ''id'' = Inr aid) (load_stubs L)"
    using ids by (fastforce simp: list_all_iff)
  then have "content_pending (ca_category args) (load_stubs L) w1 = Inr pending"
    by (simp add: content_pending_filter pending_def)
  then have run: "cmd_content E args w = (Inr (), content_after E args L w)"
    using cmd_content_pending_ok [OF ledger] by (simp add: w1_def)
  have files: "file_of (content_after E args L w) p = Mapping.lookup (content_batch E (ca_category args) pending (files w1)) p"
    by (simp add: content_after_def Let_def file_of_def w1_def pending_def)
  have pids: "\<forall>s\<in>set pending. \<exists>i. py_getitem s ''id'' = Inr (JInt i)"
    using ids by (simp add: pending_def)
  show "\<exists>x. p = content_dir (ca_category args) @ [x] \<and> py_endswith x ''.json''"
  proof (cases "file_of w1 p = file_of w p")
    case True
    then have "Mapping.lookup (content_batch E (ca_category args) pending (files w1)) p \<noteq> Mapping.lookup (files w1) p"
      using changed run files by (simp add: file_of_def)
    then show ?thesis by (rule content_batch_int_changed [OF _ pids])
  next
    case False
    then show ?thesis unfolding w1_def by (rule rescraped_changed)
  qed
qed

text \<open>C22. Content files read back (spec, section 3, with the codec): a content
  file the run changed is the file of a stub of the ledger, and \<open>json.loads\<close>
  of its text is exactly the response fetched for that stub's id.\<close>

theorem cmd_content_readback:
  assumes "file_of w (list_file (ca_category args)) = Some L"
    and "file_of (snd (cmd_content E args w)) p \<noteq> file_of (rescraped args w) p"
  shows "\<exists>s\<in>set (load_stubs L). \<exists>aid c t. py_getitem s ''id'' = Inr aid
           \<and> p = content_file (ca_category args) aid \<and> content_fetch E aid = Inr c
           \<and> file_of (snd (cmd_content E args w)) p = Some t \<and> json_loads t = Some c"
proof -
  from cmd_content_changed_file [OF assms] obtain s aid c where
    h: "s \<in> set (load_stubs L)" "py_getitem s ''id'' = Inr aid" "p = content_file (ca_category args) aid"
      "content_fetch E aid = Inr c" "file_of (snd (cmd_content E args w)) p = Some (json_dump_indent2 c)"
    by blast
  have "json_wf c" using h(4) by (simp add: content_fetch_def api_response_wf)
  then have "json_loads (json_dump_indent2 c) = Some c" by (rule json_loads_dump_indent2)
  with h show ?thesis by blast
qed

lemma cmd_content_typed_returns:
  assumes "file_of w (list_file (ca_category args)) = Some L" and "stubs_typed L"
  shows "cmd_content E args w = (Inr (), content_after E args L w)"
proof -
  have "content_pending (ca_category args) (load_stubs L) (rescraped args w)
        = Inr [s \<leftarrow> load_stubs L. \<not> stub_present (ca_category args) (rescraped args w) s]"
    using stubs_typed_ids [OF assms(2)] by (rule content_pending_filter)
  then show ?thesis by (rule cmd_content_pending_ok [OF assms(1)])
qed

subsection \<open>String ids\<close>

lemma content_file_abs:
  assumes "CHR ''/'' \<notin> set t"
  shows "content_file category (JStr (CHR ''/'' # t)) = [''/'', t @ ''.json'']"
proof -
  have "split_slash_acc [] (CHR ''/'' # t @ ''.json'') = [[], t @ ''.json'']"
    using assms by (simp add: split_slash_acc_noslash)
  then show ?thesis by (simp add: content_file_def py_str_def path_div_def path_parts_def)
qed

lemma content_dir_last: "last (content_dir category) = ''content''"
  by (simp add: content_dir_def path_div_simple)

lemma rescraped_root_file:
  "file_of (rescraped args w) [''/'', x] = file_of w [''/'', x]"
proof (rule ccontr)
  assume "file_of (rescraped args w) [''/'', x] \<noteq> file_of w [''/'', x]"
  then obtain y where e: "[''/'', x] = content_dir (ca_category args) @ [y]"
    using rescraped_changed by blast
  then have "content_dir (ca_category args) = [''/'']"
    by (cases "content_dir (ca_category args)") auto
  then show False using content_dir_last [of "ca_category args"] by simp
qed

lemma content_batch_snoc:
  "content_batch E category (xs @ [s]) fs = content_batch E category [s] (content_batch E category xs fs)"
  by (induction xs arbitrary: fs) simp_all

text \<open>C32. The id of a stub is spliced into the content path unchecked (line
  163): when the last stub of the ledger has the string id \<open>"/t"\<close> (\<open>t\<close> a plain
  name), the run writes the response fetched for it to the absolute path
  \<open>/t.json\<close>, outside the data directory, replacing nothing that was there.\<close>

theorem cmd_content_absolute_id:
  assumes "file_of w (list_file (ca_category args)) = Some L"
    and "list_all (\<lambda>s. \<exists>aid. py_getitem s ''id'' = Inr aid) (load_stubs L)"
    and "load_stubs L = ss @ [st]" "py_getitem st ''id'' = Inr (JStr (CHR ''/'' # t))" "CHR ''/'' \<notin> set t"
    and "file_of w [''/'', t @ ''.json''] = None"
    and "content_fetch E (JStr (CHR ''/'' # t)) = Inr c"
  shows "fst (cmd_content E args w) = Inr ()
         \<and> file_of (snd (cmd_content E args w)) [''/'', t @ ''.json''] = Some (json_dump_indent2 c)"
proof -
  let ?w1 = "rescraped args w"
  have run: "cmd_content E args w = (Inr (), content_after E args L w)"
    using cmd_content_pending_ok [OF assms(1) content_pending_filter [OF assms(2)]] .
  have cf: "content_file (ca_category args) (JStr (CHR ''/'' # t)) = [''/'', t @ ''.json'']"
    using content_file_abs [OF assms(5)] .
  have np: "\<not> stub_present (ca_category args) ?w1 st"
    using assms(4,6) cf rescraped_root_file [of args w]
    by (simp add: stub_present_def path_exists_def)
  have "[s \<leftarrow> load_stubs L. \<not> stub_present (ca_category args) ?w1 s]
          = [s \<leftarrow> ss. \<not> stub_present (ca_category args) ?w1 s] @ [st]"
    using assms(3) np by simp
  then show ?thesis
    using run assms(4,7) cf
    by (simp add: content_after_def Let_def content_batch_snoc file_of_def lookup_update')
qed

end
