(* ===== verification/Cli.thy ===== *)
theory Cli
  imports List_Cmd Content_Cmd
begin

text \<open>
  The command line, \<open>main\<close> of \<open>src/scrape.py\<close> (lines 175--219): the parser it
  builds and the dispatch to \<open>cmd_list\<close> or \<open>cmd_content\<close>.  \<open>argparse\<close> is a
  library, so its behaviour for this configuration is modelled from its
  documented algorithm: a token is an option (exact, \<open>--opt=value\<close>, or a unique
  prefix of a long option), a negative number, or a positional; an option that
  stores takes the next token unless it is an option or \<open>--\<close>; \<open>type=int\<close> is
  \<open>int()\<close>; \<open>choices\<close> are checked when the positional is consumed; a
  mutually exclusive group rejects the second of its options; unrecognised
  tokens are collected and rejected after parsing.  Every parse error is
  \<open>SystemExit 2\<close> and \<open>-h\<close> is \<open>SystemExit 0\<close>; the texts \<open>argparse\<close> writes are not
  modelled.
\<close>

datatype cli_cmd = CList list_args | CContent content_args

text \<open>How \<open>argparse\<close> reads one token (\<open>_parse_optional\<close>).\<close>

datatype opt_tok = OPos | OOpt string "string option" | OUnknown | OAmbig

definition neg_number :: "string \<Rightarrow> bool" where
  "neg_number s \<longleftrightarrow>
     (case s of
        c # t \<Rightarrow> c = CHR ''-'' \<and>
          ((t \<noteq> [] \<and> list_all is_digit t)
           \<or> (let ds = takeWhile is_digit t; r = dropWhile is_digit t in
              r \<noteq> [] \<and> hd r = CHR ''.'' \<and> tl r \<noteq> [] \<and> list_all is_digit (tl r)))
      | [] \<Rightarrow> False)"

definition before_eq :: "string \<Rightarrow> string" where
  "before_eq s = takeWhile (\<lambda>c. c \<noteq> CHR ''='') s"

definition after_eq :: "string \<Rightarrow> string option" where
  "after_eq s = (if CHR ''='' \<in> set s then Some (tl (dropWhile (\<lambda>c. c \<noteq> CHR ''='') s)) else None)"

definition classify :: "string list \<Rightarrow> string \<Rightarrow> opt_tok" where
  "classify opts s =
     (if s = [] \<or> hd s \<noteq> CHR ''-'' then OPos
      else if s \<in> set opts then OOpt s None
      else if length s = 1 then OPos
      else if CHR ''='' \<in> set s \<and> before_eq s \<in> set opts then OOpt (before_eq s) (after_eq s)
      else
        (let tuples =
           (if take 2 s = ''--''
            then [(nm, after_eq s). nm \<leftarrow> opts, take 2 nm = ''--'' \<and> take (length (before_eq s)) nm = before_eq s]
            else [(nm, Some (drop 2 s)). nm \<leftarrow> opts, nm = take 2 s]
                 @ [(nm, None). nm \<leftarrow> opts, nm \<noteq> take 2 s \<and> take (length s) nm = s])
         in case tuples of
              [(nm, ex)] \<Rightarrow> OOpt nm ex
            | [] \<Rightarrow> if neg_number s \<or> CHR '' '' \<in> set s then OPos else OUnknown
            | _ \<Rightarrow> OAmbig))"

text \<open>The options of the parsers (lines 176--216).\<close>

definition main_opts :: "string list" where
  "main_opts = [''-h'', ''--help'']"

definition list_opts :: "string list" where
  "list_opts = [''-h'', ''--help'', ''--pages'', ''--articles'', ''--before'', ''--rescrape'']"

definition content_opts :: "string list" where
  "content_opts = [''-h'', ''--help'', ''--rescrape'']"

text \<open>The namespace a subparser fills, and whether it saw unrecognised tokens.\<close>

record pstate =
  ps_category :: "string option"
  ps_pages :: "int option"
  ps_articles :: "int option"
  ps_before :: "string option"
  ps_rescrape :: bool
  ps_extras :: bool

definition pstate0 :: pstate where
  "pstate0 = \<lparr>ps_category = None, ps_pages = None, ps_articles = None, ps_before = None,
              ps_rescrape = False, ps_extras = False\<rparr>"

text \<open>\<open>-h\<close> with a tail: single-dash flags chained in one token.\<close>

definition help_action :: "string \<Rightarrow> string option \<Rightarrow> exn" where
  "help_action nm ex =
     (case ex of
        None \<Rightarrow> SystemExit 0
      | Some r \<Rightarrow> if nm = ''-h'' \<and> r \<noteq> [] \<and> list_all (\<lambda>c. c = CHR ''h'') r then SystemExit 0 else SystemExit 2)"

text \<open>A positional token: the category, checked against \<open>choices\<close>, then extras.\<close>

definition take_positional :: "string \<Rightarrow> pstate \<Rightarrow> exn + pstate" where
  "take_positional t st =
     (if ps_category st = None
      then (if t \<in> set VALID_CATEGORIES then Inr (st\<lparr>ps_category := Some t\<rparr>) else Inl (SystemExit 2))
      else Inr (st\<lparr>ps_extras := True\<rparr>))"

text \<open>\<open>--pages\<close>, \<open>--articles\<close> (\<open>type=int\<close>, one mutually exclusive group,
  lines 191--193) and \<open>--before\<close> with their value.\<close>

definition store_opt :: "string \<Rightarrow> string \<Rightarrow> pstate \<Rightarrow> exn + pstate" where
  "store_opt nm v st =
     (if nm = ''--before'' then Inr (st\<lparr>ps_before := Some v\<rparr>)
      else case py_int_of_string v of
             None \<Rightarrow> Inl (SystemExit 2)
           | Some n \<Rightarrow>
               if nm = ''--pages''
               then (if ps_articles st \<noteq> None then Inl (SystemExit 2) else Inr (st\<lparr>ps_pages := Some n\<rparr>))
               else (if ps_pages st \<noteq> None then Inl (SystemExit 2) else Inr (st\<lparr>ps_articles := Some n\<rparr>)))"

fun sub_positionals :: "string list \<Rightarrow> pstate \<Rightarrow> exn + pstate" where
  "sub_positionals [] st = Inr st"
| "sub_positionals (t # ts) st = sbind (take_positional t st) (sub_positionals ts)"

text \<open>The tokens of a subparser, left to right.\<close>

fun sub_parse :: "string list \<Rightarrow> string list \<Rightarrow> pstate \<Rightarrow> exn + pstate" where
  "sub_parse opts [] st = Inr st"
| "sub_parse opts (t # ts) st =
     (if t = ''--'' then sub_positionals ts st
      else case classify opts t of
        OPos \<Rightarrow> sbind (take_positional t st) (sub_parse opts ts)
      | OAmbig \<Rightarrow> Inl (SystemExit 2)
      | OUnknown \<Rightarrow> sub_parse opts ts (st\<lparr>ps_extras := True\<rparr>)
      | OOpt nm ex \<Rightarrow>
          if nm = ''-h'' \<or> nm = ''--help'' then Inl (help_action nm ex)
          else if nm = ''--rescrape''
          then (if ex = None then sub_parse opts ts (st\<lparr>ps_rescrape := True\<rparr>) else Inl (SystemExit 2))
          else (case ex of
                  Some v \<Rightarrow> sbind (store_opt nm v st) (sub_parse opts ts)
                | None \<Rightarrow>
                    (case ts of
                       v # ts' \<Rightarrow>
                         if v \<noteq> ''--'' \<and> classify opts v = OPos
                         then sbind (store_opt nm v st) (sub_parse opts ts')
                         else Inl (SystemExit 2)
                     | [] \<Rightarrow> Inl (SystemExit 2))))"

text \<open>The end of a subparser: \<open>category\<close> is required.\<close>

definition sub_finish :: "exn + pstate \<Rightarrow> exn + pstate" where
  "sub_finish r = sbind r (\<lambda>st. if ps_category st = None then Inl (SystemExit 2) else Inr st)"

definition to_cmd :: "string \<Rightarrow> pstate \<Rightarrow> cli_cmd" where
  "to_cmd command st =
     (if command = ''list''
      then CList \<lparr>la_category = the (ps_category st), la_pages = ps_pages st, la_articles = ps_articles st,
                  la_before = ps_before st, la_rescrape = ps_rescrape st\<rparr>
      else CContent \<lparr>ca_category = the (ps_category st), ca_rescrape = ps_rescrape st\<rparr>)"

text \<open>The subcommand (\<open>required=True\<close>, line 186) and its parser; unrecognised
  tokens of either level are rejected once both have parsed.\<close>

definition dispatch :: "bool \<Rightarrow> string \<Rightarrow> string list \<Rightarrow> exn + cli_cmd" where
  "dispatch extras command ts =
     (if command = ''list'' \<or> command = ''content''
      then sbind (sub_finish (sub_parse (if command = ''list'' then list_opts else content_opts) ts pstate0))
             (\<lambda>st. if extras \<or> ps_extras st then Inl (SystemExit 2) else Inr (to_cmd command st))
      else Inl (SystemExit 2))"

fun main_parse :: "bool \<Rightarrow> string list \<Rightarrow> exn + cli_cmd" where
  "main_parse extras [] = Inl (SystemExit 2)"
| "main_parse extras (t # ts) =
     (if t = ''--'' then (case ts of [] \<Rightarrow> Inl (SystemExit 2) | c # ts' \<Rightarrow> dispatch extras c ts')
      else case classify main_opts t of
        OPos \<Rightarrow> dispatch extras t ts
      | OOpt nm ex \<Rightarrow> Inl (help_action nm ex)
      | OUnknown \<Rightarrow> main_parse True ts
      | OAmbig \<Rightarrow> Inl (SystemExit 2))"

definition parse_args :: "string list \<Rightarrow> exn + cli_cmd" where
  "parse_args argv = main_parse False argv"

text \<open>What every namespace the parser builds satisfies: at most one of the
  two limits, and a category from \<open>VALID_CATEGORIES\<close>.\<close>

definition pst_ok :: "pstate \<Rightarrow> bool" where
  "pst_ok st \<longleftrightarrow> (ps_pages st = None \<or> ps_articles st = None)
     \<and> (case ps_category st of None \<Rightarrow> True | Some c \<Rightarrow> c \<in> set VALID_CATEGORIES)"

text \<open>\<open>main\<close> (lines 175--219): parse, then \<open>args.func(args)\<close>.\<close>

definition main :: "env \<Rightarrow> string list \<Rightarrow> unit py" where
  "main E argv =
     (case parse_args argv of
        Inl e \<Rightarrow> py_raise e
      | Inr (CList a) \<Rightarrow> py_bind (cmd_list E a) (\<lambda>_. py_return ())
      | Inr (CContent a) \<Rightarrow> cmd_content E a)"

text \<open>A command line for a command: the subcommand, the category, then each
  option that is set, written \<open>--opt=value\<close> so that any value (one starting
  with a dash included) is taken as the option's value.\<close>

definition opt_eq :: "string \<Rightarrow> string \<Rightarrow> string" where
  "opt_eq nm v = nm @ CHR ''='' # v"

definition cli_argv :: "cli_cmd \<Rightarrow> string list" where
  "cli_argv c =
     (case c of
        CList a \<Rightarrow>
          [''list'', la_category a]
          @ (case la_pages a of None \<Rightarrow> [] | Some n \<Rightarrow> [opt_eq ''--pages'' (py_str_int n)])
          @ (case la_articles a of None \<Rightarrow> [] | Some n \<Rightarrow> [opt_eq ''--articles'' (py_str_int n)])
          @ (case la_before a of None \<Rightarrow> [] | Some s \<Rightarrow> [opt_eq ''--before'' s])
          @ (if la_rescrape a then [''--rescrape''] else [])
      | CContent a \<Rightarrow> [''content'', ca_category a] @ (if ca_rescrape a then [''--rescrape''] else []))"

definition cli_valid :: "cli_cmd \<Rightarrow> bool" where
  "cli_valid c =
     (case c of
        CList a \<Rightarrow> la_category a \<in> set VALID_CATEGORIES \<and> (la_pages a = None \<or> la_articles a = None)
      | CContent a \<Rightarrow> ca_category a \<in> set VALID_CATEGORIES)"

subsection \<open>The namespace invariant\<close>

lemma pstate0_ok [simp]: "pst_ok pstate0"
  by (simp add: pst_ok_def pstate0_def)

lemma take_positional_ok: "pst_ok st \<Longrightarrow> take_positional t st = Inr st' \<Longrightarrow> pst_ok st'"
  by (auto simp: take_positional_def pst_ok_def split: if_splits)

lemma store_opt_ok: "pst_ok st \<Longrightarrow> store_opt nm v st = Inr st' \<Longrightarrow> pst_ok st'"
  by (auto simp: store_opt_def pst_ok_def split: if_splits option.splits)

lemma sub_positionals_ok: "pst_ok st \<Longrightarrow> sub_positionals ts st = Inr st' \<Longrightarrow> pst_ok st'"
  by (induction ts arbitrary: st) (auto dest: take_positional_ok)

lemma extras_ok [simp]: "pst_ok (st\<lparr>ps_extras := b\<rparr>) = pst_ok st"
  and rescrape_ok [simp]: "pst_ok (st\<lparr>ps_rescrape := b\<rparr>) = pst_ok st"
  by (simp_all add: pst_ok_def)

lemma sub_parse_ok: "pst_ok st \<Longrightarrow> sub_parse opts ts st = Inr st' \<Longrightarrow> pst_ok st'"
proof (induction opts ts st rule: sub_parse.induct)
  case (1 opts st)
  then show ?case by simp
next
  case (2 opts t ts st)
  show ?case
  proof (cases "t = ''--''")
    case True
    then show ?thesis using 2 sub_positionals_ok by auto
  next
    case False
    then show ?thesis using "2.prems" "2.IH" [OF False]
      by (auto dest: take_positional_ok store_opt_ok
               split: opt_tok.splits if_splits option.splits list.splits)
  qed
qed

lemma dispatch_ok:
  "dispatch extras command ts = Inr c \<Longrightarrow>
   \<exists>st. pst_ok st \<and> ps_category st \<noteq> None \<and> c = to_cmd command st"
  by (auto simp: dispatch_def sub_finish_def dest: sub_parse_ok [OF pstate0_ok] split: if_splits)

lemma main_parse_ok:
  "main_parse extras argv = Inr c \<Longrightarrow> \<exists>command st. pst_ok st \<and> ps_category st \<noteq> None \<and> c = to_cmd command st"
  by (induction extras argv rule: main_parse.induct)
     (auto dest!: dispatch_ok split: if_splits list.splits opt_tok.splits)

lemma parse_args_cases:
  "parse_args argv = Inr c \<Longrightarrow>
   (\<exists>a. c = CList a \<and> (la_pages a = None \<or> la_articles a = None) \<and> la_category a \<in> set VALID_CATEGORIES)
   \<or> (\<exists>a. c = CContent a \<and> ca_category a \<in> set VALID_CATEGORIES)"
  unfolding parse_args_def by (drule main_parse_ok) (auto simp: to_cmd_def pst_ok_def split: if_splits)

lemma list_file_valid: "c \<in> set VALID_CATEGORIES \<Longrightarrow> list_file c = [''data'', c, ''list.jsonl'']"
  by (auto simp: VALID_CATEGORIES_def list_file_eq path_div_simple)

lemma main_list_world:
  "parse_args argv = Inr (CList a) \<Longrightarrow> snd (main E argv w) = snd (cmd_list E a w)"
  by (simp add: main_def run_simps split: prod.split sum.split)

lemma main_content_world:
  "parse_args argv = Inr (CContent a) \<Longrightarrow> snd (main E argv w) = snd (cmd_content E a w)"
  by (simp add: main_def)

subsection \<open>Properties of the command line\<close>

text \<open>C13. Limit mutual exclusivity (spec, section 6): no parse of the command
  line yields a \<open>list\<close> command with both \<open>--pages\<close> and \<open>--articles\<close>.\<close>

theorem parse_args_limits_exclusive:
  "parse_args argv = Inr (CList a) \<Longrightarrow> la_pages a = None \<or> la_articles a = None"
  by (drule parse_args_cases) auto

subsection \<open>Every valid command can be written on the command line\<close>

lemma classify_category: "c \<in> set VALID_CATEGORIES \<Longrightarrow> classify opts c = OPos"
  by (auto simp: VALID_CATEGORIES_def classify_def)

lemma classify_eq_opt:
  assumes "nm \<in> set opts" "\<forall>x\<in>set opts. CHR ''='' \<notin> set x" "nm \<noteq> []" "hd nm = CHR ''-''"
  shows "classify opts (nm @ CHR ''='' # v) = OOpt nm (Some v)"
proof -
  have noeq: "CHR ''='' \<notin> set nm" using assms(1,2) by blast
  have "nm @ CHR ''='' # v \<notin> set opts" using assms(2) by fastforce
  moreover have "before_eq (nm @ CHR ''='' # v) = nm" using noeq unfolding before_eq_def by (induction nm) auto
  moreover have "after_eq (nm @ CHR ''='' # v) = Some v" using noeq unfolding after_eq_def by (induction nm) auto
  moreover have "length (nm @ CHR ''='' # v) \<noteq> 1" using assms(3) by simp
  ultimately show ?thesis using assms(1,3,4) by (simp add: classify_def)
qed

lemma list_opts_noeq: "\<forall>x\<in>set list_opts. CHR ''='' \<notin> set x"
  by (simp add: list_opts_def)

lemma sub_parse_store:
  "nm \<in> {''--pages'', ''--articles'', ''--before''} \<Longrightarrow>
   sub_parse list_opts (opt_eq nm v # ts) st = sbind (store_opt nm v st) (sub_parse list_opts ts)"
  using classify_eq_opt [OF _ list_opts_noeq, of nm v] by (auto simp: list_opts_def opt_eq_def)

lemma sub_parse_rescrape:
  "''--rescrape'' \<in> set opts \<Longrightarrow> sub_parse opts (''--rescrape'' # ts) st = sub_parse opts ts (st\<lparr>ps_rescrape := True\<rparr>)"
  by (simp add: classify_def)

lemma sub_parse_category:
  "c \<in> set VALID_CATEGORIES \<Longrightarrow> sub_parse opts (c # ts) st = sbind (take_positional c st) (sub_parse opts ts)"
  using classify_category [of c opts] by (auto simp: VALID_CATEGORIES_def)

lemma classify_main_cmd: "classify main_opts ''list'' = OPos" "classify main_opts ''content'' = OPos"
  by (simp_all add: classify_def)

lemma dispatch_tail:
  "c \<in> set VALID_CATEGORIES \<Longrightarrow>
   dispatch False cmd (c # ts) =
     (if cmd = ''list'' \<or> cmd = ''content''
      then sbind (sub_finish (sub_parse (if cmd = ''list'' then list_opts else content_opts) ts
                                (pstate0\<lparr>ps_category := Some c\<rparr>)))
             (\<lambda>st. if ps_extras st then Inl (SystemExit 2) else Inr (to_cmd cmd st))
      else Inl (SystemExit 2))"
  by (simp add: dispatch_def sub_parse_category take_positional_def pstate0_def del: sub_parse.simps(2))

text \<open>C20. Round trip of the command line: every command the program can run
  (a category from \<open>VALID_CATEGORIES\<close>, at most one of the two limits) is what
  the parser returns for the command line \<open>cli_argv\<close> writes for it; in
  particular any \<open>--before\<close> text and any integer limit, negative ones
  included, reach the command unchanged.\<close>

theorem parse_args_cli_argv: "cli_valid c \<Longrightarrow> parse_args (cli_argv c) = Inr c"
proof (cases c)
  case (CList a)
  assume v: "cli_valid c"
  then have cat: "la_category a \<in> set VALID_CATEGORIES" and lim: "la_pages a = None \<or> la_articles a = None"
    using CList by (simp_all add: cli_valid_def)
  have resc: "''--rescrape'' \<in> set list_opts" by (simp add: list_opts_def)
  show ?thesis
    using lim cat unfolding CList
    by (cases "la_pages a"; cases "la_articles a"; cases "la_before a"; cases "la_rescrape a")
       (simp_all add: parse_args_def cli_argv_def classify_main_cmd dispatch_tail sub_parse_store
          sub_parse_rescrape [OF resc] store_opt_def sub_finish_def to_cmd_def pstate0_def py_simps
          del: sub_parse.simps(2))
next
  case (CContent a)
  assume v: "cli_valid c"
  then have cat: "ca_category a \<in> set VALID_CATEGORIES" using CContent by (simp add: cli_valid_def)
  have resc: "''--rescrape'' \<in> set content_opts" by (simp add: content_opts_def)
  show ?thesis
    using cat unfolding CContent
    by (cases "ca_rescrape a")
       (simp_all add: parse_args_def cli_argv_def classify_main_cmd dispatch_tail
          sub_parse_rescrape [OF resc] sub_finish_def to_cmd_def pstate0_def 
          del: sub_parse.simps(2))
qed

end
