(* ===== verification/List_Runs.thy ===== *)
theory List_Runs
  imports List_Cmd
begin

text \<open>
  Properties of whole runs of \<open>cmd_list\<close> (\<open>src/scrape.py\<close>, lines 59--124)
  that follow a run through its requests or compare two runs: the pages a run
  requests and their order, and idempotence of a second run against the same
  server.  The definitions and the outcome lemmas of the command are in
  \<open>List_Cmd\<close>.
\<close>

text \<open>Lines 94--106: the item loop passes over an article, doing nothing,
  when its id converts and it is skipped for the cutoff or its id is already
  known.\<close>

definition list_item_skipped :: "env \<Rightarrow> datetime option \<Rightarrow> int set \<Rightarrow> json \<Rightarrow> bool" where
  "list_item_skipped E bdt ids a =
     (case article_id a of
        Inl _ \<Rightarrow> False
      | Inr aid \<Rightarrow> (case cutoff_skip E bdt a of Inl _ \<Rightarrow> False | Inr skip \<Rightarrow> skip \<or> aid \<in> ids))"

subsection \<open>The requests of a run\<close>

lemma fetch_page_gets:
  "fetch_page E category fd p w = (r, w1) \<Longrightarrow>
   gets (trace w1) = gets (trace w) @ (if p = 1 then [] else [page_req category p])"
  by (auto simp: fetch_page_def run_simps page_req_def split: if_splits)

lemma list_items_gets: "list_items E f bdt alim arts v w = (r, w') \<Longrightarrow> gets (trace w') = gets (trace w)"
proof (induction arts arbitrary: v w)
  case Nil
  then show ?case by (simp add: run_simps)
next
  case (Cons a arts)
  then show ?case
    by (auto simp: run_simps Let_def split: sum.splits if_splits)
qed

lemma upto_pages:
  "1 \<le> p \<Longrightarrow> [max 2 p..p] @ [max 2 (p + 1)..k] = [max 2 p..max p k]"
proof (cases "p = 1")
  case True
  then show ?thesis by (cases "k \<le> 1") (simp_all add: max_def)
next
  case False
  assume "1 \<le> p"
  then have p: "2 \<le> p" using False by simp
  then show ?thesis
    by (cases "k \<le> p") (simp_all add: max_def upto_rec1 [of p k] upto_single)
qed

lemma page_gets_single: "1 \<le> p \<Longrightarrow> [max 2 p..p] = (if p = 1 then [] else [p])"
  by (simp add: max_def upto_single)

text \<open>The requests of the page loop from page \<open>page\<close>: the pages from \<open>page\<close>
  (page 1 is not requested again) up to some \<open>k\<close>, in order, within the page
  limit and within \<open>totalPage\<close>.\<close>

lemma list_pages_gets:
  "list_pages E category f bdt plim alim fd tp page v w = (r, w') \<Longrightarrow> 1 \<le> page \<Longrightarrow>
   \<exists>k. gets (trace w') = gets (trace w) @ map (page_req category) [max 2 page..k]
     \<and> (\<forall>l. plim = Some l \<longrightarrow> k \<le> max page l) \<and> k \<le> max (page - 1) tp"
proof (induction E category f bdt plim alim fd tp page v arbitrary: w r w' rule: list_pages.induct)
  case (1 E category f bdt plim alim fd tp page v)
  have one: "map (page_req category) [max 2 page..page] = (if page = 1 then [] else [page_req category page])"
    using page_gets_single [OF "1.prems"(2)] by simp
  show ?case
  proof (cases "tp < page")
    case True
    then have "w' = w" using "1.prems"(1) by (simp add: list_pages.simps run_simps)
    then show ?thesis using True by (intro exI [of _ "page - 1"]) auto
  next
    case go: False
    from "1.prems"(1) go show ?thesis
    proof (cases rule: list_pages_cases)
      case (fetch_err e)
      then show ?thesis using fetch_page_gets [OF fetch_err(1)] one go by (intro exI [of _ page]) auto
    next
      case (items_err data w1 e)
      then show ?thesis using fetch_page_gets [OF items_err(1)] one go by (intro exI [of _ page]) auto
    next
      case (loop_err data w1 arts e)
      then show ?thesis using fetch_page_gets [OF loop_err(1)] list_items_gets [OF loop_err(3)] one go
        by (intro exI [of _ page]) auto
    next
      case (stop data w1 arts v2 dn w3)
      have "gets (trace w') = gets (trace w3)" using stop(6) by auto
      then show ?thesis using fetch_page_gets [OF stop(1)] list_items_gets [OF stop(3)] one go
        by (intro exI [of _ page]) auto
    next
      case (continue data w1 arts v2 w3)
      have nf: "\<not> False" by simp
      obtain k where k: "gets (trace w') = gets (trace w3) @ map (page_req category) [max 2 (page + 1)..k]"
        "\<forall>l. plim = Some l \<longrightarrow> k \<le> max (page + 1) l" "k \<le> max (page + 1 - 1) tp"
        using "1.IH" [OF go nf continue(4) continue(5)] "1.prems"(2) by auto
      have w3: "gets (trace w3) = gets (trace w) @ map (page_req category) [max 2 page..page]"
        using fetch_page_gets [OF continue(1)] list_items_gets [OF continue(3)] one by simp
      show ?thesis
      proof (intro exI conjI allI impI)
        show "gets (trace w') = gets (trace w) @ map (page_req category) [max 2 page..max page k]"
          using k(1) w3 upto_pages [OF "1.prems"(2), of k] by (simp flip: map_append)
        fix l assume "plim = Some l"
        then show "max page k \<le> max page l" using k(2) continue(4) by (auto simp: lim_hit_def)
      next
        show "max page k \<le> max (page - 1) tp" using k(3) go by simp
      qed
    qed
  qed
qed

lemma list_setup_gets:
  "list_setup E args w = (r, w1) \<Longrightarrow>
   (gets (trace w1) = gets (trace w) \<or> gets (trace w1) = gets (trace w) @ [page_req (la_category args) 1])
   \<and> (\<forall>x. r = Inr x \<longrightarrow> gets (trace w1) = gets (trace w) @ [page_req (la_category args) 1])"
  unfolding list_setup_def Let_def
  by (elim py_bind_elim) (auto simp: run_simps page_req_def load_existing_ids_eq split: if_splits)

lemma list_with_gets:
  assumes run: "py_bind (fs_open_append f) (\<lambda>_.
      py_bind (py_lift (py_as_int tp0)) (\<lambda>tp.
      py_bind (list_pages E cat f bdt plim alim fd tp 1 v0) (\<lambda>v.
      py_bind (py_print (msg v)) (\<lambda>_. py_return (lv_count v))))) w1 = (r, w')"
  shows "\<exists>k. gets (trace w') = gets (trace w1) @ map (page_req cat) [2..k] \<and> (\<forall>l. plim = Some l \<longrightarrow> k \<le> max 1 l)"
  using run
  apply (elim py_bind_elim)
  subgoal by (simp add: run_simps)
  subgoal by (auto simp: run_simps split: if_splits intro!: exI [of _ 1])
  subgoal by (auto simp: run_simps split: if_splits dest!: list_pages_gets)
  subgoal by (simp add: run_simps)
  subgoal by (auto simp: run_simps split: if_splits dest!: list_pages_gets)
  done

lemma upto_from_one: "[1..max 1 k] = 1 # [2..k]"
  by (simp add: upto_rec1 max_def)

text \<open>C17. Ordering of the listing (spec, section 4.3): on every outcome, the
  requests a run makes are pages \<open>1, 2, \<dots>, k\<close> of its category, in this
  order and each once, and with \<open>--pages l\<close> never beyond \<open>max 1 l\<close>: page 1 is
  fetched before the limit is looked at, so \<open>--pages 0\<close> still fetches it.\<close>

theorem cmd_list_requests:
  assumes "cmd_list E args w = (r, w')"
  shows "\<exists>k. gets (trace w') = gets (trace w) @ map (page_req (la_category args)) [1..k]
           \<and> (\<forall>l. la_pages args = Some l \<longrightarrow> k \<le> max 1 l)"
  using assms unfolding cmd_list_def Let_def
proof (cases rule: py_bind_elim)
  case (raised e)
  from list_setup_gets [OF raised(1)] show ?thesis
  proof
    assume "gets (trace w') = gets (trace w) \<or> gets (trace w') = gets (trace w) @ [page_req (la_category args) 1]"
    then show ?thesis
    proof
      assume "gets (trace w') = gets (trace w)"
      then show ?thesis by (intro exI [of _ 0]) auto
    next
      assume "gets (trace w') = gets (trace w) @ [page_req (la_category args) 1]"
      then show ?thesis by (intro exI [of _ 1]) auto
    qed
  qed
next
  case (returned x w1)
  obtain S bdt fd tp0 where x: "x = (S, bdt, fd, tp0)" by (cases x) auto
  have w1: "gets (trace w1) = gets (trace w) @ [page_req (la_category args) 1]"
    using list_setup_gets [OF returned(1)] by blast
  obtain k where k: "gets (trace w') = gets (trace w1) @ map (page_req (la_category args)) [2..k]"
    "\<forall>l. la_pages args = Some l \<longrightarrow> k \<le> max 1 l"
    using list_with_gets [OF returned(2) [unfolded x prod.case]] by blast
  show ?thesis
  proof (intro exI conjI allI impI)
    show "gets (trace w') = gets (trace w) @ map (page_req (la_category args)) [1..max 1 k]"
      using k(1) w1 by (simp add: upto_from_one)
    fix l assume "la_pages args = Some l"
    then show "max 1 k \<le> max 1 l" using k(2) by simp
  qed
qed

subsection \<open>Running the command again\<close>

text \<open>A first run that returns has passed over or recorded every article of
  every page it read, so a second run against the same server reads the same
  pages, passes over every article, and writes nothing.\<close>

lemma list_item_skipped_mono:
  "list_item_skipped E bdt S a \<Longrightarrow> S \<subseteq> T \<Longrightarrow> list_item_skipped E bdt T a"
  by (auto simp: list_item_skipped_def split: sum.splits)

lemma list_items_covers:
  "list_items E f bdt None arts v w = (Inr (v', dn), w') \<Longrightarrow>
   \<not> dn \<and> lv_ids v \<subseteq> lv_ids v' \<and> (\<forall>a\<in>set arts. list_item_skipped E bdt (lv_ids v') a)"
proof (induction arts arbitrary: v w)
  case Nil
  then show ?case by (simp add: run_simps)
next
  case (Cons a arts)
  then show ?case
    by (auto simp: run_simps Let_def lim_hit_def list_item_skipped_def
             split: sum.splits if_splits dest!: Cons.IH)
qed

lemma list_items_skip_all:
  "\<forall>a\<in>set arts. list_item_skipped E bdt (lv_ids v) a \<Longrightarrow>
   list_items E f bdt alim arts v w = (Inr (v, False), w)"
  by (induction arts) (auto simp: run_simps list_item_skipped_def split: sum.splits)


lemma fetch_page_result:
  "fetch_page E category fd page w = (r, w1) \<Longrightarrow>
   r = (if page = 1 then Inr fd else api_response E (page_req category page)) \<and> file_of w1 = file_of w"
  by (auto simp: fetch_page_def run_simps page_req_def file_of_def [abs_def] split: if_splits)

lemma list_pages_page:
  assumes "\<not> tp < page" and "fetch_page E category fd page w = (Inr data, w1)"
    and "sbind (py_getitem data ''items'') py_iter = Inr arts"
    and "list_items E f bdt alim arts v w1 = (Inr (v2, False), w3)"
  shows "list_pages E category f bdt plim alim fd tp page v w =
           (if lim_hit plim page
            then (Inr v2, w3\<lparr>trace := trace w3 @ [Print (''Reached page limit ('' @ py_str_int (the plim) @ ''). Stopping.'')]\<rparr>)
            else list_pages E category f bdt plim alim fd tp (page + 1) v2 w3)"
  using assms by (simp add: list_pages.simps [of E category f bdt plim alim fd tp page v] run_simps
                       del: sbind_eq_Inr)

lemma list_pages_replay:
  "list_pages E category f bdt plim alim fd tp page v w = (Inr v', w') \<Longrightarrow> alim = None \<Longrightarrow>
   lv_ids v \<subseteq> lv_ids v' \<and>
   (\<forall>u x. lv_ids v' \<subseteq> lv_ids u \<longrightarrow>
      (\<exists>x'. list_pages E category f bdt plim alim fd tp page u x = (Inr u, x') \<and> file_of x' = file_of x))"
proof (induction E category f bdt plim alim fd tp page v arbitrary: w w' rule: list_pages.induct)
  case (1 E category f bdt plim alim fd tp page v)
  show ?case
  proof (cases "tp < page")
    case True
    then show ?thesis using "1.prems" by (auto simp: list_pages.simps run_simps)
  next
    case go: False
    from "1.prems"(1) go show ?thesis
    proof (cases rule: list_pages_cases)
      case (stop data w1 arts v2 dn w3)
      note cov = list_items_covers [OF stop(3) [unfolded "1.prems"(2)]]
      have lim: "lim_hit plim page" using stop(4) cov by simp
      show ?thesis
      proof (intro conjI allI impI)
        show "lv_ids v \<subseteq> lv_ids v'" using cov stop(5) by simp
        fix u :: lvars and x :: world assume u: "lv_ids v' \<subseteq> lv_ids u"
        obtain x1 where fx: "fetch_page E category fd page x = (Inr data, x1)" "file_of x1 = file_of x"
          using fetch_page_result [OF stop(1)] fetch_page_result [of E category fd page x]
          by (metis prod.collapse)
        have "\<forall>a\<in>set arts. list_item_skipped E bdt (lv_ids u) a"
          using cov stop(5) u list_item_skipped_mono by blast
        then have li: "list_items E f bdt alim arts u x1 = (Inr (u, False), x1)"
          by (rule list_items_skip_all)
        show "\<exists>x'. list_pages E category f bdt plim alim fd tp page u x = (Inr u, x') \<and> file_of x' = file_of x"
          using list_pages_page [OF go fx(1) stop(2) li] lim fx(2) by (simp add: file_of_def [abs_def])
      qed
    next
      case (continue data w1 arts v2 w3)
      note cov = list_items_covers [OF continue(3) [unfolded "1.prems"(2)]]
      note ih = "1.IH" [OF go _ continue(4) continue(5) "1.prems"(2)]
      show ?thesis
      proof (intro conjI allI impI)
        show "lv_ids v \<subseteq> lv_ids v'" using cov ih by blast
        fix u :: lvars and x :: world assume u: "lv_ids v' \<subseteq> lv_ids u"
        obtain x1 where fx: "fetch_page E category fd page x = (Inr data, x1)" "file_of x1 = file_of x"
          using fetch_page_result [OF continue(1)] fetch_page_result [of E category fd page x]
          by (metis prod.collapse)
        have "\<forall>a\<in>set arts. list_item_skipped E bdt (lv_ids u) a"
          using cov ih u list_item_skipped_mono by (meson order.trans)
        then have li: "list_items E f bdt alim arts u x1 = (Inr (u, False), x1)"
          by (rule list_items_skip_all)
        obtain x' where "list_pages E category f bdt plim alim fd tp (page + 1) u x1 = (Inr u, x')"
          "file_of x' = file_of x1"
          using ih u by blast
        then show "\<exists>x'. list_pages E category f bdt plim alim fd tp page u x = (Inr u, x') \<and> file_of x' = file_of x"
          using list_pages_page [OF go fx(1) continue(2) li] continue(4) fx(2) by simp
      qed
    qed simp_all
  qed
qed


lemma list_setup_facts:
  assumes "list_setup E args w = (Inr (S, bdt, fd, tp0), w1)"
  shows "before_of E (la_before args) = Inr bdt \<and> api_response E (page_req (la_category args) 1) = Inr fd
         \<and> py_getitem fd ''totalPage'' = Inr tp0 \<and> (\<exists>ta. py_dict_get fd ''total'' (JInt 0) = Inr ta)"
  using assms unfolding list_setup_def Let_def
  by (elim py_bind_elim) (auto simp: run_simps page_req_def)

lemma list_setup_run:
  assumes "\<not> la_rescrape args" and "load_existing_ids (list_file (la_category args)) w = (Inr S, w)"
    and "before_of E (la_before args) = Inr bdt" and "api_response E (page_req (la_category args) 1) = Inr fd"
    and "py_getitem fd ''totalPage'' = Inr tp0" and "py_dict_get fd ''total'' (JInt 0) = Inr ta"
  shows "\<exists>w1. list_setup E args w = (Inr (S, bdt, fd, tp0), w1) \<and> file_of w1 = file_of w"
  using assms by (simp add: list_setup_def Let_def run_simps page_req_def file_of_def [abs_def])

lemma list_with_parts:
  assumes "py_bind (fs_open_append f) (\<lambda>_.
      py_bind (py_lift (py_as_int tp0)) (\<lambda>tp.
      py_bind (list_pages E cat f bdt plim alim fd tp 1 v0) (\<lambda>v.
      py_bind (py_print (msg v)) (\<lambda>_. py_return (lv_count v))))) w1 = (Inr n, w')"
  shows "\<exists>tp v wc. py_as_int tp0 = Inr tp \<and> list_pages E cat f bdt plim alim fd tp 1 v0 (snd (fs_open_append f w1)) = (Inr v, wc)
           \<and> n = lv_count v \<and> file_of w' = file_of wc"
  using assms by (elim py_bind_elim) (auto simp: run_simps file_of_def [abs_def])

lemma list_with_run:
  assumes "py_as_int tp0 = Inr tp" and "file_of w f \<noteq> None"
    and "list_pages E cat f bdt plim alim fd tp 1 v0 w = (Inr v, w')"
  shows "py_bind (fs_open_append f) (\<lambda>_.
      py_bind (py_lift (py_as_int tp0)) (\<lambda>tp.
      py_bind (list_pages E cat f bdt plim alim fd tp 1 v0) (\<lambda>v.
      py_bind (py_print (msg v)) (\<lambda>_. py_return (lv_count v))))) w
      = (Inr (lv_count v), w'\<lparr>trace := trace w' @ [Print (msg v)]\<rparr>)"
  using assms by (simp add: run_simps path_exists_file_of)


text \<open>C18. Idempotence of list runs (spec, section 6): without \<open>--articles\<close> and
  \<open>--rescrape\<close>, on a well-formed ledger, a run that returns followed by a run
  with the same arguments against the same server: the second collects no new
  article and changes no file.\<close>

theorem cmd_list_idempotent:
  assumes norescrape: "\<not> la_rescrape args" and nolimit: "la_articles args = None"
    and ok: "ledger_ok_at (list_file (la_category args)) w"
    and run: "cmd_list E args w = (Inr n, w1)"
  shows "\<exists>w2. cmd_list E args w1 = (Inr 0, w2) \<and> file_of w2 = file_of w1"
proof -
  define lf where "lf = list_file (la_category args)"
  define msg :: "lvars \<Rightarrow> string" where "msg = (\<lambda>v. ''Done. Collected '' @ py_str_int (int (lv_count v)) @ '' new articles for ''
                         @ [SQ] @ la_category args @ [SQ] @ ''.'')"
  have cmd: "cmd_list E args = py_bind (list_setup E args) (\<lambda>(S, bdt, fd, tp0).
      py_bind (fs_open_append lf) (\<lambda>_.
      py_bind (py_lift (py_as_int tp0)) (\<lambda>tp.
      py_bind (list_pages E (la_category args) lf bdt (la_pages args) (la_articles args) fd tp 1
                 \<lparr>lv_ids = S, lv_count = 0\<rparr>) (\<lambda>v.
      py_bind (py_print (msg v)) (\<lambda>_. py_return (lv_count v))))))"
    by (simp add: cmd_list_def Let_def lf_def msg_def)
  from run [unfolded cmd] obtain S bdt fd tp0 wa where
    su: "list_setup E args w = (Inr (S, bdt, fd, tp0), wa)" and
    wr: "py_bind (fs_open_append lf) (\<lambda>_.
      py_bind (py_lift (py_as_int tp0)) (\<lambda>tp.
      py_bind (list_pages E (la_category args) lf bdt (la_pages args) (la_articles args) fd tp 1
                 \<lparr>lv_ids = S, lv_count = 0\<rparr>) (\<lambda>v.
      py_bind (py_print (msg v)) (\<lambda>_. py_return (lv_count v))))) wa = (Inr n, w1)"
    by (elim py_bind_elim) auto
  note facts = list_setup_facts [OF su]
  note so = list_setup_outcome [OF su]
  obtain xs where xs: "ledger_ids (start_ledger args w) = Inr xs" "S = set xs" and wf: "json_wf fd"
    using so by blast
  have start: "start_ledger args w = (case file_of wa lf of None \<Rightarrow> [] | Some t \<Rightarrow> t)"
    using so norescrape by (simp add: start_ledger_def lf_def)
  from list_with_parts [OF wr] obtain tp v wc where
    tp: "py_as_int tp0 = Inr tp" and
    pages: "list_pages E (la_category args) lf bdt (la_pages args) (la_articles args) fd tp 1
              \<lparr>lv_ids = S, lv_count = 0\<rparr> (snd (fs_open_append lf wa)) = (Inr v, wc)" and
    n: "n = lv_count v" and w1c: "file_of w1 = file_of wc"
    by blast
  have fb: "file_of (snd (fs_open_append lf wa)) lf = Some (start_ledger args w)"
    using start by (auto simp: run_simps path_exists_file_of split: option.splits)
  from list_pages_appends [OF pages fb wf] obtain bs ns where
    app: "list_all json_wf bs" "list_all2 (\<lambda>a n. article_id a = Inr n) bs ns" "distinct ns"
      "set ns \<inter> S = {}" "file_of wc lf = Some (start_ledger args w @ records bs)"
      "lv_ids v = S \<union> set ns"
    by auto
  have "ledger_ids (start_ledger args w @ records bs) = Inr (xs @ ns)"
    using ledger_ok_append_records [OF ledger_ok_start [OF ok] xs(1) app(1-3)] app(4) xs(2)
    by (auto simp: Int_commute)
  then have load: "load_existing_ids lf w1 = (Inr (lv_ids v), w1)"
    using w1c app(5,6) xs(2) by (simp add: load_existing_ids_eq)
  obtain ta where ta: "py_dict_get fd ''total'' (JInt 0) = Inr ta" using facts by blast
  obtain w1a where su2: "list_setup E args w1 = (Inr (lv_ids v, bdt, fd, tp0), w1a)"
    and f1a: "file_of w1a = file_of w1"
    using list_setup_run [OF norescrape load [unfolded lf_def]] facts ta by blast
  have sub: "lv_ids v \<subseteq> lv_ids \<lparr>lv_ids = lv_ids v, lv_count = 0\<rparr>" by simp
  obtain x' where pages2: "list_pages E (la_category args) lf bdt (la_pages args) (la_articles args) fd tp 1
              \<lparr>lv_ids = lv_ids v, lv_count = 0\<rparr> w1a = (Inr \<lparr>lv_ids = lv_ids v, lv_count = 0\<rparr>, x')"
    and fx: "file_of x' = file_of w1a"
    using conjunct2 [OF list_pages_replay [OF pages nolimit], rule_format, OF sub, of w1a] by blast
  have "file_of w1a lf \<noteq> None" using f1a w1c app(5) by simp
  from list_with_run [OF tp this pages2, of msg] su2 fx f1a show ?thesis
    by (simp add: cmd run_simps fun_eq_iff)
qed

subsection \<open>The cutoff before the dedup\<close>

lemma cutoff_skip_type_error:
  "py_dict_get a ''publishTime'' (JStr []) = Inr v \<Longrightarrow> py_truthy v \<Longrightarrow> \<forall>s. v \<noteq> JStr s \<Longrightarrow>
   cutoff_skip E (Some bdt) a = Inl TypeError"
  by (cases v) (simp_all add: cutoff_skip_def)

lemma list_items_first_error:
  "article_id a = Inr n \<Longrightarrow> cutoff_skip E bdt a = Inl e \<Longrightarrow>
   list_items E f bdt alim (a # rest) v w = (Inl e, w)"
  by (simp add: run_simps)

lemma list_pages_first_error:
  assumes "1 \<le> tp" "py_getitem fd ''items'' = Inr (JArr (a # rest))"
    "list_items E f bdt alim (a # rest) v w = (Inl e, w)"
  shows "list_pages E cat f bdt plim alim fd tp 1 v w = (Inl e, w)"
  using assms by (simp add: list_pages.simps fetch_page_def run_simps)

text \<open>C31. The cutoff is tested before the dedup (lines 97--106) and \<open>dateutil\<close>
  raises \<open>TypeError\<close> on a value that is not a string: when the first article of
  page 1 has a truthy \<open>publishTime\<close> that is not a string, a run with a cutoff
  raises \<open>TypeError\<close> with every file as it was, even though the article's id
  is already in the ledger; no article of the run is collected.\<close>

theorem cmd_list_cutoff_before_dedup:
  assumes "\<not> la_rescrape args" "file_of w (list_file (la_category args)) \<noteq> None"
    and "load_existing_ids (list_file (la_category args)) w = (Inr S, w)"
    and "before_of E (la_before args) = Inr (Some bdt)"
    and "api_response E (page_req (la_category args) 1) = Inr fd"
    and "py_getitem fd ''totalPage'' = Inr tp0" "py_as_int tp0 = Inr tp" "1 \<le> tp"
    and "py_dict_get fd ''total'' (JInt 0) = Inr ta"
    and "py_getitem fd ''items'' = Inr (JArr (a # rest))"
    and "article_id a = Inr n" "n \<in> S"
    and "py_dict_get a ''publishTime'' (JStr []) = Inr v" "py_truthy v" "\<forall>s. v \<noteq> JStr s"
  shows "fst (cmd_list E args w) = Inl TypeError \<and> file_of (snd (cmd_list E args w)) = file_of w"
proof -
  obtain w1 where s: "list_setup E args w = (Inr (S, Some bdt, fd, tp0), w1)" and f: "file_of w1 = file_of w"
    using list_setup_run [OF assms(1,3,4,5,6,9)] by blast
  have ex: "path_exists (list_file (la_category args)) w1"
    using assms(2) f by (simp add: path_exists_def)
  have p: "list_pages E (la_category args) (list_file (la_category args)) (Some bdt) (la_pages args)
             (la_articles args) fd tp 1 \<lparr>lv_ids = S, lv_count = 0\<rparr> w1 = (Inl TypeError, w1)"
    by (rule list_pages_first_error [OF assms(8,10) list_items_first_error [OF assms(11)
          cutoff_skip_type_error [OF assms(13-15)]]])
  show ?thesis
    using s p ex f assms(7) by (simp add: cmd_list_def Let_def run_simps fs_open_append_def)
qed

end
