(* ===== verification/Iso_Date.thy ===== *)
theory Iso_Date
  imports List_Cmd "HOL-Library.Product_Lexorder"
begin

text \<open>
  The date parser behind \<open>parse_date\<close> (\<open>src/scrape.py\<close> lines 51--56) on the
  inputs the command line documents for \<open>--before\<close> (\<open>YYYY-MM-DD\<close> or ISO 8601,
  naive values treated as UTC) and on \<open>publishTime\<close> values of that form.
  \<open>dateutil.parser.parse\<close> is not part of the repository; the development keeps
  it as the parameter \<open>dateutil_parse\<close> of \<open>env\<close> and constrains it, string by
  string, with \<open>dateutil_agrees\<close>: on the ISO subset read by \<open>iso_parse\<close> it
  returns what \<open>iso_parse\<close> returns, and elsewhere it is unconstrained.  The
  calendar is CPython's proleptic Gregorian ordinal (\<open>_ymd2ord\<close> of the
  \<open>datetime\<close> module), whose order is proved to be the calendar order
  (\<open>ymd2ord_less_iff\<close>).  The properties say what \<open>parse_date\<close> and the cutoff
  of \<open>cmd_list\<close> do on these strings.
\<close>

section \<open>The proleptic Gregorian calendar of \<open>datetime\<close>\<close>

text \<open>\<open>_is_leap\<close>, \<open>_days_before_year\<close>, the month tables, \<open>_days_in_month\<close>,
  \<open>_days_before_month\<close> and \<open>_ymd2ord\<close> of CPython's \<open>datetime\<close>; Python's \<open>//\<close>
  is \<open>div\<close> on \<open>int\<close>.  \<open>valid_date\<close> is \<open>_check_date_fields\<close> (\<open>MINYEAR = 1\<close>,
  \<open>MAXYEAR = 9999\<close>), which raises \<open>ValueError\<close> outside it.\<close>

definition is_leap :: "int \<Rightarrow> bool" where
  "is_leap year \<longleftrightarrow> year mod 4 = 0 \<and> (year mod 100 \<noteq> 0 \<or> year mod 400 = 0)"

definition days_before_year :: "int \<Rightarrow> int" where
  "days_before_year year = (let y = year - 1 in y * 365 + y div 4 - y div 100 + y div 400)"

definition DAYS_IN_MONTH :: "int list" where
  "DAYS_IN_MONTH = [-1, 31, 28, 31, 30, 31, 30, 31, 31, 30, 31, 30, 31]"

definition DAYS_BEFORE_MONTH :: "int list" where
  "DAYS_BEFORE_MONTH = [-1, 0, 31, 59, 90, 120, 151, 181, 212, 243, 273, 304, 334]"

definition days_in_month :: "int \<Rightarrow> int \<Rightarrow> int" where
  "days_in_month year month =
     (if month = 2 \<and> is_leap year then 29 else DAYS_IN_MONTH ! nat month)"

definition days_before_month :: "int \<Rightarrow> int \<Rightarrow> int" where
  "days_before_month year month =
     DAYS_BEFORE_MONTH ! nat month + (if 2 < month \<and> is_leap year then 1 else 0)"

definition ymd2ord :: "int \<Rightarrow> int \<Rightarrow> int \<Rightarrow> int" where
  "ymd2ord year month day = days_before_year year + days_before_month year month + day"

definition valid_date :: "int \<Rightarrow> int \<Rightarrow> int \<Rightarrow> bool" where
  "valid_date y m d \<longleftrightarrow> 1 \<le> y \<and> y \<le> 9999 \<and> 1 \<le> m \<and> m \<le> 12 \<and> 1 \<le> d \<and> d \<le> days_in_month y m"

definition days_in_year :: "int \<Rightarrow> int" where
  "days_in_year y = (if is_leap y then 366 else 365)"

text \<open>A reference count for the closed formulas above: the days of the years
  before \<open>y\<close>, of the months of \<open>y\<close> before \<open>m\<close>, and \<open>d\<close>.\<close>

definition days_ref :: "int \<Rightarrow> int \<Rightarrow> int \<Rightarrow> int" where
  "days_ref y m d = sum_list (map days_in_year [1..y - 1]) + sum_list (map (days_in_month y) [1..m - 1]) + d"

text \<open>The reading of a \<open>datetime\<close> in the model: microseconds since
  1970-01-01 00:00 of the same wall clock (\<open>EPOCH_ORD = _ymd2ord(1970, 1, 1)\<close>).\<close>

definition EPOCH_ORD :: int where
  "EPOCH_ORD = 719163"

definition wall_us :: "int \<Rightarrow> int \<Rightarrow> int \<Rightarrow> int \<Rightarrow> int \<Rightarrow> int \<Rightarrow> int \<Rightarrow> int" where
  "wall_us y m d hh mi ss us = ((ymd2ord y m d - EPOCH_ORD) * 86400 + hh * 3600 + mi * 60 + ss) * 1000000 + us"

section \<open>The ISO 8601 subset of \<open>dateutil.parser.parse\<close>\<close>

text \<open>Fixed-width decimal fields, as \<open>int()\<close> of a run of ASCII digits.\<close>

definition digits_int :: "string \<Rightarrow> int" where
  "digits_int s = foldl (\<lambda>acc c. 10 * acc + (int (of_char c) - 48)) 0 s"

definition digits_field :: "nat \<Rightarrow> string \<Rightarrow> int option" where
  "digits_field k s = (if length s = k \<and> list_all is_digit s then Some (digits_int s) else None)"

text \<open>\<open>YYYY-MM-DD\<close>, a date \<open>datetime\<close> accepts.\<close>

definition iso_ymd :: "string \<Rightarrow> (int \<times> int \<times> int) option" where
  "iso_ymd s =
     (if length s = 10 \<and> s ! 4 = CHR ''-'' \<and> s ! 7 = CHR ''-'' then
        (case (digits_field 4 (take 4 s), digits_field 2 (take 2 (drop 5 s)), digits_field 2 (drop 8 s)) of
           (Some y, Some m, Some d) \<Rightarrow> if valid_date y m d then Some (y, m, d) else None
         | _ \<Rightarrow> None)
      else None)"

text \<open>Fractional seconds as \<open>dateutil\<close>'s \<open>_parsems\<close> reads them:
  \<open>int(f.ljust(6, "0")[:6])\<close> microseconds.\<close>

definition iso_frac :: "string \<Rightarrow> int option" where
  "iso_frac f =
     (if f \<noteq> [] \<and> list_all is_digit f then Some (digits_int (take 6 (f @ ''000000''))) else None)"

text \<open>\<open>HH:MM\<close>, \<open>HH:MM:SS\<close> or \<open>HH:MM:SS.f\<close>, within the ranges \<open>time\<close> accepts.\<close>

definition iso_hms :: "string \<Rightarrow> (int \<times> int \<times> int \<times> int) option" where
  "iso_hms t =
     (if length t < 5 \<or> t ! 2 \<noteq> CHR '':'' then None
      else case (digits_field 2 (take 2 t), digits_field 2 (take 2 (drop 3 t))) of
        (Some hh, Some mi) \<Rightarrow>
          if 24 \<le> hh \<or> 60 \<le> mi then None
          else if length t = 5 then Some (hh, mi, 0, 0)
          else if t ! 5 \<noteq> CHR '':'' then None
          else (case digits_field 2 (take 2 (drop 6 t)) of
                  None \<Rightarrow> None
                | Some ss \<Rightarrow>
                    if 60 \<le> ss then None
                    else if length t = 8 then Some (hh, mi, ss, 0)
                    else if t ! 8 = CHR ''.'' then map_option (\<lambda>us. (hh, mi, ss, us)) (iso_frac (drop 9 t))
                    else None)
      | _ \<Rightarrow> None)"

text \<open>The zone designator: none (a naive result), \<open>Z\<close> (\<open>tzutc\<close>), or
  \<open>+HH:MM\<close>/\<open>-HH:MM\<close>/\<open>+HHMM\<close>/\<open>-HHMM\<close> (\<open>tzoffset\<close>, in seconds east of UTC).\<close>

definition iso_tz :: "string \<Rightarrow> int option option" where
  "iso_tz z =
     (if z = [] then Some None
      else if z = ''Z'' then Some (Some 0)
      else if (hd z = CHR ''+'' \<or> hd z = CHR ''-'') \<and> (length z = 6 \<and> z ! 3 = CHR '':'' \<or> length z = 5) then
        (let hm = filter (\<lambda>c. c \<noteq> CHR '':'') (tl z) in
         case (digits_field 2 (take 2 hm), digits_field 2 (drop 2 hm)) of
           (Some hh, Some mi) \<Rightarrow>
             if 24 \<le> hh \<or> 60 \<le> mi then None
             else Some (Some ((if hd z = CHR ''-'' then -1 else 1) * (hh * 3600 + mi * 60)))
         | _ \<Rightarrow> None)
      else None)"

definition tz_start :: "char \<Rightarrow> bool" where
  "tz_start c \<longleftrightarrow> c = CHR ''Z'' \<or> c = CHR ''+'' \<or> c = CHR ''-''"

text \<open>The date, then optionally \<open>T\<close> or a space, the time and the zone.\<close>

definition iso_parse :: "string \<Rightarrow> datetime option" where
  "iso_parse s =
     (case iso_ymd (take 10 s) of
        None \<Rightarrow> None
      | Some (y, m, d) \<Rightarrow>
          (let rest = drop 10 s in
           if rest = [] then Some \<lparr>dt_wall = wall_us y m d 0 0 0 0, dt_offset = None\<rparr>
           else if hd rest \<noteq> CHR ''T'' \<and> hd rest \<noteq> CHR '' '' then None
           else
             (case (iso_hms (takeWhile (\<lambda>c. \<not> tz_start c) (tl rest)),
                    iso_tz (dropWhile (\<lambda>c. \<not> tz_start c) (tl rest))) of
                (Some (hh, mi, ss, us), Some tz) \<Rightarrow>
                  Some \<lparr>dt_wall = wall_us y m d hh mi ss us, dt_offset = map_option (\<lambda>off. off * 1000000) tz\<rparr>
              | _ \<Rightarrow> None)))"

text \<open>The interface between the program and the library: the environment's
  parser agrees with \<open>iso_parse\<close> on a given string.\<close>

definition dateutil_agrees :: "env \<Rightarrow> string \<Rightarrow> bool" where
  "dateutil_agrees E s \<longleftrightarrow> (case iso_parse s of None \<Rightarrow> True | Some d \<Rightarrow> dateutil_parse E s = Inr d)"

text \<open>The strings \<open>YYYY-MM-DD\<close> themselves, zero-padded, to state properties
  for every calendar day.\<close>

primrec pad_digits :: "nat \<Rightarrow> int \<Rightarrow> string" where
  "pad_digits 0 n = []"
| "pad_digits (Suc k) n = pad_digits k (n div 10) @ [digit_char (nat (n mod 10))]"

definition iso_date :: "int \<Rightarrow> int \<Rightarrow> int \<Rightarrow> string" where
  "iso_date y m d = pad_digits 4 y @ ''-'' @ pad_digits 2 m @ ''-'' @ pad_digits 2 d"

text \<open>Fixtures: an environment whose parser is exactly \<open>iso_parse\<close>, and an
  article published on 2025-12-31.\<close>

definition E_iso :: env where
  "E_iso = \<lparr>server = (\<lambda>_. Inl ConnectionError),
            dateutil_parse = (\<lambda>s. case iso_parse s of Some d \<Rightarrow> Inr d | None \<Rightarrow> Inl DateParseError),
            exn_str = (\<lambda>_. ''error'')\<rparr>"

definition art_iso :: json where
  "art_iso = JObj [(''id'', JInt 7), (''publishTime'', JStr (iso_date 2025 12 31))]"

text \<open>An article published at 05:00 on 2026-01-01 in Bangkok (\<open>+07:00\<close>).\<close>

definition art_bkk :: json where
  "art_bkk = JObj [(''id'', JInt 9), (''publishTime'', JStr ''2026-01-01T05:00+07:00'')]"

section \<open>The calendar order\<close>

lemma div_Suc_step:
  fixes y k :: int assumes "1 < k"
  shows "(y + 1) div k = y div k + (if (y + 1) mod k = 0 then 1 else 0)"
proof -
  have "(y + 1) div k = y div k + 1 div k + (y mod k + 1 mod k) div k"
    by (rule div_add1_eq)
  then have d: "(y + 1) div k = y div k + (y mod k + 1) div k"
    using assms by simp
  have b: "0 \<le> y mod k" "y mod k < k"
    using assms by simp_all
  have m: "(y + 1) mod k = (y mod k + 1) mod k"
    by (simp add: mod_simps)
  show ?thesis
  proof (cases "y mod k + 1 = k")
    case True
    then show ?thesis using d m assms by simp
  next
    case False
    then have "y mod k + 1 < k" using b by simp
    then show ?thesis using d m b by simp
  qed
qed

lemma div_pred_step:
  fixes y k :: int assumes "1 < k"
  shows "y div k = (y - 1) div k + (if y mod k = 0 then 1 else 0)"
  using div_Suc_step[OF assms, of "y - 1"] by simp

lemma mod_dvd_zero:
  fixes y :: int assumes "c dvd b" "y mod b = 0"
  shows "y mod c = 0"
  using assms by (meson dvd_trans dvd_imp_mod_0 mod_0_imp_dvd)

lemma days_before_year_Suc:
  "days_before_year (y + 1) = days_before_year y + days_in_year y"
proof -
  have a: "y div 4 = (y - 1) div 4 + (if y mod 4 = 0 then 1 else 0)"
    and b: "y div 100 = (y - 1) div 100 + (if y mod 100 = 0 then 1 else 0)"
    and c: "y div 400 = (y - 1) div 400 + (if y mod 400 = 0 then 1 else 0)"
    by (rule div_pred_step; simp)+
  have i1: "y mod 400 = 0 \<Longrightarrow> y mod 100 = 0" and i2: "y mod 100 = 0 \<Longrightarrow> y mod 4 = 0"
    by (rule mod_dvd_zero; simp)+
  have "days_before_year (y + 1) = y * 365 + y div 4 - y div 100 + y div 400"
    by (simp add: days_before_year_def)
  also have "\<dots> = days_before_year y + 365 + (if y mod 4 = 0 then 1 else 0)
                  - (if y mod 100 = 0 then 1 else 0) + (if y mod 400 = 0 then 1 else 0)"
    unfolding days_before_year_def Let_def by (simp only: a b c left_diff_distrib mult_1)
  also have "\<dots> = days_before_year y + days_in_year y"
    using i1 i2 unfolding days_in_year_def is_leap_def
    by (cases "y mod 4 = 0"; cases "y mod 100 = 0"; cases "y mod 400 = 0") simp_all
  finally show ?thesis .
qed

lemma month_cases:
  fixes m :: int assumes "1 \<le> m" "m \<le> 12"
  shows "m = 1 \<or> m = 2 \<or> m = 3 \<or> m = 4 \<or> m = 5 \<or> m = 6 \<or> m = 7 \<or> m = 8 \<or> m = 9 \<or>
         m = 10 \<or> m = 11 \<or> m = 12"
  using assms by presburger

lemma days_before_month_Suc:
  "1 \<le> m \<Longrightarrow> m < 12 \<Longrightarrow>
   days_before_month y (m + 1) = days_before_month y m + days_in_month y m"
  using month_cases[of m]
  by (auto simp: days_before_month_def days_in_month_def DAYS_BEFORE_MONTH_def DAYS_IN_MONTH_def)

lemma days_before_month_12:
  "days_before_month y 12 + days_in_month y 12 = days_in_year y"
  by (simp add: days_before_month_def days_in_month_def DAYS_BEFORE_MONTH_def DAYS_IN_MONTH_def
                days_in_year_def)

lemma days_in_month_pos:
  "1 \<le> m \<Longrightarrow> m \<le> 12 \<Longrightarrow> 28 \<le> days_in_month y m"
  using month_cases[of m] by (auto simp: days_in_month_def DAYS_IN_MONTH_def)

lemma days_before_month_nonneg:
  "1 \<le> m \<Longrightarrow> m \<le> 12 \<Longrightarrow> 0 \<le> days_before_month y m"
  using month_cases[of m] by (auto simp: days_before_month_def DAYS_BEFORE_MONTH_def)

lemma days_before_month_mono:
  assumes "1 \<le> m" "m < m'" "m' \<le> 12"
  shows "days_before_month y m + days_in_month y m \<le> days_before_month y m'"
  using assms(2,3)
proof (induction m' rule: int_gr_induct)
  case base
  then show ?case using assms(1) by (simp add: days_before_month_Suc)
next
  case (step i)
  then show ?case
    using assms(1) days_before_month_Suc[of i y] days_in_month_pos[of i y] by simp
qed

lemma day_of_year_bounds:
  assumes "valid_date y m d"
  shows "1 \<le> days_before_month y m + d" "days_before_month y m + d \<le> days_in_year y"
proof -
  show "1 \<le> days_before_month y m + d"
    using assms days_before_month_nonneg[of m y] by (simp add: valid_date_def)
  have "days_before_month y m + days_in_month y m \<le> days_before_month y 12 + days_in_month y 12"
  proof (cases "m = 12")
    case False
    then show ?thesis
      using assms days_before_month_mono[of m 12 y] days_in_month_pos[of 12 y] by (simp add: valid_date_def)
  qed simp
  then show "days_before_month y m + d \<le> days_in_year y"
    using assms days_before_month_12[of y] by (simp add: valid_date_def)
qed

lemma days_in_year_pos: "365 \<le> days_in_year y"
  by (simp add: days_in_year_def)

lemma days_before_year_mono:
  assumes "y < y'" shows "days_before_year (y + 1) \<le> days_before_year y'"
  using assms
proof (induction y' rule: int_gr_induct)
  case base then show ?case by simp
next
  case (step i)
  then show ?case using days_before_year_Suc[of i] days_in_year_pos[of i] by simp
qed

lemma ymd2ord_less:
  assumes "valid_date y m d" "valid_date y' m' d'" "(y, m, d) < (y', m', d')"
  shows "ymd2ord y m d < ymd2ord y' m' d'"
proof -
  consider "y < y'" | "y = y'" "m < m'" | "y = y'" "m = m'" "d < d'"
    using assms(3) by (auto simp: less_prod_def le_less)
  then show ?thesis
  proof cases
    case 1
    then show ?thesis
      using day_of_year_bounds[OF assms(1)] day_of_year_bounds[OF assms(2)]
            days_before_year_mono[OF 1] days_before_year_Suc[of y]
      by (simp add: ymd2ord_def)
  next
    case 2
    then show ?thesis
      using assms(1,2) days_before_month_mono[of m m' y] days_before_month_nonneg[of m' y]
      by (simp add: ymd2ord_def valid_date_def)
  next
    case 3
    then show ?thesis by (simp add: ymd2ord_def)
  qed
qed

lemma ymd2ord_less_iff:
  assumes "valid_date y m d" "valid_date y' m' d'"
  shows "ymd2ord y m d < ymd2ord y' m' d' \<longleftrightarrow> (y, m, d) < (y', m', d')"
proof
  assume l: "ymd2ord y m d < ymd2ord y' m' d'"
  show "(y, m, d) < (y', m', d')"
  proof (rule ccontr)
    assume "\<not> (y, m, d) < (y', m', d')"
    then have "(y', m', d') < (y, m, d) \<or> (y', m', d') = (y, m, d)" by auto
    then show False using l ymd2ord_less[OF assms(2,1)] by auto
  qed
qed (rule ymd2ord_less[OF assms])

lemma ymd2ord_le_iff:
  assumes "valid_date y m d" "valid_date y' m' d'"
  shows "ymd2ord y m d \<le> ymd2ord y' m' d' \<longleftrightarrow> (y, m, d) \<le> (y', m', d')"
  using ymd2ord_less_iff[OF assms(2,1)] by (auto simp: not_less[symmetric])

lemma days_before_year_sum:
  "1 \<le> y \<Longrightarrow> days_before_year y = sum_list (map days_in_year [1..y - 1])"
proof (induction y rule: int_ge_induct)
  case base then show ?case by (simp add: days_before_year_def)
next
  case (step i)
  have "[1..i] = [1..i - 1] @ [i]" using step.hyps by (simp add: upto_rec2)
  then show ?case using step.IH days_before_year_Suc[of i] by simp
qed

lemma days_before_month_sum:
  "1 \<le> m \<Longrightarrow> m \<le> 12 \<Longrightarrow> days_before_month y m = sum_list (map (days_in_month y) [1..m - 1])"
  using month_cases[of m]
  by (auto simp: days_before_month_def days_in_month_def DAYS_BEFORE_MONTH_def DAYS_IN_MONTH_def upto.simps)

lemma ymd2ord_days_ref: "valid_date y m d \<Longrightarrow> ymd2ord y m d = days_ref y m d"
  by (simp add: ymd2ord_def days_ref_def valid_date_def days_before_year_sum days_before_month_sum)

section \<open>Reading the strings back\<close>

lemma days_in_month_le_31:
  "1 \<le> m \<Longrightarrow> m \<le> 12 \<Longrightarrow> days_in_month y m \<le> 31"
  using month_cases[of m] by (auto simp: days_in_month_def DAYS_IN_MONTH_def)

lemma digits_int_snoc:
  "digits_int (xs @ [c]) = 10 * digits_int xs + (int (of_char c) - 48)"
  by (simp add: digits_int_def)

lemma length_pad_digits [simp]: "length (pad_digits k n) = k"
  by (induction k arbitrary: n) simp_all

lemma pad_digits_digits: "list_all is_digit (pad_digits k n)"
  by (induction k arbitrary: n) (simp_all add: is_digit_digit_char nat_less_iff)

lemma digits_int_pad_digits: "digits_int (pad_digits k n) = n mod 10 ^ k"
proof (induction k arbitrary: n)
  case 0 then show ?case by (simp add: digits_int_def)
next
  case (Suc k)
  have "int (of_char (digit_char (nat (n mod 10)))) - 48 = n mod 10"
    by (simp add: of_char_digit_char_eq nat_less_iff)
  moreover have "n mod (10 * 10 ^ k) = 10 * (n div 10 mod 10 ^ k) + n mod 10"
    by (rule zmod_zmult2_eq) simp
  ultimately show ?case
    by (simp add: digits_int_snoc Suc.IH)
qed

lemma digits_field_pad_digits:
  "0 \<le> n \<Longrightarrow> n < 10 ^ k \<Longrightarrow> digits_field k (pad_digits k n) = Some n"
  by (simp add: digits_field_def pad_digits_digits digits_int_pad_digits)

lemma valid_date_fields:
  "valid_date y m d \<Longrightarrow> 0 \<le> y \<and> y < 10 ^ 4 \<and> 0 \<le> m \<and> m < 10 ^ 2 \<and> 0 \<le> d \<and> d < 10 ^ 2"
  using days_in_month_le_31[of m y] by (auto simp: valid_date_def)

lemma iso_ymd_iso_date:
  assumes "valid_date y m d" shows "iso_ymd (iso_date y m d) = Some (y, m, d)"
  using assms valid_date_fields[OF assms]
  by (simp add: iso_ymd_def iso_date_def nth_append digits_field_pad_digits)

lemma length_iso_date [simp]: "length (iso_date y m d) = 10"
  by (simp add: iso_date_def)

lemma iso_parse_iso_date:
  assumes "valid_date y m d"
  shows "iso_parse (iso_date y m d) = Some \<lparr>dt_wall = wall_us y m d 0 0 0 0, dt_offset = None\<rparr>"
  using iso_ymd_iso_date[OF assms] by (simp add: iso_parse_def)

lemma parse_date_iso:
  "dateutil_agrees E s \<Longrightarrow> iso_parse s = Some d \<Longrightarrow>
   parse_date E s = Inr (if dt_offset d = None then d\<lparr>dt_offset := Some 0\<rparr> else d)"
  by (simp add: dateutil_agrees_def parse_date_def)

lemma iso_tz_naive: "iso_tz z = Some None \<Longrightarrow> z = []"
  by (auto simp: iso_tz_def Let_def split: if_splits option.splits)

lemma iso_tz_start: "iso_tz z = Some tz \<Longrightarrow> z \<noteq> [] \<Longrightarrow> tz_start (hd z)"
  by (auto simp: iso_tz_def tz_start_def split: if_splits)

lemma iso_tz_tz: "iso_tz z = Some tz \<Longrightarrow> z \<noteq> [] \<Longrightarrow> tz \<noteq> None"
  by (auto simp: iso_tz_def Let_def split: if_splits option.splits)

lemma takeWhile_dropWhile_tz:
  assumes "iso_tz z = Some tz"
  shows "takeWhile (\<lambda>c. \<not> tz_start c) z = [] \<and> dropWhile (\<lambda>c. \<not> tz_start c) z = z"
  using iso_tz_start[OF assms] by (cases z) simp_all

lemma iso_parse_append_tz:
  assumes p: "iso_parse s = Some d" and n: "dt_offset d = None" and t: "drop 10 s \<noteq> []"
    and z: "iso_tz z = Some tz"
  shows "iso_parse (s @ z) = Some (d\<lparr>dt_offset := map_option (\<lambda>off. off * 1000000) tz\<rparr>)"
proof -
  obtain y m dd where ymd: "iso_ymd (take 10 s) = Some (y, m, dd)"
    using p by (auto simp: iso_parse_def split: option.splits)
  let ?r = "tl (drop 10 s)"
  obtain hh mi ss us tz0 where
    sep: "hd (drop 10 s) = CHR ''T'' \<or> hd (drop 10 s) = CHR '' ''" and
    h: "iso_hms (takeWhile (\<lambda>c. \<not> tz_start c) ?r) = Some (hh, mi, ss, us)" and
    z0: "iso_tz (dropWhile (\<lambda>c. \<not> tz_start c) ?r) = Some tz0" and
    d: "d = \<lparr>dt_wall = wall_us y m dd hh mi ss us, dt_offset = map_option (\<lambda>off. off * 1000000) tz0\<rparr>"
    using p t ymd by (auto simp: iso_parse_def Let_def split: if_splits option.splits)
  have "tz0 = None" using d n by simp
  then have "dropWhile (\<lambda>c. \<not> tz_start c) ?r = []" using z0 by (intro iso_tz_naive) simp
  then have tw: "takeWhile (\<lambda>c. \<not> tz_start c) ?r = ?r" by (simp add: dropWhile_eq_Nil_conv)
  have l: "10 < length s" using t by simp
  have "take 10 (s @ z) = take 10 s" "drop 10 (s @ z) = drop 10 s @ z" using l by simp_all
  moreover have "tl (drop 10 s @ z) = ?r @ z" "hd (drop 10 s @ z) = hd (drop 10 s)" using t by simp_all
  moreover have "takeWhile (\<lambda>c. \<not> tz_start c) (?r @ z) = ?r"
    "dropWhile (\<lambda>c. \<not> tz_start c) (?r @ z) = z"
    using tw takeWhile_dropWhile_tz[OF z] \<open>dropWhile (\<lambda>c. \<not> tz_start c) ?r = []\<close>
    by (simp_all add: takeWhile_append2 dropWhile_append2)
  ultimately show ?thesis
    using ymd sep h[unfolded tw] z t d by (auto simp: iso_parse_def Let_def)
qed

section \<open>What \<open>parse_date\<close> returns on ISO strings\<close>

lemma wall_us_date_le:
  "wall_us y m d 0 0 0 0 \<le> wall_us y' m' d' 0 0 0 0 \<longleftrightarrow> ymd2ord y m d \<le> ymd2ord y' m' d'"
  by (simp add: wall_us_def)

lemma parse_date_iso_date:
  "valid_date y m d \<Longrightarrow> dateutil_agrees E (iso_date y m d) \<Longrightarrow>
   parse_date E (iso_date y m d) = Inr \<lparr>dt_wall = wall_us y m d 0 0 0 0, dt_offset = Some 0\<rparr>"
  using parse_date_iso iso_parse_iso_date by fastforce

lemma iso_date_dt_ge:
  assumes "valid_date y m d" "valid_date y' m' d'"
    "dateutil_agrees E (iso_date y m d)" "dateutil_agrees E (iso_date y' m' d')"
  shows "\<exists>a b. parse_date E (iso_date y m d) = Inr a \<and> parse_date E (iso_date y' m' d') = Inr b
           \<and> (dt_ge a b \<longleftrightarrow> (y', m', d') \<le> (y, m, d))"
  using assms parse_date_iso_date[OF assms(1,3)] parse_date_iso_date[OF assms(2,4)]
        ymd2ord_le_iff[OF assms(2,1)]
  by (simp add: dt_ge_def dt_utc_def wall_us_date_le)

lemma before_of_iso_date:
  "parse_date E (iso_date y m d) = Inr a \<Longrightarrow> before_of E (Some (iso_date y m d)) = Inr (Some a)"
  by (simp add: before_of_def iso_date_def)

lemma cutoff_skip_pub:
  "py_dict_get art ''publishTime'' (JStr []) = Inr (JStr s) \<Longrightarrow> s \<noteq> [] \<Longrightarrow>
   parse_date E s = Inr p \<Longrightarrow> cutoff_skip E (Some bdt) art = Inr (dt_ge p bdt)"
  by (simp add: cutoff_skip_def)

lemma iso_tz_pad:
  assumes "sg = CHR ''+'' \<or> sg = CHR ''-''" "0 \<le> hh" "hh < 24" "0 \<le> mi" "mi < 60"
  shows "iso_tz (sg # pad_digits 2 hh @ CHR '':'' # pad_digits 2 mi)
           = Some (Some ((if sg = CHR ''-'' then -1 else 1) * (hh * 3600 + mi * 60)))"
proof -
  have c: "CHR '':'' \<notin> set (pad_digits 2 n)" for n
    using pad_digits_digits[of 2 n] by (auto simp: list_all_iff is_digit_def)
  have c': "filter (\<lambda>c. c \<noteq> CHR '':'') (pad_digits 2 n) = pad_digits 2 n" for n
    using c[of n] by (auto simp: filter_id_conv)
  show ?thesis
    using assms by (auto simp: iso_tz_def c' nth_append digits_field_pad_digits)
qed

lemma dateutil_agrees_E_iso: "dateutil_agrees E_iso s"
  by (simp add: dateutil_agrees_def E_iso_def split: option.split)

lemma digits_int_nonneg: "list_all is_digit s \<Longrightarrow> 0 \<le> digits_int s"
proof (induction s rule: rev_induct)
  case Nil then show ?case by (simp add: digits_int_def)
next
  case (snoc c s) then show ?case by (auto simp: digits_int_snoc is_digit_def)
qed

lemma digits_field_nonneg: "digits_field k s = Some n \<Longrightarrow> 0 \<le> n"
  by (auto simp: digits_field_def digits_int_nonneg split: if_splits)

lemma iso_tz_bound:
  "iso_tz z = Some tz \<Longrightarrow> tz = None \<or> (\<exists>off. tz = Some off \<and> \<bar>off\<bar> < 86400)"
  unfolding iso_tz_def Let_def
  by (auto split: if_splits option.splits dest!: digits_field_nonneg)

lemma iso_parse_offset:
  "iso_parse s = Some d \<Longrightarrow> dt_offset d = None \<or> (\<exists>off. dt_offset d = Some (off * 1000000) \<and> \<bar>off\<bar> < 86400)"
  by (auto simp: iso_parse_def Let_def split: option.splits if_splits dest!: iso_tz_bound)

text \<open>C25. \<open>--before YYYY-MM-DD\<close> (and a \<open>publishTime\<close> of that form) is read as
  midnight UTC of that calendar day, the same instant as \<open>YYYY-MM-DDT00:00:00Z\<close>.\<close>

theorem parse_date_iso_midnight:
  assumes "valid_date y m d" "dateutil_agrees E (iso_date y m d)"
    "dateutil_agrees E (iso_date y m d @ ''T00:00:00Z'')"
  shows "parse_date E (iso_date y m d) = Inr \<lparr>dt_wall = wall_us y m d 0 0 0 0, dt_offset = Some 0\<rparr>
       \<and> parse_date E (iso_date y m d @ ''T00:00:00Z'') = parse_date E (iso_date y m d)"
proof -
  have "iso_parse (iso_date y m d @ ''T00:00:00Z'')
          = Some \<lparr>dt_wall = wall_us y m d 0 0 0 0, dt_offset = Some 0\<rparr>"
    using iso_ymd_iso_date[OF assms(1)]
    by (simp add: iso_parse_def iso_hms_def iso_tz_def tz_start_def digits_field_def digits_int_def is_digit_def)
  then show ?thesis
    using parse_date_iso[OF assms(3)] parse_date_iso[OF assms(2) iso_parse_iso_date[OF assms(1)]]
    by simp
qed

text \<open>C26. The cutoff on calendar dates is inclusive: with \<open>--before\<close> a date
  \<open>b\<close> and an article published on date \<open>p\<close> (both \<open>YYYY-MM-DD\<close>), the article
  is skipped exactly when \<open>b \<le> p\<close> in calendar order.\<close>

theorem cutoff_iso_dates:
  assumes "valid_date b1 b2 b3" "valid_date y m d"
    "dateutil_agrees E (iso_date b1 b2 b3)" "dateutil_agrees E (iso_date y m d)"
    "py_dict_get art ''publishTime'' (JStr []) = Inr (JStr (iso_date y m d))"
  shows "\<exists>bdt. before_of E (Some (iso_date b1 b2 b3)) = Inr (Some bdt)
           \<and> cutoff_skip E (Some bdt) art = Inr ((b1, b2, b3) \<le> (y, m, d))"
proof -
  obtain p b where "parse_date E (iso_date y m d) = Inr p" "parse_date E (iso_date b1 b2 b3) = Inr b"
    "dt_ge p b \<longleftrightarrow> (b1, b2, b3) \<le> (y, m, d)"
    using iso_date_dt_ge[OF assms(2,1,4,3)] by blast
  then show ?thesis
    using before_of_iso_date cutoff_skip_pub[OF assms(5)] by (fastforce simp: iso_date_def)
qed

text \<open>C27. A naive timestamp is treated as UTC: \<open>parse_date\<close> reads it exactly
  as the same text followed by \<open>Z\<close> or by \<open>+00:00\<close>.\<close>

theorem parse_date_naive_utc:
  assumes "iso_parse s = Some d" "dt_offset d = None" "drop 10 s \<noteq> []"
    "dateutil_agrees E s" "dateutil_agrees E (s @ ''Z'')" "dateutil_agrees E (s @ ''+00:00'')"
  shows "parse_date E (s @ ''Z'') = parse_date E s \<and> parse_date E (s @ ''+00:00'') = parse_date E s"
proof -
  have z: "iso_tz ''Z'' = Some (Some 0)" "iso_tz ''+00:00'' = Some (Some 0)"
    by (simp_all add: iso_tz_def digits_field_def digits_int_def is_digit_def)
  show ?thesis
    using parse_date_iso[OF assms(4,1)] assms(2)
          parse_date_iso[OF assms(5) iso_parse_append_tz[OF assms(1-3) z(1)]]
          parse_date_iso[OF assms(6) iso_parse_append_tz[OF assms(1-3) z(2)]]
    by simp
qed

text \<open>C28. A UTC offset \<open>\<plusminus>HH:MM\<close> keeps the wall-clock reading and moves the
  instant: \<open>+HH:MM\<close> is that much earlier than the same reading in UTC,
  \<open>-HH:MM\<close> that much later.\<close>

theorem parse_date_offset:
  assumes "iso_parse s = Some d" "dt_offset d = None" "drop 10 s \<noteq> []"
    "sg = CHR ''+'' \<or> sg = CHR ''-''" "0 \<le> hh" "hh < 24" "0 \<le> mi" "mi < 60"
    "dateutil_agrees E s" "dateutil_agrees E (s @ sg # pad_digits 2 hh @ CHR '':'' # pad_digits 2 mi)"
  shows "\<exists>a b. parse_date E s = Inr a
           \<and> parse_date E (s @ sg # pad_digits 2 hh @ CHR '':'' # pad_digits 2 mi) = Inr b
           \<and> dt_wall b = dt_wall a
           \<and> dt_utc b = dt_utc a - (if sg = CHR ''-'' then -1 else 1) * (hh * 3600 + mi * 60) * 1000000"
  using parse_date_iso[OF assms(9,1)] assms(2)
        parse_date_iso[OF assms(10) iso_parse_append_tz[OF assms(1-3) iso_tz_pad[OF assms(4-8)]]]
  by (simp add: dt_utc_def)

text \<open>C29. With \<open>--before YYYY-MM-DD\<close>, every record a run of \<open>cmd_list\<close> appends
  whose \<open>publishTime\<close> is a date \<open>YYYY-MM-DD\<close> was published on a calendar day
  strictly before the cutoff day.\<close>

theorem cmd_list_before_date:
  assumes run: "cmd_list E args w = (r, w')"
    and b: "la_before args = Some (iso_date b1 b2 b3)" "valid_date b1 b2 b3" "dateutil_agrees E (iso_date b1 b2 b3)"
  shows "file_of w' (list_file (la_category args)) =
           (if la_rescrape args then None else file_of w (list_file (la_category args)))
         \<or> (\<exists>bs. file_of w' (list_file (la_category args)) = Some (start_ledger args w @ records bs)
              \<and> (\<forall>a\<in>set bs. \<forall>y m d. py_dict_get a ''publishTime'' (JStr []) = Inr (JStr (iso_date y m d))
                     \<longrightarrow> valid_date y m d \<longrightarrow> dateutil_agrees E (iso_date y m d) \<longrightarrow> (y, m, d) < (b1, b2, b3)))"
proof -
  from cmd_list_outcome [OF run] show ?thesis
  proof (elim conjE disjE exE)
    assume "file_of w' (list_file (la_category args)) =
        (if la_rescrape args then None else file_of w (list_file (la_category args)))"
    then show ?thesis by (rule disjI1)
  next
    fix xs bs ns bdt'
    assume h: "before_of E (la_before args) = Inr bdt'"
      "file_of w' (list_file (la_category args)) = Some (start_ledger args w @ records bs)"
      "\<forall>a\<in>set bs. cutoff_skip E bdt' a = Inr False"
    show ?thesis
    proof (rule disjI2, rule exI [of _ bs], intro conjI ballI allI impI)
      fix a y m d
      assume a: "a \<in> set bs" "py_dict_get a ''publishTime'' (JStr []) = Inr (JStr (iso_date y m d))"
        "valid_date y m d" "dateutil_agrees E (iso_date y m d)"
      obtain p q where pq: "parse_date E (iso_date y m d) = Inr p" "parse_date E (iso_date b1 b2 b3) = Inr q"
        "dt_ge p q \<longleftrightarrow> (b1, b2, b3) \<le> (y, m, d)"
        using iso_date_dt_ge[OF a(3) b(2) a(4) b(3)] by blast
      have "bdt' = Some q" using h(1) b(1) before_of_iso_date[OF pq(2)] by simp
      then have "cutoff_skip E bdt' a = Inr (dt_ge p q)"
        using cutoff_skip_pub[OF a(2) _ pq(1)] by (simp add: iso_date_def)
      then show "(y, m, d) < (b1, b2, b3)" using h(3) a(1) pq(3) by (auto simp: not_le)
    qed (use h(2) in simp)
  qed
qed

text \<open>C30. Whatever ISO text \<open>parse_date\<close> is given, naive or not, it returns an
  aware datetime with the same wall-clock reading, whose offset is strictly
  within a day as Python's \<open>timezone\<close> requires; the cutoff comparison of line
  101 therefore never mixes naive and aware values.\<close>

theorem parse_date_aware:
  assumes "iso_parse s = Some d" "dateutil_agrees E s"
  shows "\<exists>a off. parse_date E s = Inr a \<and> dt_wall a = dt_wall d \<and> dt_offset a = Some off
           \<and> \<bar>off\<bar> < 86400 * 1000000"
  using parse_date_iso[OF assms(2,1)] iso_parse_offset[OF assms(1)] by auto

text \<open>The instant \<open>parse_date\<close> gives a date \<open>YYYY-MM-DD\<close> is the
  reference count of days since 1970-01-01, years of 365 or 366 days and
  months of their lengths, times the length of a day: CPython's closed
  formula \<open>_ymd2ord\<close> (with the \<open>//4\<close>, \<open>//100\<close>, \<open>//400\<close> leap corrections)
  agrees with the day-by-day count.\<close>

theorem parse_date_days_ref:
  assumes "valid_date y m d" "dateutil_agrees E (iso_date y m d)"
  shows "parse_date E (iso_date y m d)
           = Inr \<lparr>dt_wall = (days_ref y m d - days_ref 1970 1 1) * 86400 * 1000000, dt_offset = Some 0\<rparr>"
proof -
  have "days_ref 1970 1 1 = EPOCH_ORD"
    using ymd2ord_days_ref[of 1970 1 1]
    by (simp add: valid_date_def days_in_month_def DAYS_IN_MONTH_def ymd2ord_def days_before_year_def
                  days_before_month_def DAYS_BEFORE_MONTH_def is_leap_def EPOCH_ORD_def)
  then show ?thesis
    using parse_date_iso_date[OF assms] ymd2ord_days_ref[OF assms(1)] by (simp add: wall_us_def)
qed

lemma pad_digits_not_tz: "\<forall>c\<in>set (pad_digits k n). \<not> tz_start c \<and> c \<noteq> CHR '':''"
  using pad_digits_digits [of k n] by (auto simp: list_all_iff is_digit_def tz_start_def)

lemma pad_digits_tz_while [simp]:
  "takeWhile (\<lambda>c. \<not> tz_start c) (pad_digits k n) = pad_digits k n"
  "dropWhile (\<lambda>c. \<not> tz_start c) (pad_digits k n) = []"
  using pad_digits_not_tz [of k n] by (simp_all add: takeWhile_eq_all_conv dropWhile_eq_Nil_conv)

lemma iso_parse_date_hm:
  assumes "valid_date y m d" "0 \<le> hh" "hh < 24" "0 \<le> mi" "mi < 60"
  shows "iso_parse (iso_date y m d @ ''T'' @ pad_digits 2 hh @ CHR '':'' # pad_digits 2 mi)
           = Some \<lparr>dt_wall = wall_us y m d hh mi 0 0, dt_offset = None\<rparr>"
proof -
  let ?t = "pad_digits 2 hh @ CHR '':'' # pad_digits 2 mi"
  have nt: "\<forall>c\<in>set ?t. \<not> tz_start c"
    using pad_digits_not_tz [of 2 hh] pad_digits_not_tz [of 2 mi] by (auto simp: tz_start_def)
  have tw: "takeWhile (\<lambda>c. \<not> tz_start c) ?t = ?t" "dropWhile (\<lambda>c. \<not> tz_start c) ?t = []"
    using nt by (simp_all only: takeWhile_eq_all_conv dropWhile_eq_Nil_conv)
  have h: "iso_hms ?t = Some (hh, mi, 0, 0)"
    using assms(2-5) by (simp add: iso_hms_def nth_append digits_field_pad_digits)
  show ?thesis
    using iso_ymd_iso_date [OF assms(1)] h tw by (simp add: iso_parse_def iso_tz_def del: takeWhile_append dropWhile_append)
qed

text \<open>C33. On the cutoff day itself the cutoff depends on the zone of the
  timestamp: with \<open>--before YYYY-MM-DD\<close>, an article published that day at local
  time \<open>hh:mi\<close> with offset \<open>+oh:om\<close> is skipped exactly when \<open>oh:om \<le> hh:mi\<close>;
  an article from the first hours of the cutoff day east of UTC is collected.\<close>

theorem cutoff_same_day_offset:
  assumes "valid_date y m d" "0 \<le> hh" "hh < 24" "0 \<le> mi" "mi < 60" "0 \<le> oh" "oh < 24" "0 \<le> om" "om < 60"
    and "dateutil_agrees E (iso_date y m d)"
    and "dateutil_agrees E (iso_date y m d @ ''T'' @ pad_digits 2 hh @ CHR '':'' # pad_digits 2 mi
                              @ CHR ''+'' # pad_digits 2 oh @ CHR '':'' # pad_digits 2 om)"
    and "py_dict_get art ''publishTime'' (JStr [])
           = Inr (JStr (iso_date y m d @ ''T'' @ pad_digits 2 hh @ CHR '':'' # pad_digits 2 mi
                        @ CHR ''+'' # pad_digits 2 oh @ CHR '':'' # pad_digits 2 om))"
  shows "\<exists>bdt. before_of E (Some (iso_date y m d)) = Inr (Some bdt)
           \<and> cutoff_skip E (Some bdt) art = Inr (oh * 60 + om \<le> hh * 60 + mi)"
proof -
  let ?z = "CHR ''+'' # pad_digits 2 oh @ CHR '':'' # pad_digits 2 om"
  have p0: "iso_parse ((iso_date y m d @ ''T'' @ pad_digits 2 hh @ CHR '':'' # pad_digits 2 mi) @ ?z)
             = Some \<lparr>dt_wall = wall_us y m d hh mi 0 0, dt_offset = Some ((oh * 3600 + om * 60) * 1000000)\<rparr>"
    using iso_parse_append_tz [OF iso_parse_date_hm [OF assms(1-5)] _ _ iso_tz_pad [OF _ assms(6-9)]]
    by (simp add: iso_date_def)
  have p: "parse_date E (iso_date y m d @ ''T'' @ pad_digits 2 hh @ CHR '':'' # pad_digits 2 mi @ ?z)
             = Inr \<lparr>dt_wall = wall_us y m d hh mi 0 0, dt_offset = Some ((oh * 3600 + om * 60) * 1000000)\<rparr>"
    using parse_date_iso [OF assms(11)] p0 by simp
  have b: "before_of E (Some (iso_date y m d))
             = Inr (Some \<lparr>dt_wall = wall_us y m d 0 0 0 0, dt_offset = Some 0\<rparr>)"
    using before_of_iso_date parse_date_iso_date [OF assms(1,10)] by blast
  have ar: "(om * 60000000 + oh * 3600000000 \<le> mi * 60000000 + hh * 3600000000)
             \<longleftrightarrow> (oh * 60 + om \<le> hh * 60 + mi)" for oh om hh mi :: int
    by (rule iffI; linarith)
  have "cutoff_skip E (Some \<lparr>dt_wall = wall_us y m d 0 0 0 0, dt_offset = Some 0\<rparr>) art
          = Inr (oh * 60 + om \<le> hh * 60 + mi)"
    using cutoff_skip_pub [OF assms(12) _ p, where bdt = "\<lparr>dt_wall = wall_us y m d 0 0 0 0, dt_offset = Some 0\<rparr>"]
    by (simp add: iso_date_def dt_ge_def dt_utc_def wall_us_def algebra_simps ar)
  then show ?thesis using b by blast
qed

subsection \<open>The properties at concrete inputs\<close>

theorem parse_date_iso_midnight_witness:
  "valid_date 2024 2 29
   \<and> parse_date E_iso (iso_date 2024 2 29) = Inr \<lparr>dt_wall = wall_us 2024 2 29 0 0 0 0, dt_offset = Some 0\<rparr>
   \<and> parse_date E_iso (iso_date 2024 2 29 @ ''T00:00:00Z'') = parse_date E_iso (iso_date 2024 2 29)"
proof -
  have h: "valid_date 2024 2 29" by code_simp
  show ?thesis
    using h parse_date_iso_midnight [OF h dateutil_agrees_E_iso dateutil_agrees_E_iso] by simp
qed

theorem cutoff_iso_dates_witness:
  "valid_date 2026 1 1 \<and> valid_date 2025 12 31
   \<and> py_dict_get art_iso ''publishTime'' (JStr []) = Inr (JStr (iso_date 2025 12 31))
   \<and> (\<exists>bdt. before_of E_iso (Some (iso_date 2026 1 1)) = Inr (Some bdt)
          \<and> cutoff_skip E_iso (Some bdt) art_iso = Inr False)"
proof -
  have h1: "valid_date 2026 1 1" and h2: "valid_date 2025 12 31" by code_simp+
  have h3: "py_dict_get art_iso ''publishTime'' (JStr []) = Inr (JStr (iso_date 2025 12 31))"
    by (simp add: art_iso_def)
  show ?thesis
    using h1 h2 h3 cutoff_iso_dates [OF h1 h2 dateutil_agrees_E_iso dateutil_agrees_E_iso h3] by simp
qed

theorem parse_date_naive_utc_witness:
  "iso_parse ''2026-01-01T07:30:00'' = Some \<lparr>dt_wall = wall_us 2026 1 1 7 30 0 0, dt_offset = None\<rparr>
   \<and> parse_date E_iso (''2026-01-01T07:30:00'' @ ''Z'') = parse_date E_iso ''2026-01-01T07:30:00''
   \<and> parse_date E_iso (''2026-01-01T07:30:00'' @ ''+00:00'') = parse_date E_iso ''2026-01-01T07:30:00''"
proof -
  have h: "iso_parse ''2026-01-01T07:30:00'' = Some \<lparr>dt_wall = wall_us 2026 1 1 7 30 0 0, dt_offset = None\<rparr>"
    by code_simp
  show ?thesis
    using h parse_date_naive_utc [OF h _ _ dateutil_agrees_E_iso dateutil_agrees_E_iso dateutil_agrees_E_iso]
    by simp
qed

theorem parse_date_offset_witness:
  "iso_parse ''2026-01-01T07:30:00'' = Some \<lparr>dt_wall = wall_us 2026 1 1 7 30 0 0, dt_offset = None\<rparr>
   \<and> (\<exists>a b. parse_date E_iso ''2026-01-01T07:30:00'' = Inr a
         \<and> parse_date E_iso (''2026-01-01T07:30:00'' @ CHR ''+'' # pad_digits 2 7 @ CHR '':'' # pad_digits 2 0) = Inr b
         \<and> dt_wall b = dt_wall a \<and> dt_utc b = dt_utc a - 25200000000)"
proof -
  have h: "iso_parse ''2026-01-01T07:30:00'' = Some \<lparr>dt_wall = wall_us 2026 1 1 7 30 0 0, dt_offset = None\<rparr>"
    by code_simp
  show ?thesis
    using h parse_date_offset [OF h _ _ _ _ _ _ _ dateutil_agrees_E_iso dateutil_agrees_E_iso,
                               of "CHR ''+''" 7 0]
    by simp
qed

theorem parse_date_aware_witness:
  "iso_parse ''2026-01-01T07:30:00+07:00''
     = Some \<lparr>dt_wall = wall_us 2026 1 1 7 30 0 0, dt_offset = Some 25200000000\<rparr>
   \<and> (\<exists>a off. parse_date E_iso ''2026-01-01T07:30:00+07:00'' = Inr a
         \<and> dt_wall a = wall_us 2026 1 1 7 30 0 0 \<and> dt_offset a = Some off \<and> \<bar>off\<bar> < 86400 * 1000000)"
proof -
  have h: "iso_parse ''2026-01-01T07:30:00+07:00''
             = Some \<lparr>dt_wall = wall_us 2026 1 1 7 30 0 0, dt_offset = Some 25200000000\<rparr>"
    by code_simp
  show ?thesis using h parse_date_aware [OF h dateutil_agrees_E_iso] by simp
qed

theorem parse_date_days_ref_witness:
  "valid_date 2000 12 31
   \<and> parse_date E_iso (iso_date 2000 12 31)
       = Inr \<lparr>dt_wall = (days_ref 2000 12 31 - days_ref 1970 1 1) * 86400 * 1000000, dt_offset = Some 0\<rparr>"
proof -
  have h: "valid_date 2000 12 31" by code_simp
  show ?thesis using h parse_date_days_ref [OF h dateutil_agrees_E_iso] by simp
qed

theorem cutoff_same_day_offset_witness:
  "valid_date 2026 1 1
   \<and> py_dict_get art_bkk ''publishTime'' (JStr [])
       = Inr (JStr (iso_date 2026 1 1 @ ''T'' @ pad_digits 2 5 @ CHR '':'' # pad_digits 2 0
                    @ CHR ''+'' # pad_digits 2 7 @ CHR '':'' # pad_digits 2 0))
   \<and> (\<exists>bdt. before_of E_iso (Some (iso_date 2026 1 1)) = Inr (Some bdt)
          \<and> cutoff_skip E_iso (Some bdt) art_bkk = Inr False)"
proof -
  have h1: "valid_date 2026 1 1" by code_simp
  have h2: "py_dict_get art_bkk ''publishTime'' (JStr [])
              = Inr (JStr (iso_date 2026 1 1 @ ''T'' @ pad_digits 2 5 @ CHR '':'' # pad_digits 2 0
                           @ CHR ''+'' # pad_digits 2 7 @ CHR '':'' # pad_digits 2 0))"
    by code_simp
  show ?thesis
    using h1 h2 cutoff_same_day_offset [OF h1 _ _ _ _ _ _ _ _ dateutil_agrees_E_iso dateutil_agrees_E_iso h2]
    by simp
qed

end
