(* ===== verification/Scenarios.thy ===== *)
theory Scenarios
  imports Cli List_Runs Iso_Date
begin

text \<open>
  Concrete runs of the commands against a scripted upstream server, used to
  apply the properties at inputs where their hypotheses hold and to check the
  worked examples of the spec.  \<open>srv_one\<close> serves category \<open>politics\<close> as one
  page holding article 1 and article 2 (published at time 50); the date parser
  of the scenarios reads a decimal number of seconds and returns it naive.
  The world \<open>w_one\<close> has a ledger that already holds article 1.  \<open>E_srv_iso\<close> reads
  dates with \<open>iso_parse\<close> and serves two articles dated either side of a
  \<open>--before\<close> day.
\<close>

definition srv_one :: "request \<Rightarrow> exn + response" where
  "srv_one req =
     (if req_params req = [(''section'', JStr ''politics''), (''page'', JInt 1)]
      then Inr \<lparr>status = 200,
                resp_body = ''{\"totalPage\": 1, \"items\": [{\"id\": 1}, {\"id\": 2, \"publishTime\": \"50\"}]}''\<rparr>
      else if req_url req = API_BASE @ ''/content'' \<and> req_params req = [(''id'', JInt 2)]
      then Inr \<lparr>status = 200, resp_body = ''{\"id\": 2, \"title\": \"two\"}''\<rparr>
      else Inr \<lparr>status = 404, resp_body = []\<rparr>)"

definition demo_parse :: "string \<Rightarrow> exn + datetime" where
  "demo_parse s = (case py_int_of_string s of
                     Some n \<Rightarrow> Inr \<lparr>dt_wall = n, dt_offset = None\<rparr>
                   | None \<Rightarrow> Inl DateParseError)"

definition E_one :: env where
  "E_one = \<lparr>server = srv_one, dateutil_parse = demo_parse, exn_str = (\<lambda>_. ''error'')\<rparr>"

definition w_one :: world where
  "w_one = \<lparr>files = Mapping.update (list_file ''politics'') (''{\"id\": 1}'' @ [LF]) Mapping.empty,
            trace = []\<rparr>"

definition list_one :: list_args where
  "list_one = \<lparr>la_category = ''politics'', la_pages = None, la_articles = None, la_before = Some ''100'',
               la_rescrape = False\<rparr>"

text \<open>The content scenario of the spec (section 8): the ledger holds articles 1
  and 2, the content directory holds \<open>1.json\<close> only.\<close>

definition w_c :: world where
  "w_c = \<lparr>files = Mapping.update (content_file ''politics'' (JInt 1)) ''{}''
                   (Mapping.update (list_file ''politics'') (''{\"id\": 1}'' @ [LF] @ ''{\"id\": 2}'' @ [LF])
                     Mapping.empty),
          trace = []\<rparr>"

definition w_empty :: world where
  "w_empty = \<lparr>files = Mapping.empty, trace = []\<rparr>"

text \<open>\<open>--articles 0\<close>, no cutoff.\<close>

definition list_zero :: list_args where
  "list_zero = \<lparr>la_category = ''politics'', la_pages = None, la_articles = Some 0, la_before = None,
                la_rescrape = False\<rparr>"

text \<open>\<open>--pages 0\<close>, no cutoff.\<close>

definition list_p0 :: list_args where
  "list_p0 = \<lparr>la_category = ''politics'', la_pages = Some 0, la_articles = None, la_before = None,
              la_rescrape = False\<rparr>"

text \<open>\<open>--articles 1\<close>, no cutoff.\<close>

definition list_art1 :: list_args where
  "list_art1 = \<lparr>la_category = ''politics'', la_pages = None, la_articles = Some 1, la_before = None,
                la_rescrape = False\<rparr>"

text \<open>\<open>--rescrape --before yesterday\<close>: a cutoff the date parser rejects.\<close>

definition list_bad :: list_args where
  "list_bad = \<lparr>la_category = ''politics'', la_pages = None, la_articles = None, la_before = Some ''yesterday'',
               la_rescrape = True\<rparr>"

text \<open>A ledger with a line that is JSON but not a dict, and one with a stub
  without an id.\<close>

definition w_arr :: world where
  "w_arr = \<lparr>files = Mapping.update (list_file ''politics'') (''[1]'' @ [LF]) Mapping.empty, trace = []\<rparr>"

definition w_noid :: world where
  "w_noid = \<lparr>files = Mapping.update (list_file ''politics'') (''{}'' @ [LF]) Mapping.empty, trace = []\<rparr>"

definition content_one :: content_args where
  "content_one = \<lparr>ca_category = ''politics'', ca_rescrape = False\<rparr>"

text \<open>A server that answers every request with an empty object, and a ledger
  whose only stub has the id \<open>"/tmp/x"\<close>.\<close>

definition srv_any :: "request \<Rightarrow> exn + response" where
  "srv_any req = Inr \<lparr>status = 200, resp_body = ''{}''\<rparr>"

definition E_any :: env where
  "E_any = \<lparr>server = srv_any, dateutil_parse = demo_parse, exn_str = (\<lambda>_. ''error'')\<rparr>"

definition w_esc :: world where
  "w_esc = \<lparr>files = Mapping.update (list_file ''politics'') (''{\"id\": \"/tmp/x\"}'' @ [LF]) Mapping.empty,
            trace = []\<rparr>"

text \<open>\<open>list politics --before 2026-01-01\<close> against a server whose one page holds
  article 7, published 2025-12-31, and article 8, published 2026-01-02; dates
  are read by \<open>iso_parse\<close>.\<close>

definition srv_iso :: "request \<Rightarrow> exn + response" where
  "srv_iso req =
     (if req_params req = [(''section'', JStr ''politics''), (''page'', JInt 1)]
      then Inr \<lparr>status = 200,
                resp_body = ''{\"totalPage\": 1, \"items\": [{\"id\": 7, \"publishTime\": \"2025-12-31\"}, {\"id\": 8, \"publishTime\": \"2026-01-02\"}]}''\<rparr>
      else Inr \<lparr>status = 404, resp_body = []\<rparr>)"

definition E_srv_iso :: env where
  "E_srv_iso = E_iso\<lparr>server := srv_iso\<rparr>"

definition list_iso :: list_args where
  "list_iso = \<lparr>la_category = ''politics'', la_pages = None, la_articles = None,
               la_before = Some (iso_date 2026 1 1), la_rescrape = False\<rparr>"

text \<open>A page whose first article, already in the ledger of \<open>w_one\<close>, carries its
  \<open>publishTime\<close> as a number instead of a string, followed by a
  new article 2; \<open>list_num\<close> asks for \<open>--before 2026-01-01\<close>, \<open>list_num_all\<close>
  for no cutoff.\<close>

definition srv_num :: "request \<Rightarrow> exn + response" where
  "srv_num req =
     (if req_params req = [(''section'', JStr ''politics''), (''page'', JInt 1)]
      then Inr \<lparr>status = 200,
                resp_body = ''{\"totalPage\": 1, \"items\": [{\"id\": 1, \"publishTime\": 2026}, {\"id\": 2}]}''\<rparr>
      else Inr \<lparr>status = 404, resp_body = []\<rparr>)"

definition E_num :: env where
  "E_num = E_iso\<lparr>server := srv_num\<rparr>"

definition list_num :: list_args where
  "list_num = \<lparr>la_category = ''politics'', la_pages = None, la_articles = None,
               la_before = Some ''2026-01-01'', la_rescrape = False\<rparr>"

definition list_num_all :: list_args where
  "list_num_all = list_num\<lparr>la_before := None\<rparr>"

text \<open>Page 1 of \<open>srv_num\<close> as \<open>api_get\<close> returns it.\<close>

definition page_num :: json where
  "page_num = JObj [(''totalPage'', JInt 1),
                    (''items'', JArr [JObj [(''id'', JInt 1), (''publishTime'', JInt 2026)], JObj [(''id'', JInt 2)]])]"

text \<open>A ledger holding one stub whose id is the string \<open>"/x"\<close>.\<close>

definition w_abs :: world where
  "w_abs = \<lparr>files = Mapping.update (list_file ''politics'') (''{\"id\": \"/x\"}'' @ [LF]) Mapping.empty,
            trace = []\<rparr>"

lemma w_one_ok: "ledger_ok_at (list_file (la_category list_one)) w_one"
  by code_simp

lemma list_one_result: "cmd_list E_one list_one w_one = (Inr 1, snd (cmd_list E_one list_one w_one))"
proof -
  have "fst (cmd_list E_one list_one w_one) = Inr 1" by code_simp
  then show ?thesis by (metis prod.collapse)
qed

lemma w_one_ledger: "file_of w_one (list_file (la_category list_one)) = Some (''{\"id\": 1}'' @ [LF])"
  by (simp add: w_one_def list_one_def file_of_def lookup_update)

theorem cmd_list_ledger_ok_witness:
  "ledger_ok_at (list_file (la_category list_one)) w_one
   \<and> ledger_ok_at (list_file (la_category list_one)) (snd (cmd_list E_one list_one w_one))"
  using w_one_ok cmd_list_ledger_ok [OF w_one_ok] by (rule conjI)

theorem cmd_list_new_ids_witness:
  "ledger_ok_at (list_file (la_category list_one)) w_one
   \<and> cmd_list E_one list_one w_one = (Inr 1, snd (cmd_list E_one list_one w_one))
   \<and> (\<exists>L' xs ys. file_of (snd (cmd_list E_one list_one w_one)) (list_file (la_category list_one)) = Some L'
        \<and> ledger_ids (start_ledger list_one w_one) = Inr xs \<and> ledger_ids L' = Inr (xs @ ys)
        \<and> distinct (xs @ ys) \<and> length ys = 1)"
  using w_one_ok list_one_result cmd_list_new_ids [OF w_one_ok list_one_result] by blast

theorem cmd_list_append_only_witness:
  "\<not> la_rescrape list_one
   \<and> file_of w_one (list_file (la_category list_one)) = Some (''{\"id\": 1}'' @ [LF])
   \<and> (\<exists>ext. file_of (snd (cmd_list E_one list_one w_one)) (list_file (la_category list_one))
             = Some ((''{\"id\": 1}'' @ [LF]) @ ext))"
proof -
  have h: "\<not> la_rescrape list_one" by (simp add: list_one_def)
  show ?thesis using h w_one_ledger cmd_list_append_only [OF h w_one_ledger] by blast
qed

theorem cmd_list_cutoff_witness:
  "cmd_list E_one list_one w_one = (fst (cmd_list E_one list_one w_one), snd (cmd_list E_one list_one w_one))
   \<and> before_of E_one (la_before list_one) = Inr (Some \<lparr>dt_wall = 100, dt_offset = Some 0\<rparr>)
   \<and> (file_of (snd (cmd_list E_one list_one w_one)) (list_file (la_category list_one)) =
           (if la_rescrape list_one then None else file_of w_one (list_file (la_category list_one)))
      \<or> (\<exists>bs. file_of (snd (cmd_list E_one list_one w_one)) (list_file (la_category list_one))
                = Some (start_ledger list_one w_one @ records bs)
           \<and> (\<forall>a\<in>set bs. \<forall>s. py_dict_get a ''publishTime'' (JStr []) = Inr (JStr s) \<longrightarrow> s \<noteq> [] \<longrightarrow>
                (\<exists>d. parse_date E_one s = Inr d \<and> dt_utc d < dt_utc \<lparr>dt_wall = 100, dt_offset = Some 0\<rparr>))))"
proof -
  have h1: "cmd_list E_one list_one w_one = (fst (cmd_list E_one list_one w_one), snd (cmd_list E_one list_one w_one))"
    by simp
  have h2: "before_of E_one (la_before list_one) = Inr (Some \<lparr>dt_wall = 100, dt_offset = Some 0\<rparr>)"
    by code_simp
  show ?thesis using h1 h2 cmd_list_cutoff [OF h1 h2] by blast
qed

theorem cmd_list_other_files_witness:
  "[''other''] \<noteq> list_file (la_category list_one)
   \<and> file_of (snd (cmd_list E_one list_one w_one)) [''other''] = file_of w_one [''other'']"
proof -
  have h: "[''other''] \<noteq> list_file (la_category list_one)" by code_simp
  show ?thesis using h cmd_list_other_files [OF h] by (rule conjI)
qed

theorem load_stubs_append_records_witness:
  "ends_nl (''{\"id\": 1}'' @ [LF]) \<and> list_all json_wf [JObj [(''id'', JInt 2)]]
   \<and> load_stubs ((''{\"id\": 1}'' @ [LF]) @ records [JObj [(''id'', JInt 2)]])
       = load_stubs (''{\"id\": 1}'' @ [LF]) @ [JObj [(''id'', JInt 2)]]"
proof -
  have h1: "ends_nl (''{\"id\": 1}'' @ [LF])" by (simp add: ends_nl_def)
  have h2: "list_all json_wf [JObj [(''id'', JInt 2)]]" by simp
  show ?thesis using h1 h2 load_stubs_append_records [OF h1 h2] by blast
qed

lemma w_c_ledger:
  "file_of w_c (list_file (ca_category content_one)) = Some (''{\"id\": 1}'' @ [LF] @ ''{\"id\": 2}'' @ [LF])"
  by code_simp

lemma w_c_ids:
  "list_all (\<lambda>s. \<exists>aid. py_getitem s ''id'' = Inr aid) (load_stubs (''{\"id\": 1}'' @ [LF] @ ''{\"id\": 2}'' @ [LF]))"
proof -
  have "load_stubs (''{\"id\": 1}'' @ [LF] @ ''{\"id\": 2}'' @ [LF]) = [JObj [(''id'', JInt 1)], JObj [(''id'', JInt 2)]]"
    by code_simp
  then show ?thesis by simp
qed

text \<open>The content example of the spec (section 8): with articles 1 and 2
  in the ledger and \<open>1.json\<close> present, the run reports 1 of 2 pending, fetches
  and writes exactly \<open>2.json\<close>, and leaves \<open>1.json\<close> as it was.\<close>

theorem content_example:
  "trace (snd (cmd_content E_one content_one w_c)) =
     [Print (pending_msg 1 2), Get (api_request ''content'' [(''id'', JInt 2)]), Sleep REQUEST_DELAY_MS,
      Print (done_msg (content_dir ''politics''))]
   \<and> file_of (snd (cmd_content E_one content_one w_c)) (content_file ''politics'' (JInt 2))
       = Some (json_dump_indent2 (JObj [(''id'', JInt 2), (''title'', JStr ''two'')]))
   \<and> file_of (snd (cmd_content E_one content_one w_c)) (content_file ''politics'' (JInt 1)) = Some ''{}''"
  by code_simp

theorem cmd_content_missing_ledger_witness:
  "file_of w_empty (list_file (ca_category content_one)) = None
   \<and> fst (cmd_content E_one content_one w_empty) = Inr ()
   \<and> files (snd (cmd_content E_one content_one w_empty)) = files w_empty
   \<and> gets (trace (snd (cmd_content E_one content_one w_empty))) = gets (trace w_empty)"
proof -
  have h: "file_of w_empty (list_file (ca_category content_one)) = None"
    by (simp add: w_empty_def file_of_def)
  show ?thesis using h cmd_content_missing_ledger [OF h] by blast
qed

theorem cmd_content_refines_witness:
  "file_of w_c (list_file (ca_category content_one)) = Some (''{\"id\": 1}'' @ [LF] @ ''{\"id\": 2}'' @ [LF])
   \<and> list_all (\<lambda>s. \<exists>aid. py_getitem s ''id'' = Inr aid) (load_stubs (''{\"id\": 1}'' @ [LF] @ ''{\"id\": 2}'' @ [LF]))
   \<and> cmd_content E_one content_one w_c = (Inr (), content_after E_one content_one (''{\"id\": 1}'' @ [LF] @ ''{\"id\": 2}'' @ [LF]) w_c)"
  using w_c_ledger w_c_ids cmd_content_refines [OF w_c_ledger w_c_ids] by blast

theorem cmd_content_fetches_witness:
  "file_of w_c (list_file (ca_category content_one)) = Some (''{\"id\": 1}'' @ [LF] @ ''{\"id\": 2}'' @ [LF])
   \<and> list_all (\<lambda>s. \<exists>aid. py_getitem s ''id'' = Inr aid) (load_stubs (''{\"id\": 1}'' @ [LF] @ ''{\"id\": 2}'' @ [LF]))
   \<and> list_all2 (\<lambda>s r. \<exists>aid. py_getitem s ''id'' = Inr aid \<and> r = api_request ''content'' [(''id'', aid)])
        [s \<leftarrow> load_stubs (''{\"id\": 1}'' @ [LF] @ ''{\"id\": 2}'' @ [LF]). \<not> stub_present (ca_category content_one) (rescraped content_one w_c) s]
        (gets (drop (length (trace w_c)) (trace (snd (cmd_content E_one content_one w_c)))))"
  using w_c_ledger w_c_ids cmd_content_fetches [OF w_c_ledger w_c_ids] by blast

theorem cmd_content_presence_witness:
  "file_of w_c (list_file (ca_category content_one)) = Some (''{\"id\": 1}'' @ [LF] @ ''{\"id\": 2}'' @ [LF])
   \<and> file_of (snd (cmd_content E_one content_one w_c)) (content_file ''politics'' (JInt 2))
       \<noteq> file_of (rescraped content_one w_c) (content_file ''politics'' (JInt 2))
   \<and> (\<exists>s\<in>set (load_stubs (''{\"id\": 1}'' @ [LF] @ ''{\"id\": 2}'' @ [LF])). \<exists>aid c. py_getitem s ''id'' = Inr aid
        \<and> content_file ''politics'' (JInt 2) = content_file (ca_category content_one) aid
        \<and> content_fetch E_one aid = Inr c
        \<and> file_of (snd (cmd_content E_one content_one w_c)) (content_file ''politics'' (JInt 2))
            = Some (json_dump_indent2 c))"
proof -
  have h: "file_of (snd (cmd_content E_one content_one w_c)) (content_file ''politics'' (JInt 2))
       \<noteq> file_of (rescraped content_one w_c) (content_file ''politics'' (JInt 2))"
    by code_simp
  show ?thesis using w_c_ledger h cmd_content_presence [OF w_c_ledger h] by blast
qed

lemma list_zero_result: "cmd_list E_one list_zero w_empty = (Inr 1, snd (cmd_list E_one list_zero w_empty))"
proof -
  have "fst (cmd_list E_one list_zero w_empty) = Inr 1" by code_simp
  then show ?thesis by (metis prod.collapse)
qed

text \<open>With \<open>--articles 0\<close> the run collects one article: the bound of \<open>cmd_list_article_bound\<close> is
  attained.\<close>

theorem cmd_list_article_bound_witness:
  "la_articles list_zero = Some 0 \<and> cmd_list E_one list_zero w_empty = (Inr 1, snd (cmd_list E_one list_zero w_empty))
   \<and> int 1 \<le> max 1 (0::int)"
proof -
  have h: "la_articles list_zero = Some 0" by (simp add: list_zero_def)
  show ?thesis using h list_zero_result cmd_list_article_bound [OF h list_zero_result] by blast
qed

lemma argv_pages_parse:
  "parse_args [''list'', ''politics'', ''--pages'', ''2''] =
     Inr (CList \<lparr>la_category = ''politics'', la_pages = Some 2, la_articles = None, la_before = None,
                 la_rescrape = False\<rparr>)"
  by code_simp

theorem parse_args_limits_exclusive_witness:
  "parse_args [''list'', ''politics'', ''--pages'', ''2''] =
     Inr (CList \<lparr>la_category = ''politics'', la_pages = Some 2, la_articles = None, la_before = None,
                 la_rescrape = False\<rparr>)
   \<and> (la_pages \<lparr>la_category = ''politics'', la_pages = Some 2, la_articles = None, la_before = None,
                 la_rescrape = False\<rparr> = None
      \<or> la_articles \<lparr>la_category = ''politics'', la_pages = Some 2, la_articles = None, la_before = None,
                 la_rescrape = False\<rparr> = None)"
  using argv_pages_parse parse_args_limits_exclusive [OF argv_pages_parse] by blast

text \<open>The spec's example of a rejected command line: both limits.\<close>

lemma argv_both_parse:
  "parse_args [''list'', ''politics'', ''--pages'', ''1'', ''--articles'', ''2''] = Inl (SystemExit 2)"
  by code_simp

theorem cmd_list_load_error_witness:
  "\<not> la_rescrape list_one \<and> file_of w_arr (list_file (la_category list_one)) = Some (''[1]'' @ [LF])
   \<and> ledger_ids (''[1]'' @ [LF]) = Inl TypeError \<and> cmd_list E_one list_one w_arr = (Inl TypeError, w_arr)"
proof -
  have h1: "\<not> la_rescrape list_one" by (simp add: list_one_def)
  have h2: "file_of w_arr (list_file (la_category list_one)) = Some (''[1]'' @ [LF])" by code_simp
  have h3: "ledger_ids (''[1]'' @ [LF]) = Inl TypeError" by code_simp
  show ?thesis using h1 h2 h3 cmd_list_load_error [OF h1 h2 h3] by blast
qed

theorem cmd_content_stub_without_id_witness:
  "file_of w_noid (list_file (ca_category content_one)) = Some (''{}'' @ [LF])
   \<and> \<not> list_all (\<lambda>s. \<exists>aid. py_getitem s ''id'' = Inr aid) (load_stubs (''{}'' @ [LF]))
   \<and> (\<exists>e. cmd_content E_one content_one w_noid = (Inl e, rescraped content_one w_noid))"
proof -
  have h1: "file_of w_noid (list_file (ca_category content_one)) = Some (''{}'' @ [LF])" by code_simp
  have "load_stubs (''{}'' @ [LF]) = [JObj []]" by code_simp
  then have h2: "\<not> list_all (\<lambda>s. \<exists>aid. py_getitem s ''id'' = Inr aid) (load_stubs (''{}'' @ [LF]))" by simp
  show ?thesis using h1 h2 cmd_content_stub_without_id [OF h1 h2] by blast
qed

lemma list_p0_gets:
  "gets (trace (snd (cmd_list E_one list_p0 w_empty))) = [page_req ''politics'' 1]"
  by code_simp

text \<open>With \<open>--pages 0\<close> the run still requests page 1, and only page 1: the
  bound \<open>max 1 l\<close> of \<open>cmd_list_requests\<close> is attained.\<close>

theorem cmd_list_requests_witness:
  "la_pages list_p0 = Some 0
   \<and> gets (trace (snd (cmd_list E_one list_p0 w_empty))) = [page_req ''politics'' 1]
   \<and> (\<exists>k. gets (trace (snd (cmd_list E_one list_p0 w_empty)))
           = gets (trace w_empty) @ map (page_req (la_category list_p0)) [1..k]
         \<and> (\<forall>l. la_pages list_p0 = Some l \<longrightarrow> k \<le> max 1 l))"
proof -
  have h: "la_pages list_p0 = Some 0" by (simp add: list_p0_def)
  have r: "cmd_list E_one list_p0 w_empty
      = (fst (cmd_list E_one list_p0 w_empty), snd (cmd_list E_one list_p0 w_empty))" by simp
  show ?thesis using h list_p0_gets cmd_list_requests [OF r] by blast
qed

text \<open>A nested text: the scanner reads it with some fuel, so \<open>json_loads\<close>
  returns the same value.\<close>

theorem json_loads_total_witness: "json_loads ''[[1], {}]'' = Some (JArr [JArr [JInt 1], JObj []])"
proof -
  have v: "jp_value 9 (skip_ws ''[[1], {}]'') = Some (JArr [JArr [JInt 1], JObj []], [])" by code_simp
  have e: "skip_ws [] = []" by (simp add: skip_ws_def)
  show ?thesis using json_loads_total [of "''[[1], {}]''" "JArr [JArr [JInt 1], JObj []]"] v e by blast
qed

text \<open>Running \<open>list politics --before 100\<close> on \<open>w_one\<close> a second time collects
  nothing and changes no file.\<close>

theorem cmd_list_idempotent_witness:
  "\<not> la_rescrape list_one \<and> la_articles list_one = None
   \<and> ledger_ok_at (list_file (la_category list_one)) w_one
   \<and> cmd_list E_one list_one w_one = (Inr 1, snd (cmd_list E_one list_one w_one))
   \<and> (\<exists>w2. cmd_list E_one list_one (snd (cmd_list E_one list_one w_one)) = (Inr 0, w2)
          \<and> file_of w2 = file_of (snd (cmd_list E_one list_one w_one)))"
proof -
  have h: "\<not> la_rescrape list_one" "la_articles list_one = None" by (simp_all add: list_one_def)
  show ?thesis using h w_one_ok list_one_result cmd_list_idempotent [OF h w_one_ok list_one_result] by blast
qed

text \<open>With \<open>--articles 1\<close> a second identical run is not idempotent: the
  first run stops after article 1, the second collects article 2.\<close>

theorem cmd_list_articles_rerun:
  "fst (cmd_list E_one list_art1 w_empty) = Inr 1
   \<and> fst (cmd_list E_one list_art1 (snd (cmd_list E_one list_art1 w_empty))) = Inr 1"
  by code_simp

text \<open>On \<open>w_c\<close> every stub has an integer id: whatever the run changes lies
  directly inside \<open>data/politics/content\<close>.\<close>

theorem cmd_content_confined_witness:
  "file_of w_c (list_file (ca_category content_one)) = Some (''{\"id\": 1}'' @ [LF] @ ''{\"id\": 2}'' @ [LF])
   \<and> load_stubs (''{\"id\": 1}'' @ [LF] @ ''{\"id\": 2}'' @ [LF]) = [JObj [(''id'', JInt 1)], JObj [(''id'', JInt 2)]]
   \<and> file_of (snd (cmd_content E_one content_one w_c)) (content_file ''politics'' (JInt 2))
       \<noteq> file_of w_c (content_file ''politics'' (JInt 2))
   \<and> (\<exists>x. content_file ''politics'' (JInt 2) = content_dir (ca_category content_one) @ [x]
          \<and> py_endswith x ''.json'')"
proof -
  have st: "load_stubs (''{\"id\": 1}'' @ [LF] @ ''{\"id\": 2}'' @ [LF]) = [JObj [(''id'', JInt 1)], JObj [(''id'', JInt 2)]]"
    by code_simp
  then have ids: "\<forall>s\<in>set (load_stubs (''{\"id\": 1}'' @ [LF] @ ''{\"id\": 2}'' @ [LF])). \<exists>i. py_getitem s ''id'' = Inr (JInt i)"
    by simp
  have ch: "file_of (snd (cmd_content E_one content_one w_c)) (content_file ''politics'' (JInt 2))
       \<noteq> file_of w_c (content_file ''politics'' (JInt 2))"
    by code_simp
  show ?thesis using w_c_ledger st ch cmd_content_confined [OF w_c_ledger ids] by blast
qed

text \<open>A stub whose id is the string \<open>"/tmp/x"\<close> makes
  \<open>content_dir / "/tmp/x.json"\<close> the absolute path \<open>/tmp/x.json\<close>: the run
  writes outside the data directory.\<close>

theorem cmd_content_id_escape:
  "file_of (snd (cmd_content E_any content_one w_esc)) [''/'', ''tmp'', ''x.json''] = Some ''{}''
   \<and> file_of w_esc [''/'', ''tmp'', ''x.json''] = None"
  by code_simp

text \<open>\<open>list politics --pages=-1 --before=-1d --rescrape\<close>: a negative limit and
  a value that starts with a dash reach the command.\<close>

theorem parse_args_cli_argv_witness:
  "cli_valid (CList \<lparr>la_category = ''politics'', la_pages = Some (-1), la_articles = None,
                      la_before = Some ''-1d'', la_rescrape = True\<rparr>)
   \<and> parse_args [''list'', ''politics'', ''--pages=-1'', ''--before=-1d'', ''--rescrape''] =
       Inr (CList \<lparr>la_category = ''politics'', la_pages = Some (-1), la_articles = None,
                   la_before = Some ''-1d'', la_rescrape = True\<rparr>)"
proof -
  have v: "cli_valid (CList \<lparr>la_category = ''politics'', la_pages = Some (-1), la_articles = None,
                      la_before = Some ''-1d'', la_rescrape = True\<rparr>)"
    by (simp add: cli_valid_def VALID_CATEGORIES_def)
  have a: "cli_argv (CList \<lparr>la_category = ''politics'', la_pages = Some (-1), la_articles = None,
                      la_before = Some ''-1d'', la_rescrape = True\<rparr>)
           = [''list'', ''politics'', ''--pages=-1'', ''--before=-1d'', ''--rescrape'']"
    by code_simp
  show ?thesis using v parse_args_cli_argv [OF v] a by simp
qed

text \<open>On \<open>w_one\<close>, \<open>--rescrape --before yesterday\<close> loses the ledger and
  collects nothing.\<close>

theorem cmd_list_rescrape_bad_before_witness:
  "la_rescrape list_bad \<and> file_of w_one (list_file (la_category list_bad)) = Some (''{\"id\": 1}'' @ [LF])
   \<and> before_of E_one (la_before list_bad) = Inl DateParseError
   \<and> fst (cmd_list E_one list_bad w_one) = Inl DateParseError
   \<and> file_of (snd (cmd_list E_one list_bad w_one)) (list_file (la_category list_bad)) = None"
proof -
  have h: "la_rescrape list_bad" "file_of w_one (list_file (la_category list_bad)) = Some (''{\"id\": 1}'' @ [LF])"
    "before_of E_one (la_before list_bad) = Inl DateParseError"
    by code_simp+
  show ?thesis using h cmd_list_rescrape_bad_before [OF h] by blast
qed

text \<open>The response for article 2 read back from the file the run wrote.\<close>

theorem cmd_content_readback_witness:
  "file_of w_c (list_file (ca_category content_one)) = Some (''{\"id\": 1}'' @ [LF] @ ''{\"id\": 2}'' @ [LF])
   \<and> file_of (snd (cmd_content E_one content_one w_c)) (content_file ''politics'' (JInt 2))
       \<noteq> file_of (rescraped content_one w_c) (content_file ''politics'' (JInt 2))
   \<and> (\<exists>s\<in>set (load_stubs (''{\"id\": 1}'' @ [LF] @ ''{\"id\": 2}'' @ [LF])). \<exists>aid c t. py_getitem s ''id'' = Inr aid
        \<and> content_file ''politics'' (JInt 2) = content_file (ca_category content_one) aid
        \<and> content_fetch E_one aid = Inr c
        \<and> file_of (snd (cmd_content E_one content_one w_c)) (content_file ''politics'' (JInt 2)) = Some t
        \<and> json_loads t = Some c)"
proof -
  have h: "file_of (snd (cmd_content E_one content_one w_c)) (content_file ''politics'' (JInt 2))
       \<noteq> file_of (rescraped content_one w_c) (content_file ''politics'' (JInt 2))"
    by code_simp
  show ?thesis using w_c_ledger h cmd_content_readback [OF w_c_ledger h] by blast
qed

text \<open>The content object of \<open>srv_one\<close> for article 2, printed both ways.\<close>

theorem json_dump_indent2_equiv_witness:
  "json_wf (JObj [(''id'', JInt 2), (''title'', JStr ''two'')])
   \<and> json_loads (json_dump_indent2 (JObj [(''id'', JInt 2), (''title'', JStr ''two'')]))
       = json_loads (json_dumps (JObj [(''id'', JInt 2), (''title'', JStr ''two'')]))"
proof -
  have wf: "json_wf (JObj [(''id'', JInt 2), (''title'', JStr ''two'')])" by simp
  show ?thesis using wf json_dump_indent2_equiv [OF wf] by blast
qed

lemma w_one_typed: "stubs_typed (start_ledger list_one w_one)"
  by code_simp

text \<open>The ledger of \<open>w_one\<close> stays well typed through a \<open>list\<close> run.\<close>

theorem cmd_list_stubs_typed_witness:
  "ledger_ok_at (list_file (la_category list_one)) w_one \<and> stubs_typed (start_ledger list_one w_one)
   \<and> (case file_of (snd (cmd_list E_one list_one w_one)) (list_file (la_category list_one)) of
        None \<Rightarrow> True | Some L' \<Rightarrow> stubs_typed L')"
  using w_one_ok w_one_typed cmd_list_stubs_typed [OF w_one_ok w_one_typed] by blast

lemma E_srv_iso_agrees: "dateutil_agrees E_srv_iso s"
  by (simp add: dateutil_agrees_def E_srv_iso_def E_iso_def split: option.split)

text \<open>The run appends article 7 and passes over article 8, published after the
  cutoff day.\<close>

lemma list_iso_run:
  "file_of (snd (cmd_list E_srv_iso list_iso w_empty)) (list_file ''politics'')
     = Some (''{\"id\": 7, \"publishTime\": \"2025-12-31\"}'' @ [LF])"
  by code_simp

theorem cmd_list_before_date_witness:
  "cmd_list E_srv_iso list_iso w_empty
     = (fst (cmd_list E_srv_iso list_iso w_empty), snd (cmd_list E_srv_iso list_iso w_empty))
   \<and> la_before list_iso = Some (iso_date 2026 1 1) \<and> valid_date 2026 1 1
   \<and> (file_of (snd (cmd_list E_srv_iso list_iso w_empty)) (list_file (la_category list_iso)) =
          (if la_rescrape list_iso then None else file_of w_empty (list_file (la_category list_iso)))
      \<or> (\<exists>bs. file_of (snd (cmd_list E_srv_iso list_iso w_empty)) (list_file (la_category list_iso))
                = Some (start_ledger list_iso w_empty @ records bs)
           \<and> (\<forall>a\<in>set bs. \<forall>y m d. py_dict_get a ''publishTime'' (JStr []) = Inr (JStr (iso_date y m d))
                  \<longrightarrow> valid_date y m d \<longrightarrow> dateutil_agrees E_srv_iso (iso_date y m d)
                  \<longrightarrow> (y, m, d) < (2026, 1, 1))))"
proof -
  have h1: "cmd_list E_srv_iso list_iso w_empty
              = (fst (cmd_list E_srv_iso list_iso w_empty), snd (cmd_list E_srv_iso list_iso w_empty))"
    by simp
  have h2: "la_before list_iso = Some (iso_date 2026 1 1)" by (simp add: list_iso_def)
  have h3: "valid_date 2026 1 1" by code_simp
  show ?thesis using h1 h2 h3 cmd_list_before_date [OF h1 h2 h3 E_srv_iso_agrees] by blast
qed

text \<open>The cutoff compares instants, not calendar days where the article
  was published: with \<open>--before 2026-01-01\<close> (midnight UTC), an article published
  at 05:00 on 2026-01-01 in Bangkok (\<open>+07:00\<close>, 22:00 UTC the day before) is
  collected, although its local publication day is the cutoff day.\<close>

theorem cutoff_local_day:
  "before_of E_iso (Some ''2026-01-01'')
     = Inr (Some \<lparr>dt_wall = wall_us 2026 1 1 0 0 0 0, dt_offset = Some 0\<rparr>)
   \<and> cutoff_skip E_iso (Some \<lparr>dt_wall = wall_us 2026 1 1 0 0 0 0, dt_offset = Some 0\<rparr>)
       (JObj [(''id'', JInt 9), (''publishTime'', JStr ''2026-01-01T05:00:00+07:00'')]) = Inr False"
  by code_simp

text \<open>The cutoff is tested before the dedup (lines 97--106), and
  \<open>dateutil\<close> raises \<open>TypeError\<close> on a value that is not a string: with
  \<open>--before\<close>, an article whose \<open>publishTime\<close> is a number aborts the whole run,
  even when the article is already in the ledger, and the new article after
  it is not collected; without \<open>--before\<close> the same run collects it.\<close>

theorem cmd_list_cutoff_type_error:
  "fst (cmd_list E_num list_num w_one) = Inl TypeError
   \<and> file_of (snd (cmd_list E_num list_num w_one)) (list_file ''politics'') = file_of w_one (list_file ''politics'')
   \<and> fst (cmd_list E_num list_num_all w_one) = Inr 1
   \<and> file_of (snd (cmd_list E_num list_num_all w_one)) (list_file ''politics'')
       = Some (''{\"id\": 1}'' @ [LF] @ ''{\"id\": 2}'' @ [LF])"
  by code_simp

lemma page_num_response: "api_response E_num (page_req ''politics'' 1) = Inr page_num"
  by code_simp

lemma w_one_ids: "load_existing_ids (list_file ''politics'') w_one = (Inr {1}, w_one)"
  by code_simp

lemma list_num_before:
  "before_of E_num (la_before list_num) = Inr (Some \<lparr>dt_wall = wall_us 2026 1 1 0 0 0 0, dt_offset = Some 0\<rparr>)"
  by code_simp

text \<open>Article 1 of \<open>srv_num\<close>, already in the ledger of \<open>w_one\<close>, has the number
  2026 as \<open>publishTime\<close>: the run with \<open>--before 2026-01-01\<close> raises.\<close>

theorem cmd_list_cutoff_before_dedup_witness:
  "load_existing_ids (list_file ''politics'') w_one = (Inr {1}, w_one)
   \<and> api_response E_num (page_req ''politics'' 1) = Inr page_num
   \<and> fst (cmd_list E_num list_num w_one) = Inl TypeError
   \<and> file_of (snd (cmd_list E_num list_num w_one)) = file_of w_one"
proof -
  have r: "\<not> la_rescrape list_num" and c: "la_category list_num = ''politics''"
    by (simp_all add: list_num_def)
  have e: "file_of w_one (list_file ''politics'') \<noteq> None" by code_simp
  have fd: "py_getitem page_num ''totalPage'' = Inr (JInt 1)" "py_as_int (JInt 1) = Inr 1"
    "py_dict_get page_num ''total'' (JInt 0) = Inr (JInt 0)"
    "py_getitem page_num ''items''
       = Inr (JArr [JObj [(''id'', JInt 1), (''publishTime'', JInt 2026)], JObj [(''id'', JInt 2)]])"
    by (simp_all add: page_num_def)
  have a: "article_id (JObj [(''id'', JInt 1), (''publishTime'', JInt 2026)]) = Inr 1"
    "py_dict_get (JObj [(''id'', JInt 1), (''publishTime'', JInt 2026)]) ''publishTime'' (JStr []) = Inr (JInt 2026)"
    by code_simp+
  show ?thesis
    using w_one_ids page_num_response
          cmd_list_cutoff_before_dedup [OF r e [folded c] w_one_ids [folded c] list_num_before
            page_num_response [folded c] fd(1,2) _ fd(3,4) a(1) _ a(2)]
    by (simp add: c)
qed

lemma w_abs_ledger: "file_of w_abs (list_file ''politics'') = Some (''{\"id\": \"/x\"}'' @ [LF])"
  by code_simp

lemma w_abs_stubs: "load_stubs (''{\"id\": \"/x\"}'' @ [LF]) = [] @ [JObj [(''id'', JStr (CHR ''/'' # ''x''))]]"
  by code_simp

text \<open>On \<open>w_abs\<close> the response for the stub \<open>"/x"\<close> is written to \<open>/x.json\<close>.\<close>

theorem cmd_content_absolute_id_witness:
  "file_of w_abs [''/'', ''x.json''] = None
   \<and> content_fetch E_any (JStr (CHR ''/'' # ''x'')) = Inr (JObj [])
   \<and> fst (cmd_content E_any content_one w_abs) = Inr ()
   \<and> file_of (snd (cmd_content E_any content_one w_abs)) [''/'', ''x'' @ ''.json''] = Some (json_dump_indent2 (JObj []))"
proof -
  have c: "ca_category content_one = ''politics''" by (simp add: content_one_def)
  have n: "file_of w_abs [''/'', ''x.json''] = None" by code_simp
  have f: "content_fetch E_any (JStr (CHR ''/'' # ''x'')) = Inr (JObj [])" by code_simp
  have ids: "list_all (\<lambda>s. \<exists>aid. py_getitem s ''id'' = Inr aid) (load_stubs (''{\"id\": \"/x\"}'' @ [LF]))"
    by (subst w_abs_stubs) simp
  show ?thesis
    using n f cmd_content_absolute_id [OF w_abs_ledger [folded c] ids w_abs_stubs _ _ _ f]
    by simp
qed

end
