(* ===== verification/Spec2Isabelle.thy ===== *)
theory Spec2Isabelle
  imports Scenarios
begin

text \<open>
  \<^bold>\<open>A verification library for the Thai PBS news scraper (\<open>src/scrape.py\<close>).\<close>

  \<^emph>\<open>The program.\<close>  \<open>scrape list <category>\<close> (\<open>cmd_list\<close>, lines 59--124) pages
  through the upstream \<open>section-loadmore\<close> endpoint and appends the article stubs
  it has not seen before to the ledger \<open>data/<category>/list.jsonl\<close>, one JSON
  record per line; the ids already known are read back by \<open>load_existing_ids\<close>
  (lines 34--48).  A cutoff (\<open>--before\<close>, \<open>parse_date\<close> lines 51--56), a page
  limit and an article limit stop it early; \<open>--rescrape\<close> deletes the ledger
  first.  \<open>scrape content <category>\<close> (\<open>cmd_content\<close>, lines 127--172) reads the
  ledger back and downloads every stub whose content file is missing.
  \<open>api_get\<close> (lines 27--31) is the only network access.

  \<^emph>\<open>The model.\<close>  Python values and effects are embedded shallowly:
  \<^item> \<open>Scrape_Base\<close>: the exceptions of the program as the datatype \<open>exn\<close>; a
    fallible value is \<open>exn + 'a\<close>.
  \<^item> \<open>Py_Str\<close>: \<open>str.strip\<close>, text-mode line iteration with universal newlines,
    \<open>str(int)\<close> and \<open>int(str)\<close>.
  \<^item> \<open>Json\<close>: JSON values (\<open>json\<close>, dicts as association lists in insertion order)
    and the Python operations the program applies to them: subscription,
    \<open>dict.get\<close>, iteration, truth value, \<open>int()\<close>, \<open>str()\<close>.
  \<^item> \<open>Json_Codec\<close>: \<open>json.dumps\<close> with CPython's separators, \<open>json.dump\<close> with
    \<open>indent=2\<close>, and \<open>json.loads\<close> as a recursive-descent parser with fuel
    \<open>Suc (length s)\<close>; every value's text is at least as long as its size
    (\<open>jsize_le_length\<close>), so that fuel never runs out on printed values.
  \<^item> \<open>Json_Read\<close>: the fuel of \<open>json_loads\<close> is enough for every input, and
    the indented text of \<open>json.dump(..., indent=2)\<close> reads back as the value.
  \<^item> \<open>World\<close>: a statement is a function \<open>world \<Rightarrow> (exn + 'a) \<times> world\<close>; the world
    holds the files (a \<open>Mapping\<close> from paths to contents) and the trace of
    requests, sleeps and prints.  The upstream server and the date parser are
    the parameters of the record \<open>env\<close>.  \<open>api_get\<close>, the constants of lines
    11--24, and the \<open>pathlib\<close> operations used by the program are here.
  \<^item> \<open>Ledger\<close>: the ledger format, \<open>load_existing_ids\<close>, the stub loader of
    \<open>cmd_content\<close>, and the abstraction \<open>ledger_ids\<close> (the ids the loader reads, in
    file order) with the well-formedness predicate \<open>ledger_ok\<close>.
  \<^item> \<open>List_Cmd\<close>: \<open>cmd_list\<close> as \<open>list_setup\<close> (lines 60--77) followed by the \<open>with\<close>
    block; the item loop \<open>list_items\<close> is structural recursion over the page's
    items, the page loop \<open>list_pages\<close> a \<open>function\<close> terminating by the measure
    \<open>total_page + 1 - page\<close> (the \<open>range\<close> of line 86).
  \<^item> \<open>List_Runs\<close>: whole runs of \<open>cmd_list\<close>: the pages a run requests and
    their order, and the replay of a run that makes a second run idempotent.
  \<^item> \<open>Content_Cmd\<close>: \<open>cmd_content\<close> with its missing-ledger return, the
    \<open>--rescrape\<close> deletion (\<open>rescraped\<close>), the pending stubs (\<open>content_pending\<close>)
    and the download loop \<open>content_loop\<close>, whose \<open>try\<close> catches every exception of
    one article.  \<open>content_batch\<close>, \<open>content_log\<close> and \<open>content_after\<close> are its
    world-independent specification (the server's answers are read through
    \<open>api_response\<close>, which does not depend on the world).
  \<^item> \<open>Iso_Date\<close>: the date parser behind \<open>parse_date\<close> on the ISO 8601 subset the
    command line documents (\<open>YYYY-MM-DD\<close>, then optionally \<open>T\<close> or a space,
    \<open>HH:MM[:SS[.f]]\<close> and \<open>Z\<close>/\<open>+HH:MM\<close>/\<open>-HHMM\<close>): \<open>iso_parse\<close>, over CPython's
    proleptic Gregorian ordinal \<open>ymd2ord\<close> (\<open>_ymd2ord\<close>, \<open>_days_before_year\<close>,
    \<open>_days_before_month\<close>).  The environment's \<open>dateutil_parse\<close> is tied to it
    string by string by \<open>dateutil_agrees\<close>; on other strings it stays free.
  \<^item> \<open>Cli\<close>: the parser \<open>main\<close> builds (lines 176--216), modelled from the
    algorithm of \<open>argparse\<close> for this configuration (exact options,
    \<open>--opt=value\<close>, unique prefixes, negative numbers, \<open>--\<close>, \<open>choices\<close>, the
    mutually exclusive group, rejected extras), and the dispatch of line 219.
  \<^item> \<open>Scenarios\<close>: a scripted server and concrete runs evaluated by \<open>code_simp\<close>,
    which apply the properties where their hypotheses hold and check the
    worked examples of the spec.

  \<^emph>\<open>The properties.\<close>  \<open>cmd_list_outcome\<close> describes every outcome of
  \<open>cmd_list\<close>: no file but the ledger changes, and the ledger is either as the
  setup left it or the ledger the loop started from followed by the records of
  well-formed articles that passed the cutoff, with fresh distinct ids.  From it
  follow the dedup invariant, the count of new ids, append-only behaviour, the
  cutoff, the frame property, and the bound \<open>max 1 l\<close> of \<open>--articles l\<close>
  (proved through the case analysis \<open>list_pages_cases\<close> of one page).  On
  every outcome the requests of a run are pages \<open>1..k\<close> of its category in
  increasing order, each once, with \<open>k \<le> max 1 l\<close> under \<open>--pages l\<close>
  (\<open>cmd_list_requests\<close>); a ledger that \<open>load_existing_ids\<close> cannot read makes
  the run raise before any request (\<open>cmd_list_load_error\<close>).  Without
  \<open>--articles\<close> and \<open>--rescrape\<close> a second run with the same arguments against
  the same server collects nothing and changes no file
  (\<open>cmd_list_idempotent\<close>, through the replay lemma \<open>list_pages_replay\<close>: the
  server's answers do not depend on the world, and every article of a page
  the first run read is passed over by \<open>list_item_skipped\<close>); with
  \<open>--articles\<close> the second run collects the next articles
  (\<open>cmd_list_articles_rerun\<close>).  With \<open>--rescrape\<close>, a \<open>--before\<close> the
  date parser rejects raises after the ledger is deleted
  (\<open>cmd_list_rescrape_bad_before\<close>).  The codec is proved to round-trip
  (\<open>json_loads_json_dumps\<close>), which makes the records written by \<open>cmd_list\<close>
  read back as the same stubs; the indented form of \<open>json.dump\<close> reads back as
  the same value (\<open>json_dump_indent2_equiv\<close>).
  \<open>cmd_content_outcome\<close> describes every outcome of \<open>cmd_content\<close>; from it follow
  that no ledger is ever modified, the refinement of the specification, that
  every pending stub is requested once in order whatever failed before it,
  and that a changed content file holds the response fetched for its id and
  reads back as it (\<open>cmd_content_readback\<close>); a
  stub without an id aborts the batch before any download
  (\<open>cmd_content_stub_without_id\<close>).  When every id is an integer the
  command changes only \<open>*.json\<close> files directly inside its content directory
  (\<open>cmd_content_confined\<close>); a string id is spliced into the path unchecked and
  can name a file anywhere: a stub with the id \<open>"/t"\<close> has its response
  written to \<open>/t.json\<close> (\<open>cmd_content_absolute_id\<close>).  The
  parser admits no \<open>list\<close> with both limits and only the thirteen categories,
  a rejected command line stops \<open>main\<close> before any effect, and every command the program can
  run is what the parser returns for the command line \<open>cli_argv\<close> writes for
  it (\<open>parse_args_cli_argv\<close>).  The type of a ledger (\<open>stubs_typed\<close>: every
  stub has an id \<open>int()\<close> accepts) is an invariant of \<open>cmd_list\<close>
  (\<open>cmd_list_stubs_typed\<close>), and on such a ledger \<open>cmd_content\<close> always returns,
  so \<open>list\<close> followed by \<open>content\<close> never raises in the second step
  (\<open>list_then_content\<close>).  The theorem below combines the
  three components: whatever the command line, every category's ledger stays
  well formed.
  On ISO strings (\<open>Iso_Date\<close>): \<open>parse_date\<close> reads \<open>YYYY-MM-DD\<close> as midnight UTC
  of that day (\<open>parse_date_iso_midnight\<close>), a naive timestamp as the same
  text with \<open>Z\<close> (\<open>parse_date_naive_utc\<close>), an offset \<open>+HH:MM\<close> as that much
  earlier (\<open>parse_date_offset\<close>), and always returns an aware value
  (\<open>parse_date_aware\<close>).  The closed-form ordinal is strictly monotone in the
  calendar order (\<open>ymd2ord_less_iff\<close>, through the year step
  \<open>days_before_year_Suc\<close>) and equal to a day-by-day count
  (\<open>parse_date_days_ref\<close>); hence the cutoff on \<open>YYYY-MM-DD\<close> dates is the
  inclusive calendar order (\<open>cutoff_iso_dates\<close>), and every record a
  \<open>list\<close> run appends with a date \<open>publishTime\<close> is from a day before the
  cutoff day (\<open>cmd_list_before_date\<close>).  The comparison is of instants, so
  an article published early on the cutoff day at \<open>+07:00\<close> is still
  collected exactly when its local time is before its offset
  (\<open>cutoff_same_day_offset\<close>); and since the cutoff is tested before the
  dedup, a \<open>publishTime\<close> that is not a string makes the run raise
  \<open>TypeError\<close> even on an article already recorded
  (\<open>cmd_list_cutoff_before_dedup\<close>).

  \<^emph>\<open>Not modelled.\<close>  JSON numbers with a fraction or exponent, whose
  printing needs the shortest round-trip \<open>repr\<close> of a double (the ledger and
  the envelopes of the upstream API carry integer ids and counts).  On a text
  holding such a number, or a character outside the model (below), the
  model's \<open>json_loads\<close> fails, i.e. \<open>JSONDecodeError\<close>, where Python succeeds;
  the properties describe those runs as the model computes them.  Also not
  modelled: directories: \<open>mkdir\<close> has no effect on the file map,
  so a content id containing a slash, whose parent directory does not exist
  in the real program, is written in the model; the transport, which is a
  parameter; the formats \<open>dateutil\<close> accepts beyond the ISO subset of
  \<open>Iso_Date\<close> (month names, other field orders, two-digit years, fuzzy
  parsing), on which the parameter \<open>dateutil_parse\<close> is left free; characters
  above U+00FF, since the model's characters are the 256 code points of
  Latin-1 (Thai text of the upstream API is outside the model, and so are
  the \<open>\u\<close> escapes that denote it); \<open>tqdm\<close>, which only renders progress; the texts
  \<open>argparse\<close> writes for usage and errors; the \<open>__main__\<close> guard (lines 222--223).
  Fuel: only \<open>json_loads\<close> uses fuel, \<open>Suc (length s)\<close>; it is proved enough for
  every input (\<open>json_loads_total\<close>: a successful scan consumes at least one
  character per unit of fuel it needs, so more fuel never changes the result),
  and in particular for every text \<open>json.dumps\<close> prints (the round trip).
\<close>

section \<open>Properties across the components\<close>

text \<open>C14. Whatever the command line, a run of the program keeps the ledger of
  every category well formed (distinct ids, every line loadable, newline
  terminated): the parser only admits the thirteen categories, whose ledgers
  are distinct files; \<open>cmd_list\<close> keeps its own ledger well formed and touches no
  other file; \<open>cmd_content\<close> never modifies a ledger.\<close>

theorem main_ledgers_ok:
  assumes "list_all (\<lambda>c. ledger_ok_at (list_file c) w) VALID_CATEGORIES"
  shows "list_all (\<lambda>c. ledger_ok_at (list_file c) (snd (main E argv w))) VALID_CATEGORIES"
proof (cases "parse_args argv")
  case (Inl e)
  then show ?thesis using assms by (simp add: main_def run_simps)
next
  case (Inr cmd)
  consider (list) a where "cmd = CList a" "la_category a \<in> set VALID_CATEGORIES"
    | (content) a where "cmd = CContent a"
    using parse_args_cases [OF Inr] by blast
  then show ?thesis
  proof cases
    case (list a)
    note a = list
    have w': "snd (main E argv w) = snd (cmd_list E a w)" using Inr a(1) by (simp add: main_list_world)
    show ?thesis
      unfolding list_all_iff w'
    proof
      fix c assume c: "c \<in> set VALID_CATEGORIES"
      show "ledger_ok_at (list_file c) (snd (cmd_list E a w))"
      proof (cases "c = la_category a")
        case True
        then show ?thesis using assms c ledger_ok_after_list [of a w E] by (simp add: list_all_iff)
      next
        case False
        then have "list_file c \<noteq> list_file (la_category a)" using c a(2) by (simp add: list_file_valid)
        then show ?thesis using assms c cmd_list_frame [of "list_file c" a E w]
          by (simp add: list_all_iff ledger_ok_at_def)
      qed
    qed
  next
    case (content a)
    then show ?thesis using assms Inr
      by (simp add: main_content_world cmd_content_keeps_ledgers list_all_iff ledger_ok_at_def)
  qed
qed

lemma w_one_all_ok: "list_all (\<lambda>c. ledger_ok_at (list_file c) w_one) VALID_CATEGORIES"
  by code_simp

theorem main_ledgers_ok_witness:
  "list_all (\<lambda>c. ledger_ok_at (list_file c) w_one) VALID_CATEGORIES
   \<and> list_all (\<lambda>c. ledger_ok_at (list_file c) (snd (main E_one [''list'', ''politics''] w_one))) VALID_CATEGORIES"
  using w_one_all_ok main_ledgers_ok [OF w_one_all_ok] by blast

text \<open>C24. The two commands compose (spec, sections 4.3 and 4.4): on a
  well-formed, well-typed ledger, a \<open>list\<close> run that returns is followed by a
  \<open>content\<close> run of the same category that returns as well, whatever the
  server answers: the ledger \<open>list\<close> leaves has no stub that would make
  \<open>content\<close> raise.\<close>

theorem list_then_content:
  assumes ok: "ledger_ok_at (list_file (la_category args)) w"
    and typed: "stubs_typed (start_ledger args w)"
    and run: "cmd_list E args w = (Inr n, w1)"
  shows "fst (cmd_content E \<lparr>ca_category = la_category args, ca_rescrape = b\<rparr> w1) = Inr ()"
proof -
  from cmd_list_outcome [OF run] obtain L' where
    L': "file_of w1 (list_file (la_category args)) = Some L'" by auto
  have "stubs_typed L'" using stubs_typed_after_list [OF ok typed run] L' by simp
  then show ?thesis using cmd_content_typed_returns [of w1 "\<lparr>ca_category = la_category args, ca_rescrape = b\<rparr>"] L'
    by simp
qed

text \<open>\<open>list politics --before 100\<close> then \<open>content politics\<close> on \<open>w_one\<close>.\<close>

theorem list_then_content_witness:
  "ledger_ok_at (list_file (la_category list_one)) w_one \<and> stubs_typed (start_ledger list_one w_one)
   \<and> cmd_list E_one list_one w_one = (Inr 1, snd (cmd_list E_one list_one w_one))
   \<and> fst (cmd_content E_one \<lparr>ca_category = la_category list_one, ca_rescrape = False\<rparr>
          (snd (cmd_list E_one list_one w_one))) = Inr ()"
  using w_one_ok w_one_typed list_one_result list_then_content [OF w_one_ok w_one_typed list_one_result]
  by blast

end
